(* ===== verification/Prelude.thy ===== *)
theory Prelude
  imports Main "HOL-Library.Word" "HOL-Library.Sublist" "HOL-Library.Multiset"
begin

text \<open>
  What every component of the model shares.

  Types: a machine integer is a word of its width (\<open>u8\<close>, \<open>u32\<close>, \<open>u64\<close>), a
  \<open>usize\<close> length is a \<open>nat\<close>, a byte string is a list of \<open>u8\<close>, a Rust \<open>str\<close> is
  the list of its UTF-8 bytes (so \<open>length\<close> is Rust's \<open>len\<close>), an \<open>Instant\<close> or a
  \<open>Duration\<close> is a number of nanoseconds, and a \<open>Result\<close> is a sum whose left side is
  the error.

  Operations of Rust's standard library that the sources use: saturating and checked
  addition, the \<open>{}\<close> format of an unsigned integer, \<open>trim\<close>, \<open>strip_prefix\<close>,
  \<open>split\<close>, \<open>join\<close>, big- and little-endian byte orders. The lemmas here are the ones
  the component proofs share.
\<close>

unbundle bit_operations_syntax

type_synonym u8 = "8 word"
type_synonym u32 = "32 word"
type_synonym u64 = "64 word"
type_synonym bytes = "8 word list"
type_synonym str = "char list"
type_synonym instant = nat
type_synonym duration = nat
type_synonym ('e, 'a) result = "'e + 'a"

named_theorems result_simps \<open>rewrite rules for the sequencing of results\<close>
named_theorems word_nat \<open>rules that move an operation on words to natural numbers\<close>

section \<open>Results\<close>

text \<open>Rust's \<open>?\<close>: the rest runs on the value, an error returns at once.\<close>

definition rbind :: "('e, 'a) result \<Rightarrow> ('a \<Rightarrow> ('e, 'b) result) \<Rightarrow> ('e, 'b) result" where
  "rbind r f = (case r of Inl e \<Rightarrow> Inl e | Inr x \<Rightarrow> f x)"

text \<open>\<open>Option::ok_or\<close>, \<open>Result::map_err\<close> and \<open>collect\<close> into a \<open>Result\<close> of a vector.\<close>

definition ok_or :: "'a option \<Rightarrow> 'e \<Rightarrow> ('e, 'a) result" where
  "ok_or x e = (case x of None \<Rightarrow> Inl e | Some v \<Rightarrow> Inr v)"

definition map_err :: "('e \<Rightarrow> 'f) \<Rightarrow> ('e, 'a) result \<Rightarrow> ('f, 'a) result" where
  "map_err f r = (case r of Inl e \<Rightarrow> Inl (f e) | Inr x \<Rightarrow> Inr x)"

fun collect_results :: "('a \<Rightarrow> ('e, 'b) result) \<Rightarrow> 'a list \<Rightarrow> ('e, 'b list) result" where
  "collect_results f [] = Inr []"
| "collect_results f (x # xs) =
     rbind (f x) (\<lambda>y. rbind (collect_results f xs) (\<lambda>ys. Inr (y # ys)))"

definition is_ok :: "('e, 'a) result \<Rightarrow> bool" where
  "is_ok r = (case r of Inl _ \<Rightarrow> False | Inr _ \<Rightarrow> True)"

lemma rbind_simps [simp, result_simps]:
  "rbind (Inl e) f = Inl e"
  "rbind (Inr x) f = f x"
  by (simp_all add: rbind_def)

lemma rbind_Inr_iff [result_simps]:
  "rbind r f = Inr y \<longleftrightarrow> (\<exists>x. r = Inr x \<and> f x = Inr y)"
  by (cases r) auto

lemma rbind_Inl_iff [result_simps]:
  "rbind r f = Inl e \<longleftrightarrow> r = Inl e \<or> (\<exists>x. r = Inr x \<and> f x = Inl e)"
  by (cases r) auto

lemma ok_or_Inr_iff [result_simps]: "ok_or x e = Inr v \<longleftrightarrow> x = Some v"
  by (cases x) (auto simp: ok_or_def)

lemma ok_or_simps [simp, result_simps]:
  "ok_or None e = Inl e" "ok_or (Some v) e = Inr v"
  by (simp_all add: ok_or_def)

lemma map_err_Inr_iff [result_simps]: "map_err f r = Inr v \<longleftrightarrow> r = Inr v"
  by (cases r) (auto simp: map_err_def)

lemma map_err_simps [simp, result_simps]:
  "map_err f (Inl e) = Inl (f e)" "map_err f (Inr x) = Inr x"
  by (simp_all add: map_err_def)

lemma if_Inr_iff [result_simps]:
  "(if b then Inl e else r) = Inr y \<longleftrightarrow> \<not> b \<and> r = Inr y"
  by auto

lemma is_ok_simps [simp, result_simps]: "is_ok (Inr x)" "\<not> is_ok (Inl e)"
  by (simp_all add: is_ok_def)

lemma is_ok_iff: "is_ok r \<longleftrightarrow> (\<exists>x. r = Inr x)"
  by (cases r) auto

lemma collect_results_Inr_iff:
  "collect_results f xs = Inr ys \<longleftrightarrow> list_all2 (\<lambda>x y. f x = Inr y) xs ys"
  by (induction xs arbitrary: ys) (auto simp: result_simps list_all2_Cons1)

lemma list_all2_left: "list_all2 P xs ys \<Longrightarrow> x \<in> set xs \<Longrightarrow> \<exists>y \<in> set ys. P x y"
  by (induction rule: list_all2_induct) auto

lemma list_all2_right: "list_all2 P xs ys \<Longrightarrow> y \<in> set ys \<Longrightarrow> \<exists>x \<in> set xs. P x y"
  by (induction rule: list_all2_induct) auto

section \<open>Machine integers\<close>

definition saturating_add :: "'n::len word \<Rightarrow> 'n word \<Rightarrow> 'n word" where
  "saturating_add a b = (if unat a + unat b < 2 ^ LENGTH('n) then a + b else - 1)"

definition checked_add :: "'n::len word \<Rightarrow> 'n word \<Rightarrow> 'n word option" where
  "checked_add a b = (if unat a + unat b < 2 ^ LENGTH('n) then Some (a + b) else None)"

definition saturating_sub :: "'n::len word \<Rightarrow> 'n word \<Rightarrow> 'n word" where
  "saturating_sub a b = (if b \<le> a then a - b else 0)"

lemma unat_lt2p: "unat (w :: 'n::len word) < 2 ^ LENGTH('n)"
  by (rule unsigned_less)

lemma unat_minus_one_word [word_nat]: "unat (- 1 :: 'n::len word) = 2 ^ LENGTH('n) - 1"
  by (simp add: unsigned_minus_1_eq_mask mask_eq_exp_minus_1)

lemma zero_less_minus_one [simp]: "(0 :: 'n::len word) < - 1"
  by (simp add: word_gt_0)

lemma unat_saturating_add [word_nat]:
  "unat (saturating_add a (b :: 'n::len word)) = min (unat a + unat b) (2 ^ LENGTH('n) - 1)"
  by (simp add: saturating_add_def unat_minus_one_word unat_word_ariths)

lemma checked_add_Some_iff [word_nat]:
  "checked_add a b = Some c \<longleftrightarrow> unat c = unat a + unat (b :: 'n::len word)"
proof (cases "unat a + unat b < 2 ^ LENGTH('n)")
  case True
  then have "c = a + b \<longleftrightarrow> unat c = unat a + unat b"
    by (simp add: word_unat_eq_iff unat_word_ariths)
  with True show ?thesis by (auto simp: checked_add_def)
next
  case False
  then have "unat c \<noteq> unat a + unat b" using unat_lt2p [of c] by linarith
  with False show ?thesis by (simp add: checked_add_def)
qed

lemma unat_saturating_sub [word_nat]:
  "unat (saturating_sub a (b :: 'n::len word)) = unat a - unat b"
  by (auto simp: saturating_sub_def unat_sub word_le_nat_alt)

text \<open>The inclusive range \<open>a..=b\<close>, in order.\<close>

definition incl_range :: "u64 \<Rightarrow> u64 \<Rightarrow> u64 list" where
  "incl_range a b = map of_nat [unat a ..< Suc (unat b)]"

lemma unat_of_nat_le:
  assumes "k \<le> unat (b :: u64)"
  shows "unat (of_nat k :: u64) = k"
proof -
  have "k < 2 ^ LENGTH(64)" using assms unat_lt2p [of b] by linarith
  then show ?thesis by (simp add: unat_of_nat)
qed

lemma set_incl_range: "set (incl_range a b) = {n. a \<le> n \<and> n \<le> b}"
proof (rule set_eqI)
  fix n :: u64
  have "n \<in> of_nat ` {unat a ..< Suc (unat b)} \<longleftrightarrow> unat a \<le> unat n \<and> unat n \<le> unat b"
  proof
    assume "n \<in> of_nat ` {unat a ..< Suc (unat b)}"
    then obtain k where "n = of_nat k" "unat a \<le> k" "k \<le> unat b" by auto
    then show "unat a \<le> unat n \<and> unat n \<le> unat b" using unat_of_nat_le by metis
  next
    assume "unat a \<le> unat n \<and> unat n \<le> unat b"
    then show "n \<in> of_nat ` {unat a ..< Suc (unat b)}"
      by (intro image_eqI [of _ _ "unat n"]) simp_all
  qed
  then show "n \<in> set (incl_range a b) \<longleftrightarrow> n \<in> {n. a \<le> n \<and> n \<le> b}"
    unfolding incl_range_def set_map set_upt word_le_nat_alt mem_Collect_eq .
qed

lemma sorted_incl_range: "sorted_wrt (<) (incl_range a b)"
proof -
  have "(of_nat i :: u64) < of_nat j" if "i < j" "j \<le> unat b" for i j
    using that unat_of_nat_le [of i b] unat_of_nat_le [of j b] by (simp add: word_less_nat_alt)
  moreover have "sorted_wrt (<) [unat a ..< Suc (unat b)]" by (rule sorted_wrt_upt)
  ultimately have "sorted_wrt (\<lambda>i j. (of_nat i :: u64) < of_nat j) [unat a ..< Suc (unat b)]"
    by (elim sorted_wrt_mono_rel [rotated]) auto
  then show ?thesis unfolding incl_range_def by (subst sorted_wrt_map)
qed

lemma incl_range_Cons: "a < b \<Longrightarrow> incl_range a b = a # incl_range (a + 1) b"
proof -
  assume ab: "a < b"
  then have lt: "unat a < unat b" by (simp add: word_less_nat_alt)
  then have "unat (a + 1) = Suc (unat a)"
    using unat_lt2p [of b] by (simp add: unat_word_ariths)
  then show ?thesis using lt by (simp add: incl_range_def upt_rec [of "unat a"])
qed

text \<open>\<open>Iterator::find\<close> over a strictly increasing list gives the least match.\<close>

lemma find_sorted_least:
  assumes "sorted_wrt (<) xs" "List.find P xs = Some x" "y \<in> set xs" "P y"
  shows "x \<le> (y :: 'a::linorder)"
  using assms
proof (induction xs)
  case (Cons a xs)
  then show ?case by (cases "P a") force+
qed simp

lemma unat_ucast_u8 [simp]: "unat (ucast (b :: u8) :: u64) = unat b"
proof -
  have "unat b < 2 ^ 64" using unat_lt2p [of b] by simp
  then show ?thesis by (simp add: unsigned_ucast_eq take_bit_nat_eq_self)
qed

lemma unat_ucast_u32 [simp]: "unat (ucast (b :: u32) :: u64) = unat b"
proof -
  have "unat b < 2 ^ 64" using unat_lt2p [of b] by simp
  then show ?thesis by (simp add: unsigned_ucast_eq take_bit_nat_eq_self)
qed

section \<open>Lists\<close>

lemma distinct_map_remove1: "distinct (map k xs) \<Longrightarrow> distinct (map k (remove1 x xs))"
  by (induction xs) (auto dest!: set_remove1_subset [THEN subsetD] intro: rev_image_eqI)

lemma key_not_in_remove1:
  "distinct (map k xs) \<Longrightarrow> x \<in> set xs \<Longrightarrow> k x \<notin> k ` set (remove1 x xs)"
  by (induction xs) (auto intro: rev_image_eqI)

definition count_list_if :: "('a \<Rightarrow> bool) \<Rightarrow> 'a list \<Rightarrow> nat" where
  "count_list_if P xs = length (filter P xs)"

lemma count_sort [simp]: "count_list_if P (sort xs) = count_list_if P xs"
proof -
  have "mset (filter P (sort xs)) = mset (filter P xs)" by simp
  then show ?thesis unfolding count_list_if_def by (metis mset_eq_length)
qed

lemma count_rev [simp]: "count_list_if P (rev xs) = count_list_if P xs"
  by (simp add: count_list_if_def rev_filter [symmetric])

lemma count_append [simp]: "count_list_if P (xs @ ys) = count_list_if P xs + count_list_if P ys"
  by (simp add: count_list_if_def)

lemma count_le_length: "count_list_if P xs \<le> length xs"
  by (simp add: count_list_if_def)

lemma count_all: "(\<And>x. x \<in> set xs \<Longrightarrow> P x) \<Longrightarrow> count_list_if P xs = length xs"
  by (simp add: count_list_if_def)

lemma count_none: "(\<And>x. x \<in> set xs \<Longrightarrow> \<not> P x) \<Longrightarrow> count_list_if P xs = 0"
  by (simp add: count_list_if_def)

text \<open>In a list sorted from the highest, the \<open>k\<close>-th entry is reached by at least \<open>k\<close> entries and
  exceeded by fewer.\<close>

lemma kth_highest:
  assumes "sorted_wrt (\<ge>) xs" "k < length (xs :: 'a::linorder list)"
  shows "Suc k \<le> count_list_if (\<lambda>x. xs ! k \<le> x) xs" "count_list_if (\<lambda>x. xs ! k < x) xs \<le> k"
proof -
  have split: "xs = take (Suc k) xs @ drop (Suc k) xs" "xs = take k xs @ drop k xs" by simp_all
  have "xs ! k \<le> x" if "x \<in> set (take (Suc k) xs)" for x
  proof -
    from that assms(2) have "\<exists>i < Suc k. x = xs ! i" by (auto simp: in_set_conv_nth)
    then obtain i where "i < Suc k" "x = xs ! i" by blast
    then show ?thesis using assms by (cases "i = k") (auto simp: sorted_wrt_iff_nth_less)
  qed
  then have "count_list_if (\<lambda>x. xs ! k \<le> x) (take (Suc k) xs) = Suc k"
    using assms(2) by (subst count_all) auto
  then show "Suc k \<le> count_list_if (\<lambda>x. xs ! k \<le> x) xs"
    by (metis count_append le_add1 split(1))
  have "\<not> xs ! k < x" if "x \<in> set (drop k xs)" for x
  proof -
    from that assms(2) have "\<exists>i < length xs - k. x = xs ! (k + i)" by (auto simp: in_set_conv_nth)
    then obtain i where "i < length xs - k" "x = xs ! (k + i)" by blast
    then show ?thesis using assms by (cases "i = 0") (auto simp: sorted_wrt_iff_nth_less not_less)
  qed
  then have "count_list_if (\<lambda>x. xs ! k < x) (drop k xs) = 0" by (rule count_none)
  moreover have "count_list_if (\<lambda>x. xs ! k < x) (take k xs) \<le> k"
    using count_le_length [of _ "take k xs"] assms(2) by simp
  ultimately show "count_list_if (\<lambda>x. xs ! k < x) xs \<le> k"
    by (metis add.right_neutral count_append split(2))
qed

section \<open>Byte orders\<close>

definition be_nat :: "bytes \<Rightarrow> nat" where
  "be_nat bs = foldl (\<lambda>v b. v * 256 + unat b) 0 bs"

fun be_bytes :: "nat \<Rightarrow> nat \<Rightarrow> bytes" where
  "be_bytes 0 n = []"
| "be_bytes (Suc w) n = be_bytes w (n div 256) @ [of_nat (n mod 256)]"

fun le_bytes :: "nat \<Rightarrow> nat \<Rightarrow> bytes" where
  "le_bytes 0 n = []"
| "le_bytes (Suc w) n = of_nat (n mod 256) # le_bytes w (n div 256)"

lemma length_be_bytes [simp]: "length (be_bytes w n) = w"
  by (induction w arbitrary: n) simp_all

lemma length_le_bytes [simp]: "length (le_bytes w n) = w"
  by (induction w arbitrary: n) simp_all

lemma unat_of_nat_byte: "k < 256 \<Longrightarrow> unat (of_nat k :: u8) = k"
  by (simp add: unat_of_nat)

lemma be_nat_snoc: "be_nat (bs @ [b]) = be_nat bs * 256 + unat b"
  by (simp add: be_nat_def)

lemma be_nat_be_bytes: "n < 256 ^ w \<Longrightarrow> be_nat (be_bytes w n) = n"
proof (induction w arbitrary: n)
  case 0
  then show ?case by (simp add: be_nat_def)
next
  case (Suc w)
  then have "n div 256 < 256 ^ w" by (simp add: less_mult_imp_div_less mult.commute)
  then have "be_nat (be_bytes w (n div 256)) = n div 256" by (rule Suc.IH)
  then show ?case
    by (simp add: be_nat_snoc unat_of_nat mod_div_mult_eq [symmetric] del: mod_div_mult_eq)
qed

lemma be_nat_bound: "be_nat bs < 256 ^ length bs"
proof (induction bs rule: rev_induct)
  case Nil
  then show ?case by (simp add: be_nat_def)
next
  case (snoc b bs)
  have "unat b < 256" using unat_lt2p [of b] by simp
  with snoc show ?case by (simp add: be_nat_snoc)
qed

lemma be_bytes_inject:
  "be_bytes w m = be_bytes w n \<Longrightarrow> m < 256 ^ w \<Longrightarrow> n < 256 ^ w \<Longrightarrow> m = n"
  by (metis be_nat_be_bytes)

section \<open>Text\<close>

text \<open>The bytes of a text, as \<open>as_bytes\<close> gives them.\<close>

definition str_bytes :: "str \<Rightarrow> bytes" where
  "str_bytes s = map of_char s"

lemma of_char_u8_eq: "(of_char c :: u8) = of_char d \<longleftrightarrow> c = d"
proof
  assume "(of_char c :: u8) = of_char d"
  moreover have "(of_char x :: u8) = of_nat (of_char x)" for x
    by (simp only: of_nat_of_char)
  ultimately have "(of_nat (of_char c) :: u8) = of_nat (of_char d)" by metis
  moreover have "unat (of_nat (of_char x) :: u8) = of_char x" for x :: char
    by (rule unat_of_nat_byte) simp
  ultimately have "(of_char c :: nat) = of_char d" by metis
  then show "c = d" by simp
qed simp

lemma str_bytes_eq_iff [simp]: "str_bytes s = str_bytes t \<longleftrightarrow> s = t"
proof -
  have "inj (of_char :: char \<Rightarrow> u8)" by (auto intro: injI simp: of_char_u8_eq)
  then show ?thesis by (simp add: str_bytes_def inj_map_eq_map)
qed

lemma length_str_bytes [simp]: "length (str_bytes s) = length s"
  by (simp add: str_bytes_def)

subsection \<open>The \<open>{}\<close> format of an unsigned integer\<close>

definition digit :: "nat \<Rightarrow> char" where
  "digit d = char_of (48 + d)"

fun dec :: "nat \<Rightarrow> str" where
  "dec n = (if n < 10 then [digit n] else dec (n div 10) @ [digit (n mod 10)])"

declare dec.simps [simp del]

definition undec :: "str \<Rightarrow> nat" where
  "undec s = foldl (\<lambda>v c. v * 10 + (of_char c - 48)) 0 s"

lemma of_char_digit: "d < 10 \<Longrightarrow> of_char (digit d) = (48 + d :: nat)"
  by (simp add: digit_def)

lemma undec_dec: "undec (dec n) = n"
proof (induction n rule: dec.induct)
  case (1 n)
  show ?case
  proof (cases "n < 10")
    case True
    then show ?thesis by (simp add: dec.simps [of n] undec_def of_char_digit)
  next
    case False
    with 1 have "undec (dec (n div 10)) = n div 10" by simp
    with False show ?thesis
      by (simp add: dec.simps [of n] undec_def of_char_digit)
  qed
qed

lemma dec_inject [simp]: "dec m = dec n \<longleftrightarrow> m = n"
  by (metis undec_dec)

lemma dec_digits: "c \<in> set (dec n) \<Longrightarrow> 48 \<le> (of_char c :: nat) \<and> (of_char c :: nat) \<le> 57"
proof (induction n rule: dec.induct)
  case (1 n)
  show ?case
  proof (cases "n < 10")
    case True
    with 1(2) show ?thesis by (auto simp: dec.simps [of n] of_char_digit)
  next
    case False
    have "n mod 10 < 10" by simp
    with 1 False show ?thesis
      by (subst (asm) (2) dec.simps) (auto simp: of_char_digit)
  qed
qed

lemma dec_not_mem: "(of_char c :: nat) < 48 \<or> 57 < (of_char c :: nat) \<Longrightarrow> c \<notin> set (dec n)"
  using dec_digits by force

lemma dec_nonempty [simp]: "dec n \<noteq> []"
  by (subst dec.simps) simp

text \<open>The \<open>{}\<close> format of a signed integer.\<close>

definition dec_int :: "int \<Rightarrow> str" where
  "dec_int i = (if i < 0 then CHR ''-'' # dec (nat (- i)) else dec (nat i))"

subsection \<open>Whitespace, prefixes, splitting\<close>

text \<open>
  The UTF-8 encodings of the characters with Unicode's \<open>White_Space\<close> property, which
  \<open>char::is_whitespace\<close> and \<open>trim\<close> use. In valid UTF-8 such a sequence stands only
  where the character stands.
\<close>

definition whitespace :: "str list" where
  "whitespace =
    [[CHR 0x09], [CHR 0x0A], [CHR 0x0B], [CHR 0x0C], [CHR 0x0D], [CHR 0x20],
     [CHR 0xC2, CHR 0x85], [CHR 0xC2, CHR 0xA0], [CHR 0xE1, CHR 0x9A, CHR 0x80],
     [CHR 0xE2, CHR 0x80, CHR 0x80], [CHR 0xE2, CHR 0x80, CHR 0x81],
     [CHR 0xE2, CHR 0x80, CHR 0x82], [CHR 0xE2, CHR 0x80, CHR 0x83],
     [CHR 0xE2, CHR 0x80, CHR 0x84], [CHR 0xE2, CHR 0x80, CHR 0x85],
     [CHR 0xE2, CHR 0x80, CHR 0x86], [CHR 0xE2, CHR 0x80, CHR 0x87],
     [CHR 0xE2, CHR 0x80, CHR 0x88], [CHR 0xE2, CHR 0x80, CHR 0x89],
     [CHR 0xE2, CHR 0x80, CHR 0x8A], [CHR 0xE2, CHR 0x80, CHR 0xA8],
     [CHR 0xE2, CHR 0x80, CHR 0xA9], [CHR 0xE2, CHR 0x80, CHR 0xAF],
     [CHR 0xE2, CHR 0x81, CHR 0x9F], [CHR 0xE3, CHR 0x80, CHR 0x80]]"

definition ws_first :: "str \<Rightarrow> nat" where
  "ws_first s = (case List.find (\<lambda>w. prefix w s) whitespace of None \<Rightarrow> 0 | Some w \<Rightarrow> length w)"

definition ws_last :: "str \<Rightarrow> nat" where
  "ws_last s = (case List.find (\<lambda>w. suffix w s) whitespace of None \<Rightarrow> 0 | Some w \<Rightarrow> length w)"

lemma ws_first_le: "ws_first s \<le> length s"
proof (cases "List.find (\<lambda>w. prefix w s) whitespace")
  case (Some w)
  then have "prefix w s" by (auto simp: find_Some_iff)
  with Some show ?thesis by (simp add: ws_first_def prefix_length_le)
qed (simp add: ws_first_def)

lemma ws_last_le: "ws_last s \<le> length s"
proof (cases "List.find (\<lambda>w. suffix w s) whitespace")
  case (Some w)
  then have "suffix w s" by (auto simp: find_Some_iff)
  with Some show ?thesis by (simp add: ws_last_def suffix_length_le)
qed (simp add: ws_last_def)

function trim_start :: "str \<Rightarrow> str" where
  "trim_start s = (if ws_first s = 0 then s else trim_start (drop (ws_first s) s))"
  by pat_completeness auto
termination
proof (relation "measure length")
  fix s :: str
  assume "ws_first s \<noteq> 0"
  with ws_first_le [of s] show "(drop (ws_first s) s, s) \<in> measure length"
    by simp
qed simp

function trim_end :: "str \<Rightarrow> str" where
  "trim_end s = (if ws_last s = 0 then s else trim_end (take (length s - ws_last s) s))"
  by pat_completeness auto
termination
proof (relation "measure length")
  fix s :: str
  assume "ws_last s \<noteq> 0"
  with ws_last_le [of s] show "(take (length s - ws_last s) s, s) \<in> measure length"
    by simp
qed simp

declare trim_start.simps [simp del] trim_end.simps [simp del]

definition trim :: "str \<Rightarrow> str" where
  "trim s = trim_end (trim_start s)"

definition strip_prefix :: "str \<Rightarrow> str \<Rightarrow> str option" where
  "strip_prefix p s = (if prefix p s then Some (drop (length p) s) else None)"

text \<open>\<open>split_once(char::is_whitespace)\<close>: the parts around the first whitespace character.\<close>

fun split_once_ws :: "str \<Rightarrow> (str \<times> str) option" where
  "split_once_ws [] = None"
| "split_once_ws (c # s) =
     (if ws_first (c # s) \<noteq> 0 then Some ([], drop (ws_first (c # s)) (c # s))
      else map_option (\<lambda>(l, r). (c # l, r)) (split_once_ws s))"

text \<open>\<open>split(c)\<close> for an ASCII character, and \<open>join\<close>.\<close>

fun split_on :: "char \<Rightarrow> str \<Rightarrow> str list" where
  "split_on c [] = [[]]"
| "split_on c (x # s) =
     (if x = c then [] # split_on c s
      else (case split_on c s of [] \<Rightarrow> [[x]] | w # ws \<Rightarrow> (x # w) # ws))"

fun join_with :: "str \<Rightarrow> str list \<Rightarrow> str" where
  "join_with sep [] = []"
| "join_with sep [x] = x"
| "join_with sep (x # y # xs) = x @ sep @ join_with sep (y # xs)"

definition trim_end_matches :: "char \<Rightarrow> str \<Rightarrow> str" where
  "trim_end_matches c s = rev (dropWhile (\<lambda>x. x = c) (rev s))"

definition trim_start_matches :: "char \<Rightarrow> str \<Rightarrow> str" where
  "trim_start_matches c s = dropWhile (\<lambda>x. x = c) s"

definition strip_suffix :: "str \<Rightarrow> str \<Rightarrow> str option" where
  "strip_suffix p s = (if suffix p s then Some (take (length s - length p) s) else None)"

text \<open>\<open>contains\<close> and \<open>trim_start_matches("0x")\<close>, which strips every leading \<open>0x\<close>.\<close>

fun contains :: "str \<Rightarrow> str \<Rightarrow> bool" where
  "contains [] p = (p = [])"
| "contains (c # s) p = (prefix p (c # s) \<or> contains s p)"

function trim_start_0x :: "str \<Rightarrow> str" where
  "trim_start_0x s = (if prefix ''0x'' s then trim_start_0x (drop 2 s) else s)"
  by pat_completeness auto
termination
  by (relation "measure length") (auto dest: prefix_length_le)

declare trim_start_0x.simps [simp del]

lemma contains_iff: "contains s p \<longleftrightarrow> (\<exists>a b. s = a @ p @ b)"
proof (induction s)
  case Cons: (Cons c s)
  show ?case
  proof
    assume "contains (c # s) p"
    then show "\<exists>a b. c # s = a @ p @ b"
    proof (cases "prefix p (c # s)")
      case True
      then show ?thesis by (metis append_Nil prefix_def)
    next
      case False
      with \<open>contains (c # s) p\<close> Cons obtain a b where "s = a @ p @ b" by auto
      then have "c # s = (c # a) @ p @ b" by simp
      then show ?thesis by blast
    qed
  next
    assume "\<exists>a b. c # s = a @ p @ b"
    then obtain a b where eq: "c # s = a @ p @ b" by blast
    show "contains (c # s) p"
    proof (cases a)
      case Nil
      then have "prefix p (c # s)" unfolding prefix_def using eq by auto
      then show ?thesis by simp
    next
      case (Cons d a')
      then have "s = a' @ p @ b" using eq by simp
      then have "contains s p" using Cons.IH by blast
      then show ?thesis by simp
    qed
  qed
qed auto

lemma strip_prefix_Some_iff: "strip_prefix p s = Some r \<longleftrightarrow> s = p @ r"
  by (auto simp: strip_prefix_def prefix_def)

text \<open>A character whose byte occurs in no whitespace sequence: trimming and splitting at
  whitespace leave it where it is.\<close>

definition plain :: "char \<Rightarrow> bool" where
  "plain c \<longleftrightarrow> (\<forall>w \<in> set whitespace. c \<notin> set w)"

lemma ws_first_plain: "plain c \<Longrightarrow> ws_first (c # s) = 0"
proof (cases "List.find (\<lambda>w. prefix w (c # s)) whitespace")
  case (Some w)
  then have w: "w \<in> set whitespace" "prefix w (c # s)" by (auto simp: find_Some_iff)
  moreover have "w \<noteq> []" using w(1) by (auto simp: whitespace_def)
  ultimately have "c \<in> set w" by (auto simp: prefix_Cons)
  moreover assume "plain c"
  ultimately show ?thesis using w(1) by (auto simp: plain_def)
qed (simp add: ws_first_def)

lemma trim_start_plain: "plain c \<Longrightarrow> trim_start (c # s) = c # s"
  by (simp add: trim_start.simps ws_first_plain)

lemma ws_last_cases:
  obtains "ws_last s = 0"
  | w where "w \<in> set whitespace" "ws_last s = length w" "suffix w s"
proof (cases "List.find (\<lambda>w. suffix w s) whitespace")
  case None
  then show ?thesis using that(1) by (simp add: ws_last_def)
next
  case (Some w)
  then have "w \<in> set whitespace" "suffix w s" by (auto simp: find_Some_iff)
  with Some show ?thesis using that(2) [of w] by (simp add: ws_last_def)
qed

lemma trim_end_plain: "plain c \<Longrightarrow> trim_end (s @ [c]) = s @ [c]"
proof (cases rule: ws_last_cases [of "s @ [c]"])
  case (2 w)
  moreover have "w \<noteq> []" using 2(1) by (auto simp: whitespace_def)
  ultimately have "c \<in> set w" by (cases w rule: rev_cases) (auto simp: suffix_def)
  moreover assume "plain c"
  ultimately show ?thesis using 2(1) by (auto simp: plain_def)
qed (simp add: trim_end.simps)

lemma trim_end_keeps_plain: "plain c \<Longrightarrow> \<exists>r. trim_end (p @ c # t) = p @ c # r"
proof (induction "p @ c # t" arbitrary: t rule: trim_end.induct)
  case (1 t)
  show ?case
  proof (cases rule: ws_last_cases [of "p @ c # t"])
    case 1
    then show ?thesis by (simp add: trim_end.simps)
  next
    case (2 w)
    have "c \<notin> set w" using 2(1) 1(2) by (auto simp: plain_def)
    from 2(3) obtain q where q: "p @ c # t = q @ w" by (auto simp: suffix_def)
    have len: "Suc (length p + length t) = length q + length w"
      using arg_cong [OF q, of length] by simp
    have "length w \<le> length t"
    proof (rule ccontr)
      assume "\<not> length w \<le> length t"
      then have "length q \<le> length p" using len by linarith
      then have "w = drop (length q) p @ c # t" using q
        by (metis append_eq_append_conv_if append_eq_conv_conj drop_append diff_is_0_eq drop0)
      then have "c \<in> set w" by simp
      with \<open>c \<notin> set w\<close> show False by simp
    qed
    moreover have "length p + Suc (length t) - length w = length q" using len by simp
    then have "q = take (length p + Suc (length t) - length w) (p @ c # t)" by (simp add: q)
    ultimately have "q = p @ c # take (length t - length w) t"
      by (simp add: Suc_diff_le)
    moreover have "take (length (p @ c # t) - ws_last (p @ c # t)) (p @ c # t) = q"
      using 2(2) by (simp add: q)
    ultimately show ?thesis
      using 1(1) [of "take (length t - length w) t"] 1(2) 2(2)
      by (cases "length w = 0") (auto simp: trim_end.simps [of "p @ c # t"])
  qed
qed

lemma trim_start_keeps_plain: "plain c \<Longrightarrow> \<exists>u. trim_start (p @ c # t) = u @ c # t"
proof (induction "p @ c # t" arbitrary: p rule: trim_start.induct)
  case (1 p)
  show ?case
  proof (cases "List.find (\<lambda>w. prefix w (p @ c # t)) whitespace")
    case None
    then show ?thesis by (simp add: trim_start.simps [of "p @ c # t"] ws_first_def)
  next
    case (Some w)
    then have w: "w \<in> set whitespace" "prefix w (p @ c # t)" by (auto simp: find_Some_iff)
    then have "c \<notin> set w" using 1(2) by (auto simp: plain_def)
    then have "prefix w p" using w(2)
      by (auto simp: prefix_append prefix_Cons)
    then obtain q where q: "p = w @ q" by (auto simp: prefix_def)
    have ws: "ws_first (p @ c # t) = length w" using Some by (simp add: ws_first_def)
    then have "drop (ws_first (p @ c # t)) (p @ c # t) = q @ c # t" by (simp add: q)
    moreover have "trim_start (p @ c # t) = p @ c # t" if "ws_first (p @ c # t) = 0"
      using that by (simp add: trim_start.simps [of "p @ c # t"])
    ultimately show ?thesis
      using 1(1) [of q] 1(2) trim_start.simps [of "p @ c # t"]
      by (cases "ws_first (p @ c # t) = 0") auto
  qed
qed

lemma split_once_ws_plain:
  assumes "\<forall>c \<in> set s. plain c"
  shows "split_once_ws (s @ CHR 0x20 # t) = Some (s, t)"
  using assms
proof (induction s)
  case Nil
  have "ws_first (CHR 0x20 # t) = 1"
    by (simp add: ws_first_def whitespace_def)
  then show ?case by simp
qed (simp add: ws_first_plain)

text \<open>A number's text ends where its digits do.\<close>

lemma dec_prefix_inject:
  assumes "dec m @ c # s = dec n @ c # t" "(of_char c :: nat) < 48 \<or> 57 < (of_char c :: nat)"
  shows "m = n \<and> s = t"
proof -
  have "takeWhile (\<lambda>x. x \<noteq> c) (dec k @ c # r) = dec k" for k r
    using dec_not_mem [OF assms(2), of k] by (induction "dec k") (auto simp: takeWhile_append)
  then have "dec m = dec n" using assms(1) by metis
  with assms(1) show ?thesis by simp
qed

lemma split_on_nonempty [simp]: "split_on c s \<noteq> []"
  by (induction s) (auto split: list.splits)

lemma length_split_on: "length (split_on c s) = Suc (count_list s c)"
  by (induction s) (auto split: list.splits)

lemma split_on_join:
  "xs \<noteq> [] \<Longrightarrow> \<forall>x \<in> set xs. c \<notin> set x \<Longrightarrow> split_on c (join_with [c] xs) = xs"
proof (induction "[c]" xs rule: join_with.induct)
  case (2 x)
  then have "c \<notin> set x" by simp
  then have "split_on c x = [x]" by (induction x) auto
  then show ?case by simp
next
  case (3 x y xs)
  then have IH: "split_on c (join_with [c] (y # xs)) = y # xs" and "c \<notin> set x" by simp_all
  have "split_on c (x @ [c] @ join_with [c] (y # xs)) = x # y # xs"
    using \<open>c \<notin> set x\<close> by (induction x) (auto simp: IH)
  then show ?case by simp
qed simp

lemma join_with_inject:
  assumes "join_with [c] xs = join_with [c] ys" "xs \<noteq> []" "ys \<noteq> []"
    "\<forall>x \<in> set xs. c \<notin> set x" "\<forall>y \<in> set ys. c \<notin> set y"
  shows "xs = ys"
  using assms split_on_join by metis

end
