(* ===== verification/Errors.thy ===== *)
theory Errors
  imports Prelude
begin

text \<open>
  The error type of the SDK (\<open>src/src/errors.rs\<close>).

  A message is kept as the source's format string (its first clause where it is long) with the
  values it formats, so two errors are equal exactly when they are the same variant raised at
  the same place with the same values. What a third-party error displays is a text.
  \<open>Panicked\<close> is no variant of the source: it stands for a call that panics.
\<close>

text \<open>A signed transaction as it was sent: the bytes, and the nonce their signature covers.\<close>

record signed_submission =
  sub_did :: str
  sub_nonce :: u64
  sub_tx_bytes :: bytes
  sub_tx_hash :: str

datatype willow_error =
    Network message
  | Http nat message
  | Authentication message
  | NotAuthenticated
  | Validation message
  | NotFound message
  | PermissionDenied message
  | Serialization str
  | Crypto message
  | InvalidSignature
  | ProofVerificationFailed message
  | LightClientError message
  | HistoricalDataUnavailable message bool
  | Config message
  | Io str
  | Unsupported message
  | NonceWindowFull message
  | ProofHeightOutOfRange message
  | SubmissionUnknown signed_submission message
  | ResponseTooLarge nat
  | ResponseTooComplex nat
  | NotAdmitted message
  | Custom message
  | Panicked str
and message = Fmt str "arg list"
and arg =
    Str str
  | Num nat
  | Hex bytes
  | Shown willow_error

type_synonym 'a res = "(willow_error, 'a) result"

text \<open>What \<open>reqwest\<close> reports of a failed request: the tests the SDK makes of it, and its text.\<close>

record reqwest_error =
  rq_is_timeout :: bool
  rq_is_connect :: bool
  rq_is_builder :: bool
  rq_status :: "nat option"
  rq_text :: str

definition from_reqwest :: "reqwest_error \<Rightarrow> willow_error" where
  "from_reqwest e =
     (if rq_is_timeout e then Network (Fmt ''Request timed out'' [])
      else if rq_is_connect e then Network (Fmt ''Failed to connect: {}'' [Str (rq_text e)])
      else (case rq_status e of
              Some status \<Rightarrow> Http status (Fmt ''{}'' [Str (rq_text e)])
            | None \<Rightarrow> Network (Fmt ''{}'' [Str (rq_text e)])))"

text \<open>The conversions the \<open>?\<close> operator applies to the errors of \<open>hex\<close>, \<open>url\<close>, and
  \<open>secp256k1\<close>, each given by its text.\<close>

definition from_hex_error :: "str \<Rightarrow> willow_error" where
  "from_hex_error e = Validation (Fmt ''Invalid hex: {}'' [Str e])"

definition from_ed25519_error :: willow_error where
  "from_ed25519_error = InvalidSignature"

definition from_url_error :: "str \<Rightarrow> willow_error" where
  "from_url_error e = Config (Fmt ''Invalid URL: {}'' [Str e])"

definition from_secp256k1_error :: "str \<Rightarrow> willow_error" where
  "from_secp256k1_error e = Crypto (Fmt ''Secp256k1 error: {}'' [Str e])"

end
