(* ===== verification/Nonces.thy ===== *)
theory Nonces
  imports Errors
begin

text \<open>
  The nonce tracker (\<open>src/src/nonces.rs\<close>): which nonces of an identity this client has
  handed out, which the chain reports used, and how a submission's outcome settles one.

  The tracker is the state \<open>tracker\<close>, one \<open>account\<close> per DID; each operation takes the
  instant its clock reads. The mutex makes every operation atomic, so an execution of
  concurrent writes is an interleaving of these operations.
\<close>

section \<open>An account's nonce state\<close>

definition NONCE_WINDOW :: u64 where
  "NONCE_WINDOW = 24"

definition NONCE_HOLD :: duration where
  "NONCE_HOLD = 120 * 10 ^ 9"

record account_nonce_state =
  ans_base :: u64
  ans_used :: u32

definition default_nonce_state :: account_nonce_state where
  "default_nonce_state = \<lparr>ans_base = 0, ans_used = 0\<rparr>"

text \<open>The bits of the bytes after the base: byte \<open>i\<close> is shifted left by \<open>8 * i\<close>.\<close>

definition used_bits :: "bytes \<Rightarrow> u32" where
  "used_bits bs = foldl (\<lambda>bits (i, b). bits OR push_bit (8 * i) (ucast b)) 0 (enumerate 0 bs)"

definition from_bytes :: "bytes \<Rightarrow> account_nonce_state res" where
  "from_bytes value =
     (if length value = 0 then Inr default_nonce_state
      else if length value = 8 \<or> length value = 11 then
        Inr \<lparr>ans_base = of_nat (be_nat (take 8 value)), ans_used = used_bits (drop 8 value)\<rparr>
      else Inl (Validation (Fmt ''an account nonce state of {n} bytes'' [Num (length value)])))"

definition bit_set :: "u32 \<Rightarrow> nat \<Rightarrow> bool" where
  "bit_set used i \<longleftrightarrow> used AND push_bit i 1 \<noteq> 0"

definition is_used :: "account_nonce_state \<Rightarrow> u64 \<Rightarrow> bool" where
  "is_used s nonce =
     (if nonce \<le> ans_base s then True
      else let offset = nonce - ans_base s - 1
           in offset < NONCE_WINDOW \<and> bit_set (ans_used s) (unat offset))"

definition used_nonces :: "account_nonce_state \<Rightarrow> u64 list" where
  "used_nonces s =
     map (\<lambda>i. saturating_add (ans_base s) (of_nat (1 + i)))
       (filter (bit_set (ans_used s)) [0 ..< unat NONCE_WINDOW])"

section \<open>Outcomes of a submission\<close>

datatype nonce_outcome = Accepted | Free | Held | Used | Unknown

definition refusal_outcome :: "str \<Rightarrow> u64 \<Rightarrow> nonce_outcome" where
  "refusal_outcome log0 nonce =
     (let log = trim log0; n = dec (unat nonce) in
      if (case strip_prefix (''Nonce '' @ n @ '' of '') log of
            Some rest \<Rightarrow>
              (case map_option snd (split_once_ws rest) of
                 Some r \<Rightarrow> prefix ''is held by a pending transaction'' r
               | None \<Rightarrow> False)
          | None \<Rightarrow> False)
      then Held
      else if prefix (''Invalid nonce: '' @ n @ '' already used'') log
            \<or> prefix (''Invalid nonce: '' @ n @ '' <= base nonce'') log
            \<or> suffix (''(nonce '' @ n @ '' spent)'') log
      then Used
      else Free)"

section \<open>The tracker\<close>

record account =
  acc_base :: u64
  acc_used :: "u64 set"
  acc_handed :: "u64 \<rightharpoonup> instant"

type_synonym tracker = "str \<rightharpoonup> account"

definition new_account :: account where
  "new_account = \<lparr>acc_base = 0, acc_used = {}, acc_handed = Map.empty\<rparr>"

definition new_tracker :: tracker where
  "new_tracker = Map.empty"

text \<open>\<open>accounts.entry(did).or_default()\<close>.\<close>

definition account_of :: "tracker \<Rightarrow> str \<Rightarrow> account" where
  "account_of T did = (case T did of None \<Rightarrow> new_account | Some a \<Rightarrow> a)"

definition merge_state :: "account \<Rightarrow> account_nonce_state option \<Rightarrow> account" where
  "merge_state a st =
     (case st of
        None \<Rightarrow> a
      | Some s \<Rightarrow> a\<lparr>acc_used := acc_used a \<union> set (used_nonces s),
                   acc_base := max (acc_base a) (ans_base s)\<rparr>)"

definition drop_passed :: "account \<Rightarrow> instant \<Rightarrow> account" where
  "drop_passed a now =
     (let used = {n \<in> acc_used a. n > acc_base a} in
      a\<lparr>acc_used := used,
        acc_handed := (\<lambda>n. case acc_handed a n of
            None \<Rightarrow> None
          | Some at \<Rightarrow>
              if n > acc_base a \<and> n \<notin> used \<and> now - at < NONCE_HOLD then Some at else None)\<rparr>)"

definition refresh :: "account \<Rightarrow> account_nonce_state option \<Rightarrow> instant \<Rightarrow> account" where
  "refresh a st now = drop_passed (merge_state a st) now"

definition free_in :: "account \<Rightarrow> u64 \<Rightarrow> bool" where
  "free_in a n \<longleftrightarrow> n \<notin> acc_used a \<and> acc_handed a n = None"

definition take_nonce ::
  "tracker \<Rightarrow> instant \<Rightarrow> str \<Rightarrow> account_nonce_state \<Rightarrow> tracker \<times> u64 res" where
  "take_nonce T now did st =
     (let a = refresh (account_of T did) (Some st) now;
          base = acc_base a;
          last = saturating_add base NONCE_WINDOW
      in case List.find (free_in a) (incl_range (saturating_add base 1) last) of
           Some nonce \<Rightarrow> (T(did \<mapsto> a\<lparr>acc_handed := (acc_handed a)(nonce \<mapsto> now)\<rparr>), Inr nonce)
         | None \<Rightarrow>
             (T(did \<mapsto> a),
              Inl (NonceWindowFull (Fmt ''every nonce the node accepts for {did}''
                [Str did, Num (unat (saturating_add base 1)), Num (unat last)]))))"

definition hold :: "tracker \<Rightarrow> instant \<Rightarrow> str \<Rightarrow> u64 \<Rightarrow> tracker" where
  "hold T now did nonce =
     (let a = refresh (account_of T did) None now in
      T(did \<mapsto> (if nonce > acc_base a \<and> nonce \<notin> acc_used a
                then a\<lparr>acc_handed := (acc_handed a)(nonce \<mapsto> now)\<rparr> else a)))"

definition release :: "tracker \<Rightarrow> str \<Rightarrow> u64 \<Rightarrow> tracker" where
  "release T did nonce =
     (case T did of
        None \<Rightarrow> T
      | Some a \<Rightarrow> T(did \<mapsto> a\<lparr>acc_handed := (acc_handed a)(nonce := None)\<rparr>))"

definition mark_used :: "tracker \<Rightarrow> str \<Rightarrow> u64 \<Rightarrow> tracker" where
  "mark_used T did nonce =
     (let a = account_of T did;
          a1 = a\<lparr>acc_handed := (acc_handed a)(nonce := None)\<rparr>
      in T(did \<mapsto> (if nonce > acc_base a1 then a1\<lparr>acc_used := insert nonce (acc_used a1)\<rparr>
                  else a1)))"

fun settle :: "tracker \<Rightarrow> instant \<Rightarrow> str \<Rightarrow> u64 \<Rightarrow> nonce_outcome \<Rightarrow> tracker" where
  "settle T now did nonce Accepted = hold T now did nonce"
| "settle T now did nonce Held = hold T now did nonce"
| "settle T now did nonce Unknown = hold T now did nonce"
| "settle T now did nonce Free = release T did nonce"
| "settle T now did nonce Used = mark_used T did nonce"

definition is_held :: "tracker \<Rightarrow> instant \<Rightarrow> str \<Rightarrow> u64 \<Rightarrow> tracker \<times> bool" where
  "is_held T now did nonce =
     (case T did of
        None \<Rightarrow> (T, False)
      | Some a0 \<Rightarrow>
          (let a = refresh a0 None now in (T(did \<mapsto> a), acc_handed a nonce \<noteq> None)))"

section \<open>The reported state\<close>

lemma bit_set_iff: "i < 32 \<Longrightarrow> bit_set used i \<longleftrightarrow> bit used i"
proof -
  assume i: "i < 32"
  have "used AND push_bit i 1 \<noteq> 0 \<longleftrightarrow> (\<exists>k. bit (used AND push_bit i 1) k)"
    by (metis bit_eq_iff bit_0_eq bot_apply bot_bool_def)
  also have "\<dots> \<longleftrightarrow> bit used i" using i by (auto simp: bit_simps)
  finally show ?thesis by (simp add: bit_set_def)
qed

lemma unat_NONCE_WINDOW [simp]: "unat NONCE_WINDOW = 24"
  by (simp add: NONCE_WINDOW_def)

text \<open>
  \<open>is_used\<close> and \<open>used_nonces\<close> agree: a nonce is used exactly when it is at or below the
  base or among the listed ones.
\<close>

lemma used_nonces_iff:
  assumes "unat (ans_base s) + 24 < 2 ^ 64" "ans_base s < n"
  shows "n \<in> set (used_nonces s) \<longleftrightarrow>
         unat n - unat (ans_base s) - 1 < 24 \<and> bit_set (ans_used s) (unat n - unat (ans_base s) - 1)"
proof -
  have sat: "saturating_add (ans_base s) (of_nat (1 + i)) = n \<longleftrightarrow>
      i = unat n - unat (ans_base s) - 1" if "i < 24" for i
  proof -
    have "unat (of_nat (1 + i) :: u64) = 1 + i"
      using that by (simp only: unat_of_nat) (simp add: mod_less)
    then have "unat (saturating_add (ans_base s) (of_nat (1 + i))) = unat (ans_base s) + (1 + i)"
      using that assms(1) by (simp add: unat_saturating_add)
    then show ?thesis using assms(2) by (auto simp: word_unat_eq_iff word_less_nat_alt)
  qed
  have "n \<in> set (used_nonces s) \<longleftrightarrow>
      (\<exists>i < 24. bit_set (ans_used s) i \<and> saturating_add (ans_base s) (of_nat (1 + i)) = n)"
    by (auto simp: used_nonces_def image_iff)
  then show ?thesis using sat by metis
qed

lemma is_used_iff_listed:
  assumes "unat (ans_base s) + 24 < 2 ^ 64"
  shows "is_used s n \<longleftrightarrow> n \<le> ans_base s \<or> n \<in> set (used_nonces s)"
proof (cases "n \<le> ans_base s")
  case False
  then have lt: "ans_base s < n" by simp
  then have "unat (n - ans_base s - 1) = unat n - unat (ans_base s) - 1"
    by (simp add: unat_sub word_le_nat_alt word_less_nat_alt unat_gt_0 unat_sub_if_size
        word_size)
  with lt show ?thesis
    using False
    by (simp add: is_used_def Let_def used_nonces_iff [OF assms lt] word_less_nat_alt del: not_le)
qed (simp add: is_used_def)

section \<open>The invariant of a tracker's accounts\<close>

text \<open>What a nonce is busy with: used or passed on the chain, or handed out within the hold.\<close>

definition handed_live :: "account \<Rightarrow> instant \<Rightarrow> u64 \<Rightarrow> bool" where
  "handed_live a t n = (case acc_handed a n of None \<Rightarrow> False | Some at \<Rightarrow> t - at < NONCE_HOLD)"

definition busy :: "tracker \<Rightarrow> instant \<Rightarrow> str \<Rightarrow> u64 \<Rightarrow> bool" where
  "busy T t did n \<longleftrightarrow>
     (let a = account_of T did in n \<le> acc_base a \<or> n \<in> acc_used a \<or> handed_live a t n)"

lemma handed_live_upd [simp]:
  "handed_live (a\<lparr>acc_handed := h(n \<mapsto> at)\<rparr>) t m =
     (if m = n then t - at < NONCE_HOLD else handed_live (a\<lparr>acc_handed := h\<rparr>) t m)"
  "handed_live (a\<lparr>acc_handed := h(n := None)\<rparr>) t m =
     (m \<noteq> n \<and> handed_live (a\<lparr>acc_handed := h\<rparr>) t m)"
  by (simp_all add: handed_live_def)

lemma handed_live_cong:
  "handed_live (a\<lparr>acc_used := u\<rparr>) t m = handed_live a t m"
  "handed_live (a\<lparr>acc_handed := acc_handed a\<rparr>) t m = handed_live a t m"
  by (simp_all add: handed_live_def)

lemma account_of_upd [simp]:
  "account_of (T(did \<mapsto> a)) d = (if d = did then a else account_of T d)"
  by (simp add: account_of_def)

lemma account_of_new [simp]: "account_of new_tracker d = new_account"
  by (simp add: account_of_def new_tracker_def)

lemma acc_base_drop_passed [simp]: "acc_base (drop_passed a now) = acc_base a"
  by (simp add: drop_passed_def Let_def)

lemma acc_used_drop_passed [simp]: "acc_used (drop_passed a now) = {n \<in> acc_used a. n > acc_base a}"
  by (simp add: drop_passed_def Let_def)

lemma acc_handed_drop_passed [simp]: "acc_handed (drop_passed a now) n = Some at \<longleftrightarrow>
    acc_handed a n = Some at \<and> acc_base a < n \<and> n \<notin> acc_used a \<and> now - at < NONCE_HOLD"
  by (auto simp: drop_passed_def Let_def split: option.splits)

lemma acc_handed_merge [simp]: "acc_handed (merge_state a st) = acc_handed a"
  by (simp add: merge_state_def split: option.splits)

lemma acc_base_merge: "acc_base a \<le> acc_base (merge_state a st)"
  by (simp add: merge_state_def split: option.splits)

lemma acc_used_merge: "acc_used a \<subseteq> acc_used (merge_state a st)"
  by (auto simp: merge_state_def split: option.splits)

lemma merge_state_None [simp]: "merge_state a None = a"
  by (simp add: merge_state_def)

lemma handed_live_iff: "handed_live a t n \<longleftrightarrow> (\<exists>at. acc_handed a n = Some at \<and> t - at < NONCE_HOLD)"
  by (auto simp: handed_live_def split: option.splits)

lemmas refresh_simps = refresh_def handed_live_iff

text \<open>Refreshing forgets nothing that is still busy later, and makes nothing busy that the
  account and the reported state do not show.\<close>

lemma refresh_keeps_busy:
  assumes "now \<le> t"
    and "n \<le> acc_base a \<or> n \<in> acc_used a \<or> handed_live a t n"
  shows "n \<le> acc_base (refresh a st now) \<or> n \<in> acc_used (refresh a st now)
       \<or> handed_live (refresh a st now) t n"
proof -
  have "now - at < NONCE_HOLD" if "t - at < NONCE_HOLD" for at
    using that assms(1) by linarith
  then show ?thesis
    using assms(2) acc_base_merge [of a st] acc_used_merge [of a st]
    by (auto simp: refresh_simps not_less)
qed

lemma refresh_none_busy:
  assumes "n \<le> acc_base (refresh a None now) \<or> n \<in> acc_used (refresh a None now)
       \<or> handed_live (refresh a None now) t n"
  shows "n \<le> acc_base a \<or> n \<in> acc_used a \<or> handed_live a t n"
  using assms by (auto simp: refresh_simps)

section \<open>What the operations guarantee\<close>

lemma take_nonce_cases:
  assumes "take_nonce T now did st = (T', r)"
  obtains (taken) a n where "a = refresh (account_of T did) (Some st) now"
      "List.find (free_in a)
        (incl_range (saturating_add (acc_base a) 1) (saturating_add (acc_base a) NONCE_WINDOW)) = Some n"
      "T' = T(did \<mapsto> a\<lparr>acc_handed := (acc_handed a)(n \<mapsto> now)\<rparr>)" "r = Inr n"
    | (full) a e where "a = refresh (account_of T did) (Some st) now"
      "List.find (free_in a)
        (incl_range (saturating_add (acc_base a) 1) (saturating_add (acc_base a) NONCE_WINDOW)) = None"
      "T' = T(did \<mapsto> a)" "r = Inl (NonceWindowFull e)"
  using assms unfolding take_nonce_def Let_def
  by (auto split: option.splits)

lemma window_iff:
  assumes "b < (- 1 :: u64)"
  shows "n \<in> set (incl_range (saturating_add b 1) (saturating_add b NONCE_WINDOW)) \<longleftrightarrow>
         b < n \<and> unat n \<le> unat b + 24"
proof -
  have "unat b + 1 < 2 ^ 64" using assms by (simp add: word_less_nat_alt unat_minus_one_word)
  then have "unat (saturating_add b 1) = unat b + 1" by (simp add: unat_saturating_add)
  moreover have "unat n \<le> 2 ^ 64 - 1" using unat_lt2p [of n] by simp
  ultimately show ?thesis
    by (auto simp: set_incl_range word_le_nat_alt word_less_nat_alt unat_saturating_add)
qed

text \<open>A nonce \<open>take_nonce\<close> hands out is free of every use the client or the chain knows.\<close>

lemma take_nonce_not_busy:
  assumes "take_nonce T now did st = (T', Inr n)" "acc_base (account_of T' did) < - 1"
  shows "\<not> busy T now did n"
  using assms(1)
proof (cases rule: take_nonce_cases)
  case (taken a m)
  with assms(2) have "acc_base a < - 1" by simp
  with taken have "acc_base a < n" "free_in a n"
    using window_iff [of "acc_base a" n] by (auto simp: find_Some_iff dest: nth_mem)
  then have "\<not> (n \<le> acc_base a \<or> n \<in> acc_used a \<or> handed_live a now n)"
    by (auto simp: free_in_def handed_live_def)
  then show ?thesis
    using refresh_keeps_busy [of now now n "account_of T did" "Some st"] taken(1)
    by (auto simp: busy_def Let_def)
qed simp

lemma take_nonce_busy_after:
  assumes "take_nonce T now did st = (T', Inr n)" "t - now < NONCE_HOLD"
  shows "busy T' t did n"
  using assms by (auto elim!: take_nonce_cases simp: busy_def Let_def)

lemma take_nonce_keeps_busy:
  assumes "take_nonce T now did st = (T', r)" "now \<le> t" "busy T t d m"
  shows "busy T' t d m"
proof -
  let ?a = "refresh (account_of T did) (Some st) now"
  have same: "busy (T(did \<mapsto> ?a)) t d m"
    using refresh_keeps_busy [OF assms(2), of m "account_of T did" "Some st"] assms(3)
    by (auto simp: busy_def Let_def)
  from assms(1) show ?thesis
  proof (cases rule: take_nonce_cases)
    case (taken a n)
    have "t - now \<le> t - at" if "acc_handed a n = Some at" for at
    proof -
      have "acc_handed a n = None" using taken(2) by (auto simp: find_Some_iff free_in_def)
      with that show ?thesis by simp
    qed
    with taken same show ?thesis
      by (auto simp: busy_def Let_def handed_live_def find_Some_iff free_in_def)
  next
    case (full a e)
    with same show ?thesis by simp
  qed
qed

lemma hold_busy: "t - now < NONCE_HOLD \<Longrightarrow> busy (hold T now did n) t did n"
  by (auto simp: busy_def hold_def Let_def)

lemma hold_keeps_busy:
  assumes "now \<le> t" "busy T t d m" "(d, m) = (did, n) \<Longrightarrow> t - now < NONCE_HOLD"
  shows "busy (hold T now did n) t d m"
proof (cases "(d, m) = (did, n)")
  case True
  with assms(3) hold_busy show ?thesis by auto
next
  case False
  then show ?thesis
    using refresh_keeps_busy [OF assms(1), of m "account_of T did" None] assms(2)
    by (auto simp: hold_def busy_def Let_def handed_live_iff split: if_splits)
qed

lemma release_keeps_busy:
  assumes "busy T t d m" "(d, m) \<noteq> (did, n)"
  shows "busy (release T did n) t d m"
  using assms
  by (auto simp: release_def busy_def Let_def account_of_def handed_live_iff split: option.splits)

lemma mark_used_busy: "busy (mark_used T did n) t did n"
  by (auto simp: mark_used_def busy_def Let_def)

lemma mark_used_keeps_busy:
  assumes "busy T t d m"
  shows "busy (mark_used T did n) t d m"
  using assms by (auto simp: mark_used_def busy_def Let_def handed_live_iff split: if_splits)

text \<open>Settling keeps every nonce busy but the one it gives back.\<close>

lemma settle_keeps_busy:
  assumes "now \<le> t" "busy T t d m"
    and "(d, m) = (did, n) \<Longrightarrow> oc \<noteq> Free \<and> t - now < NONCE_HOLD"
  shows "busy (settle T now did n oc) t d m"
  using assms
  by (cases oc) (auto intro: hold_keeps_busy release_keeps_busy mark_used_keeps_busy)

lemma settle_busy:
  assumes "oc \<noteq> Free" "t - now < NONCE_HOLD"
  shows "busy (settle T now did n oc) t did n"
  using assms by (cases oc) (auto intro: hold_busy mark_used_busy)

lemma is_held_keeps_busy:
  assumes "now \<le> t" "busy T t d m"
  shows "busy (fst (is_held T now did n)) t d m"
  using refresh_keeps_busy [OF assms(1), of m "account_of T did" None] assms(2)
  by (auto simp: is_held_def busy_def Let_def account_of_def split: option.splits if_splits)

section \<open>The interface the writers rely on\<close>

text \<open>
  What the submission path needs of a tracker: a nonce it takes is not busy, stays busy for
  the hold whatever the other writers do, and only its own settlement as free gives it back.
  \<open>headroom\<close> says the window above the account's base is not cut by the width of u64.
\<close>

text \<open>A write in flight: the DID and nonce it was signed under, and when it took the nonce.\<close>

record flight =
  fl_did :: str
  fl_nonce :: u64
  fl_at :: instant

definition live :: "instant \<Rightarrow> flight \<Rightarrow> bool" where
  "live now f \<longleftrightarrow> now - fl_at f < NONCE_HOLD"

definition flight_key :: "flight \<Rightarrow> str \<times> u64" where
  "flight_key f = (fl_did f, fl_nonce f)"

definition flights_safe ::
  "(instant \<Rightarrow> str \<Rightarrow> u64 \<Rightarrow> bool) \<Rightarrow> instant \<Rightarrow> flight list \<Rightarrow> bool" where
  "flights_safe b now fs \<longleftrightarrow>
     (\<forall>f \<in> set fs. fl_at f \<le> now \<and> (\<forall>t \<ge> now. live t f \<longrightarrow> b t (fl_did f) (fl_nonce f)))
     \<and> distinct (map flight_key (filter (live now) fs))"

locale nonce_source =
  fixes take_n :: "'t \<Rightarrow> instant \<Rightarrow> str \<Rightarrow> account_nonce_state \<Rightarrow> 't \<times> u64 res"
    and settle_n :: "'t \<Rightarrow> instant \<Rightarrow> str \<Rightarrow> u64 \<Rightarrow> nonce_outcome \<Rightarrow> 't"
    and busy_n :: "'t \<Rightarrow> instant \<Rightarrow> str \<Rightarrow> u64 \<Rightarrow> bool"
    and headroom :: "'t \<Rightarrow> str \<Rightarrow> bool"
  assumes take_fresh: "take_n T now did st = (T', Inr n) \<Longrightarrow> headroom T' did \<Longrightarrow> \<not> busy_n T now did n"
    and take_holds: "take_n T now did st = (T', Inr n) \<Longrightarrow> t - now < NONCE_HOLD \<Longrightarrow> busy_n T' t did n"
    and take_frame: "take_n T now did st = (T', r) \<Longrightarrow> now \<le> t \<Longrightarrow> busy_n T t d m \<Longrightarrow> busy_n T' t d m"
    and settle_frame: "now \<le> t \<Longrightarrow> busy_n T t d m \<Longrightarrow> (d, m) \<noteq> (did, n) \<Longrightarrow>
           busy_n (settle_n T now did n oc) t d m"
    and settle_holds: "oc \<noteq> Free \<Longrightarrow> t - now < NONCE_HOLD \<Longrightarrow> busy_n (settle_n T now did n oc) t did n"
begin

lemma safe_empty: "flights_safe (busy_n T) now []"
  by (simp add: flights_safe_def)

lemma safe_tick:
  assumes "flights_safe (busy_n T) now fs" "now \<le> t"
  shows "flights_safe (busy_n T) t fs"
proof -
  have "filter (live t) fs = filter (live t) (filter (live now) fs)"
    using assms(2) by (auto simp: live_def intro: filter_cong)
  moreover have "distinct (map flight_key (filter (live now) fs))"
    using assms(1) by (simp add: flights_safe_def)
  ultimately have "distinct (map flight_key (filter (live t) fs))"
    by (metis distinct_map_filter)
  then show ?thesis using assms by (force simp: flights_safe_def)
qed

lemma safe_frame:
  assumes "flights_safe (busy_n T) now fs" "set gs \<subseteq> set fs"
    and "\<And>f t. f \<in> set gs \<Longrightarrow> now \<le> t \<Longrightarrow> live t f \<Longrightarrow> busy_n T t (fl_did f) (fl_nonce f) \<Longrightarrow>
           busy_n T' t (fl_did f) (fl_nonce f)"
    and "distinct (map flight_key (filter (live now) gs))"
  shows "flights_safe (busy_n T') now gs"
  using assms by (fastforce simp: flights_safe_def)

lemma safe_take:
  assumes "flights_safe (busy_n T) now fs" "take_n T now did st = (T', r)"
  shows "flights_safe (busy_n T') now fs"
  using assms by (intro safe_frame [OF assms(1)]) (auto simp: flights_safe_def intro: take_frame)

lemma safe_start:
  assumes safe: "flights_safe (busy_n T) now fs"
    and take: "take_n T now did st = (T', Inr n)" and room: "headroom T' did"
  shows "flights_safe (busy_n T') now (\<lparr>fl_did = did, fl_nonce = n, fl_at = now\<rparr> # fs)"
proof -
  let ?f = "\<lparr>fl_did = did, fl_nonce = n, fl_at = now\<rparr>"
  have new: "flight_key g \<noteq> (did, n)" if "g \<in> set fs" "live now g" for g
    using that safe take_fresh [OF take room] by (auto simp: flights_safe_def flight_key_def)
  have "busy_n T' t did n" if "live t ?f" for t
    using that take_holds [OF take] by (simp add: live_def)
  then show ?thesis
    using safe_take [OF safe take] new by (auto simp: flights_safe_def flight_key_def)
qed

lemma safe_finish:
  assumes safe: "flights_safe (busy_n T) now fs" and f: "f \<in> set fs" "live now f"
  shows "flights_safe (busy_n (settle_n T now (fl_did f) (fl_nonce f) oc)) now (remove1 f fs)"
proof -
  let ?live = "filter (live now) fs"
  from safe have dist: "distinct (map flight_key ?live)" by (simp add: flights_safe_def)
  have other: "flight_key g \<noteq> flight_key f" if "g \<in> set (remove1 f fs)" "live now g" for g
  proof -
    have "g \<in> set (remove1 f ?live)" using that by (simp flip: filter_remove1)
    moreover have "f \<in> set ?live" using f by simp
    ultimately show ?thesis using key_not_in_remove1 [OF dist] by (metis image_eqI)
  qed
  have "live now g" if "now \<le> t" "live t g" for g t
    using that by (auto simp: live_def)
  with other have keep: "busy_n (settle_n T now (fl_did f) (fl_nonce f) oc) t (fl_did g) (fl_nonce g)"
    if "g \<in> set (remove1 f fs)" "now \<le> t" "live t g" "busy_n T t (fl_did g) (fl_nonce g)" for g t
    using that by (intro settle_frame) (auto simp: flight_key_def)
  show ?thesis
  proof (rule safe_frame [OF safe])
    show "set (remove1 f fs) \<subseteq> set fs" by (rule set_remove1_subset)
    show "distinct (map flight_key (filter (live now) (remove1 f fs)))"
      by (simp only: filter_remove1 distinct_map_remove1 [OF dist])
  qed (rule keep)
qed

end

interpretation tracker_source: nonce_source take_nonce settle busy
    "\<lambda>T did. acc_base (account_of T did) < - 1"
proof unfold_locales
  show "\<not> busy T now did n"
    if "take_nonce T now did st = (T', Inr n)" "acc_base (account_of T' did) < - 1" for T now did st T' n
    using that by (rule take_nonce_not_busy)
  show "busy T' t did n"
    if "take_nonce T now did st = (T', Inr n)" "t - now < NONCE_HOLD" for T now did st T' n t
    using that by (rule take_nonce_busy_after)
  show "busy T' t d m"
    if "take_nonce T now did st = (T', r)" "now \<le> t" "busy T t d m" for T now did st T' r t d m
    using that by (rule take_nonce_keeps_busy)
  show "busy (settle T now did n oc) t d m"
    if "now \<le> t" "busy T t d m" "(d, m) \<noteq> (did, n)" for T now did n oc t d m
    using that by (auto intro: settle_keeps_busy)
  show "busy (settle T now did n oc) t did n"
    if "oc \<noteq> Free" "t - now < NONCE_HOLD" for T now did n oc t
    using that by (rule settle_busy)
qed

section \<open>Concurrent writes\<close>

text \<open>
  The writers of one client as a step relation over the tracker, its clock and the writes in
  flight. A write starts by taking a nonce and finishes by settling it; the requests it sends
  time out well within the hold (30 s by default against 120 s), so it finishes while its hold
  lasts. A write that outlives its hold is no longer counted live.
\<close>

record tracked =
  tr_tracker :: tracker
  tr_clock :: instant
  tr_flights :: "flight list"

definition tracked_start :: tracked where
  "tracked_start = \<lparr>tr_tracker = new_tracker, tr_clock = 0, tr_flights = []\<rparr>"

inductive tracker_step :: "tracked \<Rightarrow> tracked \<Rightarrow> bool" where
  tick: "tracker_step s (s\<lparr>tr_clock := tr_clock s + d\<rparr>)"
| start: "take_nonce (tr_tracker s) (tr_clock s) did st = (T', Inr n) \<Longrightarrow>
    acc_base (account_of T' did) < - 1 \<Longrightarrow>
    tracker_step s (s\<lparr>tr_tracker := T',
      tr_flights := \<lparr>fl_did = did, fl_nonce = n, fl_at = tr_clock s\<rparr> # tr_flights s\<rparr>)"
| refused: "take_nonce (tr_tracker s) (tr_clock s) did st = (T', Inl e) \<Longrightarrow>
    tracker_step s (s\<lparr>tr_tracker := T'\<rparr>)"
| finish: "f \<in> set (tr_flights s) \<Longrightarrow> live (tr_clock s) f \<Longrightarrow>
    tracker_step s (s\<lparr>tr_tracker := settle (tr_tracker s) (tr_clock s) (fl_did f) (fl_nonce f) oc,
      tr_flights := remove1 f (tr_flights s)\<rparr>)"
| query: "is_held (tr_tracker s) (tr_clock s) did n = (T', b) \<Longrightarrow>
    tracker_step s (s\<lparr>tr_tracker := T'\<rparr>)"

inductive tracker_reachable :: "tracked \<Rightarrow> bool" where
  init: "tracker_reachable tracked_start"
| step: "tracker_reachable s \<Longrightarrow> tracker_step s s' \<Longrightarrow> tracker_reachable s'"

definition tracked_safe :: "tracked \<Rightarrow> bool" where
  "tracked_safe s \<longleftrightarrow> flights_safe (busy (tr_tracker s)) (tr_clock s) (tr_flights s)"

lemma tracker_step_safe: "tracker_step s s' \<Longrightarrow> tracked_safe s \<Longrightarrow> tracked_safe s'"
proof (induction rule: tracker_step.induct)
  case (tick s d)
  then show ?case unfolding tracked_safe_def by (auto intro: tracker_source.safe_tick)
next
  case (start s did st T' n)
  then show ?case unfolding tracked_safe_def by (auto intro: tracker_source.safe_start)
next
  case (refused s did st T' e)
  then show ?case unfolding tracked_safe_def by (auto intro: tracker_source.safe_take)
next
  case (finish f s oc)
  then show ?case unfolding tracked_safe_def by (auto intro: tracker_source.safe_finish)
next
  case (query s did n T' b)
  then have T': "T' = fst (is_held (tr_tracker s) (tr_clock s) did n)" by simp
  have "flights_safe (busy T') (tr_clock s) (tr_flights s)"
  proof (rule tracker_source.safe_frame [of "tr_tracker s" _ "tr_flights s"])
    show safe: "flights_safe (busy (tr_tracker s)) (tr_clock s) (tr_flights s)"
      using query.prems by (simp add: tracked_safe_def)
    show "busy T' t (fl_did f) (fl_nonce f)"
      if "tr_clock s \<le> t" "busy (tr_tracker s) t (fl_did f) (fl_nonce f)" for f t
      unfolding T' using that by (rule is_held_keeps_busy)
    show "distinct (map flight_key (filter (live (tr_clock s)) (tr_flights s)))"
      using safe by (simp add: flights_safe_def)
  qed simp
  then show ?case by (simp add: tracked_safe_def)
qed

lemma tracker_reachable_safe: "tracker_reachable s \<Longrightarrow> tracked_safe s"
proof (induction rule: tracker_reachable.induct)
  case init
  show ?case by (simp add: tracked_safe_def tracked_start_def tracker_source.safe_empty)
qed (blast intro: tracker_step_safe)


section \<open>The nonce handed out\<close>

text \<open>What makes a nonce unavailable to \<open>take_nonce\<close>: the chain shows it used, now or when last
  asked, or it was handed out within the hold.\<close>

definition unavailable :: "account \<Rightarrow> account_nonce_state \<Rightarrow> instant \<Rightarrow> u64 \<Rightarrow> bool" where
  "unavailable a st now n \<longleftrightarrow> n \<in> acc_used a \<or> n \<in> set (used_nonces st) \<or> handed_live a now n"

lemma free_in_refresh:
  assumes "acc_base (refresh a (Some st) now) < n"
  shows "free_in (refresh a (Some st) now) n \<longleftrightarrow> \<not> unavailable a st now n"
proof -
  have "acc_handed (refresh a (Some st) now) n = None \<longleftrightarrow>
      \<not> (\<exists>at. acc_handed (refresh a (Some st) now) n = Some at)" by auto
  then show ?thesis
    using assms
    by (auto simp: free_in_def unavailable_def refresh_simps merge_state_def)
qed

text \<open>C17: with the highest base seen below the maximum of u64, \<open>take\<close> hands out exactly the lowest
  nonce of the window \<open>base + 1 ..= base + 24\<close> that is available, records it, and refuses only
  when the whole window is unavailable.\<close>

theorem take_hands_out_lowest_available:
  assumes base: "b = max (acc_base (account_of T did)) (ans_base st)" and room: "b < - 1"
  shows "case take_nonce T now did st of
      (T', Inr n) \<Rightarrow> b < n \<and> unat n \<le> unat b + 24 \<and> \<not> unavailable (account_of T did) st now n
          \<and> (\<forall>m. b < m \<and> m < n \<longrightarrow> unavailable (account_of T did) st now m)
          \<and> acc_handed (account_of T' did) n = Some now \<and> acc_base (account_of T' did) = b
    | (T', Inl e) \<Rightarrow>
        (\<forall>m. b < m \<and> unat m \<le> unat b + 24 \<longrightarrow> unavailable (account_of T did) st now m)"
proof -
  let ?a = "refresh (account_of T did) (Some st) now"
  let ?w = "incl_range (saturating_add b 1) (saturating_add b NONCE_WINDOW)"
  have b: "acc_base ?a = b" by (simp add: base refresh_def merge_state_def)
  have win: "n \<in> set ?w \<longleftrightarrow> b < n \<and> unat n \<le> unat b + 24" for n by (rule window_iff [OF room])
  have av: "free_in ?a n \<longleftrightarrow> \<not> unavailable (account_of T did) st now n" if "b < n" for n
    using free_in_refresh that b by metis
  show ?thesis
  proof (cases "List.find (free_in ?a) ?w")
    case None
    then have "\<not> free_in ?a m" if "m \<in> set ?w" for m using that by (auto simp: find_None_iff)
    with None show ?thesis by (auto simp: take_nonce_def Let_def b win av)
  next
    case (Some n)
    then have "n \<in> set ?w" "free_in ?a n" by (auto simp: find_Some_iff)
    moreover have "unavailable (account_of T did) st now m" if "b < m" "m < n" for m
    proof (rule ccontr)
      assume "\<not> unavailable (account_of T did) st now m"
      moreover have "m \<in> set ?w" using that \<open>n \<in> set ?w\<close> by (simp add: win word_less_nat_alt)
      ultimately have "n \<le> m"
        using find_sorted_least [OF sorted_incl_range Some] av [OF that(1)] by blast
      with that(2) show False by simp
    qed
    ultimately show ?thesis using Some by (auto simp: take_nonce_def Let_def b win av)
  qed
qed

section \<open>The state the chain reports\<close>

lemma used_bits_bits:
  "used_bits [x, y, z] = ucast x OR push_bit 8 (ucast y) OR push_bit 16 (ucast z)"
  by (simp add: used_bits_def or.assoc)

lemma bit_set_used_bits:
  assumes "i < 24"
  shows "bit_set (used_bits [x, y, z]) i \<longleftrightarrow> bit ([x, y, z] ! (i div 8)) (i mod 8)"
proof -
  consider "i div 8 = 0" "i < 8" | "i div 8 = 1" "8 \<le> i" "i < 16" | "i div 8 = 2" "16 \<le> i"
    using assms by linarith
  moreover have "\<not> bit (w :: u8) k" if "8 \<le> k" for w k
    using that bit_imp_le_length [of w k] by fastforce
  ultimately show ?thesis
    using assms
    by cases (auto simp: bit_set_iff used_bits_bits bit_simps modulo_nat_def)
qed

lemma from_bytes_parts:
  shows "is_ok (from_bytes v) \<longleftrightarrow> length v \<in> {0, 8, 11}"
    and "from_bytes [] = Inr \<lparr>ans_base = 0, ans_used = 0\<rparr>"
    and "unat b + 24 < 2 ^ 64 \<Longrightarrow>
      \<exists>s. from_bytes (be_bytes 8 (unat b) @ [x, y, z]) = Inr s \<and> ans_base s = b
        \<and> (\<forall>n. is_used s n \<longleftrightarrow> n \<le> b \<or> (let i = unat n - unat b - 1 in
               i < 24 \<and> bit ([x, y, z] ! (i div 8)) (i mod 8)))"
proof -
  show "is_ok (from_bytes v) \<longleftrightarrow> length v \<in> {0, 8, 11}"
    by (auto simp: from_bytes_def)
  show "from_bytes [] = Inr \<lparr>ans_base = 0, ans_used = 0\<rparr>"
    by (simp add: from_bytes_def default_nonce_state_def)
next
  assume b: "unat b + 24 < 2 ^ 64"
  let ?s = "\<lparr>ans_base = b, ans_used = used_bits [x, y, z]\<rparr>"
  have "unat b < 256 ^ 8" using unat_lt2p [of b] by simp
  then have "from_bytes (be_bytes 8 (unat b) @ [x, y, z]) = Inr ?s"
    by (simp add: from_bytes_def be_nat_be_bytes)
  moreover have "is_used ?s n \<longleftrightarrow> n \<le> b \<or> (let i = unat n - unat b - 1 in
       i < 24 \<and> bit ([x, y, z] ! (i div 8)) (i mod 8))" for n
  proof (cases "n \<le> b")
    case False
    then show ?thesis
      using is_used_iff_listed [of ?s n] used_nonces_iff [of ?s n] b bit_set_used_bits
      by (auto simp: Let_def)
  qed (simp add: is_used_def)
  ultimately show "\<exists>s. from_bytes (be_bytes 8 (unat b) @ [x, y, z]) = Inr s \<and> ans_base s = b
        \<and> (\<forall>n. is_used s n \<longleftrightarrow> n \<le> b \<or> (let i = unat n - unat b - 1 in
               i < 24 \<and> bit ([x, y, z] ! (i div 8)) (i mod 8)))"
    by (intro exI [of _ ?s]) simp
qed

text \<open>C25: \<open>from_bytes\<close> accepts exactly no bytes, 8 and 11; 11 bytes give the big-endian base of
  the first 8, and then \<open>is_used\<close> is true of the nonces up to the base and of \<open>base + 1 + i\<close>
  exactly when bit \<open>i mod 8\<close> of byte \<open>i div 8\<close> of the last three is set, for nothing past 24.\<close>

theorem from_bytes_exact:
  "(is_ok (from_bytes v) \<longleftrightarrow> length v \<in> {0, 8, 11})
   \<and> from_bytes [] = Inr \<lparr>ans_base = 0, ans_used = 0\<rparr>
   \<and> (unat b + 24 < 2 ^ 64 \<longrightarrow>
      (\<exists>s. from_bytes (be_bytes 8 (unat b) @ [x, y, z]) = Inr s \<and> ans_base s = b
        \<and> (\<forall>n. is_used s n \<longleftrightarrow> n \<le> b \<or> (let i = unat n - unat b - 1 in
               i < 24 \<and> bit ([x, y, z] ! (i div 8)) (i mod 8)))))"
  using from_bytes_parts by blast

section \<open>The node's refusals\<close>

lemma plain_ends: "plain (CHR ''N'')" "plain (CHR ''I'')" "plain (CHR '')'')" "plain (CHR ''d'')"
    "plain (CHR ''n'')" "plain (CHR ''e'')" "plain (CHR ''('')"
  by (simp_all add: plain_def whitespace_def)

lemma trim_keeps:
  assumes "plain a" "plain c"
  shows "\<exists>r. trim (a # p @ c # t) = a # p @ c # r"
  using trim_end_keeps_plain [OF assms(2), of "a # p" t]
  by (simp add: trim_def trim_start_plain [OF assms(1)])

lemma strip_prefix_dec:
  "strip_prefix (''Nonce '' @ dec n @ '' of '') (''Nonce '' @ dec m @ '' of '' @ r)
     = (if m = n then Some r else None)"
proof -
  have "''Nonce '' @ dec m @ '' of '' @ r \<noteq> (''Nonce '' @ dec n @ '' of '') @ q" if "m \<noteq> n" for q
    using dec_prefix_inject [of m "CHR '' ''" "''of '' @ r" n "''of '' @ q"] that by auto
  then show ?thesis by (auto simp: strip_prefix_Some_iff strip_prefix_def prefix_def)
qed

lemma unat_dec_eq: "dec (unat m) = dec (unat n) \<longleftrightarrow> (m :: u64) = n"
  by (simp add: word_unat_eq_iff)

lemma refusal_outcome_parts:
  fixes m n :: u64
  assumes "\<forall>c \<in> set did. plain c"
  shows "refusal_outcome (''Nonce '' @ dec (unat m) @ '' of '' @ did @
           '' is held by a pending transaction'' @ t) n = Held \<longleftrightarrow> m = n"
    and "refusal_outcome (''Invalid nonce: '' @ dec (unat m) @ '' already used'' @ t) m = Used"
    and "refusal_outcome (''Invalid nonce: '' @ dec (unat m) @ '' <= base nonce'' @ t) m = Used"
    and "refusal_outcome (p @ ''(nonce '' @ dec (unat m) @ '' spent)'') m \<in> {Used, Held}"
    and "refusal_outcome log n \<noteq> Free \<Longrightarrow>
           prefix (''Nonce '' @ dec (unat n) @ '' of '') (trim log)
         \<or> prefix (''Invalid nonce: '' @ dec (unat n)) (trim log)
         \<or> suffix (''(nonce '' @ dec (unat n) @ '' spent)'') (trim log)"
proof -
  let ?held = "''Nonce '' @ dec (unat m) @ '' of '' @ did @ '' is held by a pending transaction''"
  obtain r where r: "trim (?held @ t) = ?held @ r"
    using trim_keeps [OF plain_ends(1,5), of "''once '' @ dec (unat m) @ '' of '' @ did @
      '' is held by a pending transactio''" t] by auto
  have split: "split_once_ws (did @ '' is held by a pending transaction'' @ r)
      = Some (did, ''is held by a pending transaction'' @ r)"
    using split_once_ws_plain [OF assms] by simp
  show "refusal_outcome (''Nonce '' @ dec (unat m) @ '' of '' @ did @
      '' is held by a pending transaction'' @ t) n = Held \<longleftrightarrow> m = n"
    using r split strip_prefix_dec [of "unat n" "unat m"
        "did @ '' is held by a pending transaction'' @ r"]
    by (simp add: refusal_outcome_def Let_def unat_dec_eq word_unat_eq_iff)
next
  obtain r where "trim (''Invalid nonce: '' @ dec (unat m) @ '' already used'' @ t)
      = ''Invalid nonce: '' @ dec (unat m) @ '' already used'' @ r"
    using trim_keeps [OF plain_ends(2,4), of "''nvalid nonce: '' @ dec (unat m) @ '' already use''" t]
    by auto
  then show "refusal_outcome (''Invalid nonce: '' @ dec (unat m) @ '' already used'' @ t) m = Used"
    by (simp add: refusal_outcome_def Let_def strip_prefix_def)
next
  obtain r where "trim (''Invalid nonce: '' @ dec (unat m) @ '' <= base nonce'' @ t)
      = ''Invalid nonce: '' @ dec (unat m) @ '' <= base nonce'' @ r"
    using trim_keeps [OF plain_ends(2,6), of "''nvalid nonce: '' @ dec (unat m) @ '' <= base nonc''" t]
    by auto
  then show "refusal_outcome (''Invalid nonce: '' @ dec (unat m) @ '' <= base nonce'' @ t) m = Used"
    by (simp add: refusal_outcome_def Let_def strip_prefix_def)
next
  let ?q = "''(nonce '' @ dec (unat m) @ '' spent''"
  obtain u where "trim_start (p @ ?q @ '')'') = u @ ?q @ '')''"
    using trim_start_keeps_plain [OF plain_ends(7), of p "''nonce '' @ dec (unat m) @ '' spent)''"]
    by auto
  then have "trim (p @ ''(nonce '' @ dec (unat m) @ '' spent)'')
      = u @ ''(nonce '' @ dec (unat m) @ '' spent)''"
    using trim_end_plain [OF plain_ends(3), of "u @ ?q"] by (simp add: trim_def)
  then show "refusal_outcome (p @ ''(nonce '' @ dec (unat m) @ '' spent)'') m \<in> {Used, Held}"
    by (simp add: refusal_outcome_def Let_def suffix_def)
next
  assume "refusal_outcome log n \<noteq> Free"
  then show "prefix (''Nonce '' @ dec (unat n) @ '' of '') (trim log)
         \<or> prefix (''Invalid nonce: '' @ dec (unat n)) (trim log)
         \<or> suffix (''(nonce '' @ dec (unat n) @ '' spent)'') (trim log)"
    by (auto simp: refusal_outcome_def Let_def strip_prefix_def prefix_def split: if_splits)
qed


section \<open>At the edges\<close>

lemma find_incl_range_first: "a \<le> b \<Longrightarrow> P a \<Longrightarrow> List.find P (incl_range a b) = Some a"
  unfolding incl_range_def
  by (subst upt_rec) (simp add: word_le_nat_alt)

lemma take_first_free:
  assumes "acc_base (refresh (account_of T did) (Some st) now) = b"
    and "free_in (refresh (account_of T did) (Some st) now) (saturating_add b 1)"
  shows "take_nonce T now did st =
    (let a = refresh (account_of T did) (Some st) now in
     (T(did \<mapsto> a\<lparr>acc_handed := (acc_handed a)(saturating_add b 1 \<mapsto> now)\<rparr>), Inr (saturating_add b 1)))"
proof -
  have "saturating_add b 1 \<le> saturating_add b NONCE_WINDOW"
    by (simp add: word_le_nat_alt unat_saturating_add)
  with assms show ?thesis
    by (simp add: take_nonce_def Let_def find_incl_range_first)
qed

text \<open>At the maximum base there is no nonce above it, and \<open>take\<close> hands out the base itself, which
  is used.\<close>

lemma take_reuses_max_base:
  assumes "ans_base st = - 1" "ans_used st = 0"
  shows "snd (take_nonce new_tracker now did st) = Inr (ans_base st)" "is_used st (ans_base st)"
proof -
  have m: "saturating_add (- 1) 1 = (- 1 :: u64)" by (simp add: saturating_add_def unat_minus_one_word)
  have "used_nonces st = []" using assms by (simp add: used_nonces_def bit_set_def)
  then have "free_in (refresh new_account (Some st) now) (- 1)"
    by (auto simp: free_in_def refresh_def drop_passed_def merge_state_def new_account_def Let_def)
  moreover have "acc_base (refresh new_account (Some st) now) = - 1"
    using assms by (simp add: refresh_def merge_state_def new_account_def)
  ultimately show "snd (take_nonce new_tracker now did st) = Inr (ans_base st)"
    using assms m by (subst take_first_free [where b = "- 1"]) (simp_all add: Let_def)
  show "is_used st (ans_base st)" by (simp add: is_used_def)
qed

lemma saturating_zero_one: "saturating_add 0 1 = (1 :: u64)"
  by (simp add: saturating_add_def)

text \<open>A release is keyed by the nonce alone: a write that settles as free after its hold lapsed gives
  back the nonce another write took meanwhile, and a third write gets the same one.\<close>

lemma late_release_frees_other:
  defines "s \<equiv> 10 ^ 9 :: nat" and "st \<equiv> default_nonce_state" and "d \<equiv> ''did:willow:z6Mk''"
  defines "T1 \<equiv> take_nonce new_tracker 0 d st"
  defines "T2 \<equiv> take_nonce (fst T1) (121 * s) d st"
  defines "T3 \<equiv> settle (fst T2) (122 * s) d 1 Free"
  defines "T4 \<equiv> take_nonce T3 (123 * s) d st"
  shows "snd T1 = Inr 1 \<and> snd T2 = Inr 1 \<and> snd T4 = Inr 1"
proof -
  define acct :: "(u64 \<rightharpoonup> instant) \<Rightarrow> account" where
    "acct h = \<lparr>acc_base = 0, acc_used = {}, acc_handed = h\<rparr>" for h
  have st: "used_nonces st = []" "ans_base st = 0"
    by (simp_all add: st_def default_nonce_state_def used_nonces_def bit_set_def)
  have take: "take_nonce T now d st = (T(d \<mapsto> acct [1 \<mapsto> now]), Inr 1)"
    if "account_of T d = acct h" "h = Map.empty \<or> (h = [1 \<mapsto> at] \<and> NONCE_HOLD \<le> now - at)" for T now h at
  proof -
    have "refresh (account_of T d) (Some st) now = acct Map.empty"
      using that by (auto simp: refresh_def merge_state_def drop_passed_def Let_def acct_def st)
    then show ?thesis
      using take_first_free [of T d st now 0]
      by (simp add: acct_def free_in_def saturating_zero_one)
  qed
  have 1: "T1 = ([d \<mapsto> acct [1 \<mapsto> 0]], Inr 1)"
    unfolding T1_def using take [of new_tracker Map.empty 0]
    by (simp add: new_account_def acct_def new_tracker_def account_of_def)
  have 2: "T2 = ([d \<mapsto> acct [1 \<mapsto> 121 * s]], Inr 1)"
    unfolding T2_def using take [of "fst T1" "[1 \<mapsto> 0]" 0 "121 * s"]
    by (simp add: 1 account_of_def NONCE_HOLD_def s_def)
  have 3: "T3 = [d \<mapsto> acct Map.empty]"
    by (simp add: T3_def 2 release_def acct_def)
  have "snd T4 = Inr 1"
    unfolding T4_def using take [of T3 Map.empty]
    by (simp add: 3 account_of_def)
  with 1 2 show ?thesis by simp
qed

section \<open>The properties at concrete inputs\<close>


theorem take_hands_out_lowest_available_witness:
  "case take_nonce new_tracker 0 ''d'' default_nonce_state of
     (T', Inr n) \<Rightarrow> 0 < n \<and> unat n \<le> 24 | (T', Inl e) \<Rightarrow> True"
  using take_hands_out_lowest_available [of 0 new_tracker "''d''" default_nonce_state 0]
  by (auto simp: new_account_def default_nonce_state_def split: prod.splits sum.splits)

theorem from_bytes_exact_witness:
  "\<exists>s. from_bytes (be_bytes 8 (unat (7 :: u64)) @ [1, 0, 128]) = Inr s \<and> is_used s 8 \<and> is_used s 31
     \<and> \<not> is_used s 9"
proof -
  obtain s where "from_bytes (be_bytes 8 (unat (7 :: u64)) @ [1, 0, 128]) = Inr s"
    "\<forall>n. is_used s n \<longleftrightarrow> n \<le> 7 \<or> (let i = unat n - unat (7 :: u64) - 1 in
               i < 24 \<and> bit ([1, 0, 128 :: u8] ! (i div 8)) (i mod 8))"
    using from_bytes_exact [of "[]" 7 1 0 128] by auto
  moreover have "bit (128 :: u8) 7" by (simp add: bit_iff_odd)
  ultimately show ?thesis
    by (intro exI [of _ s]) (simp add: Let_def)
qed


end
