(* ===== verification/Http_Body.thy ===== *)
theory Http_Body
  imports Errors
begin

text \<open>
  Caps on answers (\<open>src/src/http_body.rs\<close>): a body is read piece by piece under a limit, and
  the JSON in it is counted in units before anything decodes it.

  A response is what the HTTP client gives: a status, the declared length, and the pieces its
  body arrives in, each of which may fail. The scan of \<open>scan_units\<close> walks the rest of the
  body instead of an index into it; one step of it is \<open>scan_byte\<close>, an arm for an arm.
\<close>

section \<open>Reading a body\<close>

record response =
  resp_status :: nat
  resp_content_length :: "nat option"
  resp_pieces :: "(reqwest_error, bytes) result list"

definition SMALL :: nat where "SMALL = 4 * 2 ^ 20"
definition PROOF :: nat where "PROOF = 2 * 2 ^ 20 + 64 * 2 ^ 10"
definition CHUNK :: nat where "CHUNK = 2 * 2 ^ 20"
definition TX :: nat where "TX = 12 * 2 ^ 20"
definition VERIFIABLE_RPC :: nat where "VERIFIABLE_RPC = 20 * 2 ^ 20"
definition LARGE :: nat where "LARGE = 64 * 2 ^ 20"

fun read_pieces :: "nat \<Rightarrow> bytes \<Rightarrow> (reqwest_error, bytes) result list \<Rightarrow> bytes res" where
  "read_pieces limit body [] = Inr body"
| "read_pieces limit body (Inl e # pieces) = Inl (from_reqwest e)"
| "read_pieces limit body (Inr piece # pieces) =
     (if length piece > limit - length body then Inl (ResponseTooLarge limit)
      else read_pieces limit (body @ piece) pieces)"

definition read :: "response \<Rightarrow> nat \<Rightarrow> bytes res" where
  "read resp limit =
     (if (case resp_content_length resp of Some len \<Rightarrow> len > limit | None \<Rightarrow> False)
      then Inl (ResponseTooLarge limit)
      else read_pieces limit [] (resp_pieces resp))"

section \<open>Counting JSON\<close>

definition MAX_VALUES :: nat where "MAX_VALUES = 2 ^ 21"
definition CONTAINER_COST :: nat where "CONTAINER_COST = 8"
definition PROOF_NUMBERS_PER_UNIT :: nat where "PROOF_NUMBERS_PER_UNIT = 16"

datatype json_budget = Full | UnderProof

definition quote :: u8 where "quote = 0x22"
definition backslash :: u8 where "backslash = 0x5C"

definition is_digit :: "u8 \<Rightarrow> bool" where
  "is_digit c \<longleftrightarrow> 0x30 \<le> c \<and> c \<le> 0x39"

definition is_lower :: "u8 \<Rightarrow> bool" where
  "is_lower c \<longleftrightarrow> 0x61 \<le> c \<and> c \<le> 0x7A"

definition is_scalar_byte :: "u8 \<Rightarrow> bool" where
  "is_scalar_byte c \<longleftrightarrow> is_digit c \<or> is_lower c \<or> (0x41 \<le> c \<and> c \<le> 0x5A)
     \<or> c \<in> {0x2E, 0x2B, 0x2D}"

text \<open>The bytes of a string, and what follows from its closing quote on.\<close>

fun string_end :: "bytes \<Rightarrow> bytes \<times> bytes" where
  "string_end [] = ([], [])"
| "string_end [c] = (if c = quote then ([], [c]) else ([c], []))"
| "string_end (c # d # cs) =
     (if c = quote then ([], c # d # cs)
      else if c = backslash then (let (s, r) = string_end cs in (c # d # s, r))
      else (let (s, r) = string_end (d # cs) in (c # s, r)))"

definition skip_ws :: "bytes \<Rightarrow> bytes" where
  "skip_ws = dropWhile (\<lambda>c. c \<in> {0x20, 0x09, 0x0A, 0x0D})"

definition opens_container_after_colon :: "bytes \<Rightarrow> bool" where
  "opens_container_after_colon data =
     (case skip_ws data of
        [] \<Rightarrow> False
      | c # cs \<Rightarrow> c = 0x3A \<and> (case skip_ws cs of [] \<Rightarrow> False | d # _ \<Rightarrow> d = 0x5B \<or> d = 0x7B))"

record scan_state =
  sc_units :: nat
  sc_depth :: nat
  sc_cheap :: nat
  sc_under_proof :: bool

definition scan_start :: scan_state where
  "scan_start = \<lparr>sc_units = 0, sc_depth = 0, sc_cheap = 0, sc_under_proof = False\<rparr>"

text \<open>One turn of the loop: the byte read, the rest of the body; the state and the rest after.\<close>

definition scan_byte :: "json_budget \<Rightarrow> scan_state \<Rightarrow> u8 \<Rightarrow> bytes \<Rightarrow> scan_state \<times> bytes" where
  "scan_byte budget st c cs =
     (if c = quote then
        (let st = st\<lparr>sc_units := sc_units st + 1\<rparr>; (s, r) = string_end cs in
         (if budget = UnderProof \<and> sc_depth st = 1 \<and> s = str_bytes ''proof''
              \<and> opens_container_after_colon (drop 1 r)
          then st\<lparr>sc_under_proof := True\<rparr> else st, drop 1 r))
      else if c = 0x5B \<or> c = 0x7B then
        (st\<lparr>sc_units := sc_units st + CONTAINER_COST, sc_depth := sc_depth st + 1\<rparr>, cs)
      else if c = 0x5D \<or> c = 0x7D then
        (let st = st\<lparr>sc_depth := sc_depth st - 1\<rparr> in
         (if sc_depth st \<le> 1 then st\<lparr>sc_under_proof := False\<rparr> else st, cs))
      else if c = 0x2D \<or> is_digit c then
        (if sc_under_proof st then
           (let st = st\<lparr>sc_cheap := sc_cheap st + 1\<rparr> in
            if sc_cheap st = PROOF_NUMBERS_PER_UNIT
            then st\<lparr>sc_units := sc_units st + 1, sc_cheap := 0\<rparr> else st)
         else st\<lparr>sc_units := sc_units st + 1\<rparr>, dropWhile is_scalar_byte cs)
      else if is_lower c then
        (st\<lparr>sc_units := sc_units st + 1\<rparr>, dropWhile is_scalar_byte cs)
      else (st, cs))"

lemma string_end_length: "length (fst (string_end cs)) + length (snd (string_end cs)) = length cs"
  by (induction cs rule: string_end.induct) (auto split: prod.splits)

lemma scan_byte_shorter: "length (snd (scan_byte budget st c cs)) \<le> length cs"
  using string_end_length [of cs]
  by (auto simp: scan_byte_def Let_def length_dropWhile_le split: prod.splits)

function scan_from :: "nat \<Rightarrow> json_budget \<Rightarrow> scan_state \<Rightarrow> bytes \<Rightarrow> bool" where
  "scan_from limit budget st [] = True"
| "scan_from limit budget st (c # cs) =
     (let (st', rest) = scan_byte budget st c cs in
      if sc_units st' > limit then False else scan_from limit budget st' rest)"
  by pat_completeness auto
termination
proof (relation "measure (\<lambda>(_, _, _, data). length data)")
  fix mx budget st c cs x st' rest
  assume "x = scan_byte budget st c cs" "(st', rest) = x"
  then show "((mx, budget, st', rest), mx, budget, st, c # cs)
      \<in> measure (\<lambda>(_, _, _, data). length data)"
    using scan_byte_shorter [of budget st c cs] by (metis case_prod_conv in_measure le_imp_less_Suc
        length_Cons snd_conv)
qed simp

definition scan_units :: "bytes \<Rightarrow> nat \<Rightarrow> json_budget \<Rightarrow> bool" where
  "scan_units data limit budget = scan_from limit budget scan_start data"

definition check_json_within :: "bytes \<Rightarrow> nat \<Rightarrow> json_budget \<Rightarrow> unit res" where
  "check_json_within data limit budget =
     (if scan_units data limit budget then Inr () else Inl (ResponseTooComplex limit))"

definition check_json :: "bytes \<Rightarrow> json_budget \<Rightarrow> unit res" where
  "check_json data budget = check_json_within data MAX_VALUES budget"

text \<open>\<open>text\<close>: the body, where \<open>lossy\<close> is the standard library's conversion that replaces invalid
  UTF-8 and keeps valid UTF-8 as it is.\<close>

definition read_text :: "(bytes \<Rightarrow> str) \<Rightarrow> response \<Rightarrow> nat \<Rightarrow> str res" where
  "read_text lossy resp limit = rbind (read resp limit) (\<lambda>body. Inr (lossy body))"

text \<open>\<open>json\<close> and \<open>decode_checked\<close>, over what \<open>serde_json\<close> decodes a text to.\<close>

definition json :: "(bytes \<Rightarrow> (str, 'v) result) \<Rightarrow> response \<Rightarrow> nat \<Rightarrow> 'v res" where
  "json from_slice resp limit =
     rbind (read resp limit) (\<lambda>body.
     rbind (check_json body Full) (\<lambda>_. map_err Serialization (from_slice body)))"

definition decode_checked :: "(bytes \<Rightarrow> (str, 'v) result) \<Rightarrow> bytes \<Rightarrow> json_budget \<Rightarrow> 'v res" where
  "decode_checked from_str text budget =
     rbind (check_json text budget) (\<lambda>_. map_err Serialization (from_str text))"

section \<open>Reading stays under the cap\<close>

lemma read_pieces_Inr_iff:
  assumes "length body \<le> limit"
  shows "read_pieces limit body pieces = Inr out \<longleftrightarrow>
    (\<exists>bs. pieces = map Inr bs \<and> out = body @ concat bs \<and> length out \<le> limit)"
  using assms
proof (induction limit body pieces rule: read_pieces.induct)
  case (1 limit body)
  then show ?case by auto
next
  case (3 limit body piece pieces)
  show ?case
  proof (cases "length piece > limit - length body")
    case True
    with 3(2) show ?thesis by (auto simp: map_eq_Cons_conv)
  next
    case False
    with 3 have "read_pieces limit (body @ piece) pieces = Inr out \<longleftrightarrow>
      (\<exists>bs. pieces = map Inr bs \<and> out = (body @ piece) @ concat bs \<and> length out \<le> limit)"
      by simp
    then show ?thesis using False by (auto simp: Cons_eq_map_conv)
  qed
qed auto

lemma read_Inr_iff:
  "read resp limit = Inr body \<longleftrightarrow>
     (case resp_content_length resp of None \<Rightarrow> True | Some len \<Rightarrow> len \<le> limit)
     \<and> (\<exists>bs. resp_pieces resp = map Inr bs \<and> body = concat bs) \<and> length body \<le> limit"
  using read_pieces_Inr_iff [of "[]" limit "resp_pieces resp" body]
  by (auto simp: read_def split: option.splits)

text \<open>A body is read exactly when neither the length the answer declares nor the bytes it
  sends pass the cap and every piece arrives; it is then the pieces in order, at most the cap
  long.\<close>

theorem read_exact:
  "read resp limit = Inr body \<longleftrightarrow>
     (case resp_content_length resp of None \<Rightarrow> True | Some len \<Rightarrow> len \<le> limit)
     \<and> (\<exists>bs. resp_pieces resp = map Inr bs \<and> body = concat bs) \<and> length body \<le> limit"
  by (rule read_Inr_iff)

section \<open>The early exit\<close>

text \<open>The scan without a limit: the state after the whole body.\<close>

function scan_all :: "json_budget \<Rightarrow> scan_state \<Rightarrow> bytes \<Rightarrow> scan_state" where
  "scan_all budget st [] = st"
| "scan_all budget st (c # cs) =
     (let (st', rest) = scan_byte budget st c cs in scan_all budget st' rest)"
  by pat_completeness auto
termination
proof (relation "measure (\<lambda>(_, _, data). length data)")
  fix budget st c cs x st' rest
  assume "x = scan_byte budget st c cs" "(st', rest) = x"
  then show "((budget, st', rest), budget, st, c # cs) \<in> measure (\<lambda>(_, _, data). length data)"
    using scan_byte_shorter [of budget st c cs] by (metis case_prod_conv in_measure le_imp_less_Suc
        length_Cons snd_conv)
qed simp

lemma scan_byte_units: "sc_units st \<le> sc_units (fst (scan_byte budget st c cs))"
  by (auto simp: scan_byte_def Let_def split: prod.splits)

lemma scan_all_units: "sc_units st \<le> sc_units (scan_all budget st data)"
proof (induction budget st data rule: scan_all.induct)
  case (2 budget st c cs)
  obtain st' rest where s: "scan_byte budget st c cs = (st', rest)" by fastforce
  with 2 [OF s [symmetric] refl] scan_byte_units [of st budget c cs] show ?case by simp
qed simp

lemma scan_from_all:
  "sc_units st \<le> limit \<Longrightarrow> scan_from limit budget st data \<longleftrightarrow> sc_units (scan_all budget st data) \<le> limit"
proof (induction limit budget st data rule: scan_from.induct)
  case (2 limit budget st c cs)
  obtain st' rest where s: "scan_byte budget st c cs = (st', rest)" by fastforce
  then show ?case
    using 2(1) [OF s [symmetric] refl] scan_all_units [of st' budget rest] by auto
qed simp

lemma scan_units_all:
  "scan_units data limit budget \<longleftrightarrow> sc_units (scan_all budget scan_start data) \<le> limit"
  by (simp add: scan_units_def scan_from_all scan_start_def)

declare scan_all.simps(2) [simp del]

section \<open>What the units of a JSON text are\<close>

text \<open>
  A JSON value and its compact text. A scalar is the text of a number, \<open>true\<close>, \<open>false\<close> or
  \<open>null\<close>; a string is given by the bytes between its quotes, escapes included.
\<close>

datatype json = JScalar bytes | JStr bytes | JArr "json list" | JObj "(bytes \<times> json) list"

fun string_ok :: "bytes \<Rightarrow> bool" where
  "string_ok [] = True"
| "string_ok [c] = (c \<noteq> quote \<and> c \<noteq> backslash)"
| "string_ok (c # d # cs) =
     (c \<noteq> quote \<and> (if c = backslash then string_ok cs else string_ok (d # cs)))"

definition scalar_ok :: "bytes \<Rightarrow> bool" where
  "scalar_ok b = (case b of [] \<Rightarrow> False
     | c # cs \<Rightarrow> (c = 0x2D \<or> is_digit c \<or> is_lower c) \<and> list_all is_scalar_byte cs)"

fun commas :: "bytes list \<Rightarrow> bytes" where
  "commas [] = []"
| "commas [b] = b"
| "commas (b # c # bs) = b @ 0x2C # commas (c # bs)"

primrec print_json :: "json \<Rightarrow> bytes" where
  "print_json (JScalar b) = b"
| "print_json (JStr s) = quote # s @ [quote]"
| "print_json (JArr vs) = 0x5B # commas (map print_json vs) @ [0x5D]"
| "print_json (JObj kvs) =
     0x7B # commas (map (\<lambda>(k, p). quote # k @ quote # 0x3A # p)
       (map (map_prod id print_json) kvs)) @ [0x7D]"

primrec json_ok :: "json \<Rightarrow> bool" where
  "json_ok (JScalar b) = scalar_ok b"
| "json_ok (JStr s) = string_ok s"
| "json_ok (JArr vs) = list_all id (map json_ok vs)"
| "json_ok (JObj kvs) = list_all (\<lambda>(k, ok). string_ok k \<and> ok) (map (map_prod id json_ok) kvs)"

primrec json_units :: "json \<Rightarrow> nat" where
  "json_units (JScalar b) = 1"
| "json_units (JStr s) = 1"
| "json_units (JArr vs) = CONTAINER_COST + sum_list (map json_units vs)"
| "json_units (JObj kvs) =
     CONTAINER_COST + sum_list (map (\<lambda>(k, u). 1 + u) (map (map_prod id json_units) kvs))"

lemma string_end_quote [simp]: "string_end (quote # r) = ([], quote # r)"
  by (cases r) simp_all

lemma string_end_ok: "string_ok s \<Longrightarrow> string_end (s @ quote # r) = (s, quote # r)"
  by (induction s rule: string_ok.induct) (auto split: prod.splits)

definition add_units :: "nat \<Rightarrow> scan_state \<Rightarrow> scan_state" where
  "add_units n st = st\<lparr>sc_units := sc_units st + n\<rparr>"

definition no_scalar :: "bytes \<Rightarrow> bool" where
  "no_scalar r = (case r of [] \<Rightarrow> True | c # _ \<Rightarrow> \<not> is_scalar_byte c)"

lemma add_units_simps [simp]:
  "sc_units (add_units n st) = sc_units st + n"
  "sc_under_proof (add_units n st) = sc_under_proof st"
  "sc_depth (add_units n st) = sc_depth st"
  "add_units m (add_units n st) = add_units (n + m) st"
  "add_units 0 st = st"
  by (simp_all add: add_units_def)

lemma scan_all_string:
  assumes "string_ok s"
  shows "scan_all Full st (quote # s @ quote # r) = scan_all Full (add_units 1 st) r"
  using string_end_ok [OF assms, of r] by (simp add: scan_all.simps(2) scan_byte_def add_units_def Let_def)

lemma scan_all_scalar:
  assumes "scalar_ok b" "no_scalar r" "\<not> sc_under_proof st"
  shows "scan_all Full st (b @ r) = scan_all Full (add_units 1 st) r"
proof -
  obtain c cs where b: "b = c # cs" and c: "c = 0x2D \<or> is_digit c \<or> is_lower c"
    and cs: "list_all is_scalar_byte cs"
    using assms(1) by (auto simp: scalar_ok_def split: list.splits)
  have "dropWhile is_scalar_byte (cs @ r) = r"
    using cs assms(2) by (simp add: dropWhile_append no_scalar_def list_all_iff split: list.splits)
  moreover have "c \<noteq> quote" "c \<noteq> 0x5B" "c \<noteq> 0x7B" "c \<noteq> 0x5D" "c \<noteq> 0x7D"
    using c by (auto simp: quote_def is_digit_def is_lower_def)
  ultimately show ?thesis
    using c assms(3) by (auto simp: scan_all.simps(2) b scan_byte_def add_units_def Let_def)
qed

lemma scan_all_other:
  assumes "c \<in> {0x2C, 0x3A}"
  shows "scan_all budget st (c # r) = scan_all budget st r"
  using assms by (auto simp: scan_all.simps(2) scan_byte_def quote_def is_digit_def is_lower_def)

lemma scan_all_open:
  assumes "c \<in> {0x5B, 0x7B}"
  shows "scan_all budget st (c # r)
    = scan_all budget (add_units CONTAINER_COST st\<lparr>sc_depth := sc_depth st + 1\<rparr>) r"
  using assms by (auto simp: scan_all.simps(2) scan_byte_def quote_def add_units_def)

lemma scan_all_close:
  assumes "c \<in> {0x5D, 0x7D}" "\<not> sc_under_proof st"
  shows "scan_all budget st (c # r) = scan_all budget (st\<lparr>sc_depth := sc_depth st - 1\<rparr>) r"
proof -
  have "st\<lparr>sc_depth := d, sc_under_proof := False\<rparr> = st\<lparr>sc_depth := d\<rparr>" for d
    using assms(2) by (cases st) simp
  with assms(1) show ?thesis by (auto simp: scan_all.simps(2) scan_byte_def quote_def Let_def)
qed

lemma no_scalar_simps [simp]:
  "no_scalar []" "no_scalar (0x2C # r)" "no_scalar (0x5D # r)" "no_scalar (0x7D # r)"
  by (simp_all add: no_scalar_def is_scalar_byte_def is_digit_def is_lower_def)

definition scans_as :: "bytes \<Rightarrow> nat \<Rightarrow> bool" where
  "scans_as p u \<longleftrightarrow> (\<forall>st r. no_scalar r \<longrightarrow> \<not> sc_under_proof st \<longrightarrow>
     scan_all Full st (p @ r) = scan_all Full (add_units u st) r)"

lemma scan_all_commas:
  assumes "list_all2 scans_as ps us" "no_scalar r" "\<not> sc_under_proof st"
  shows "scan_all Full st (commas ps @ r) = scan_all Full (add_units (sum_list us) st) r"
  using assms
proof (induction ps arbitrary: us st rule: commas.induct)
  case (3 b c bs)
  then obtain u us' where us: "us = u # us'" "scans_as b u" "list_all2 scans_as (c # bs) us'"
    by (auto simp: list_all2_Cons1)
  have "scan_all Full st (commas (b # c # bs) @ r)
      = scan_all Full (add_units u st) (commas (c # bs) @ r)"
    using us(2) 3(4) scan_all_other [of "0x2C"] by (simp add: scans_as_def)
  also have "\<dots> = scan_all Full (add_units (sum_list us') (add_units u st)) r"
    using 3 us by simp
  finally show ?case by (simp add: us)
qed (auto simp: list_all2_Cons1 scans_as_def)

lemma scan_all_container:
  assumes "a \<in> {0x5B, 0x7B}" "z \<in> {0x5D, 0x7D}" "list_all2 scans_as ps us"
  shows "scans_as (a # commas ps @ [z]) (CONTAINER_COST + sum_list us)"
  unfolding scans_as_def
proof (intro allI impI)
  fix st :: scan_state and r
  assume st: "\<not> sc_under_proof st"
  let ?in = "add_units CONTAINER_COST st\<lparr>sc_depth := sc_depth st + 1\<rparr>"
  have ns: "no_scalar (z # r)" using assms(2) by auto
  have "scan_all Full st ((a # commas ps @ [z]) @ r) = scan_all Full ?in (commas ps @ z # r)"
    using scan_all_open [OF assms(1)] by simp
  also have "\<dots> = scan_all Full (add_units (sum_list us) ?in) (z # r)"
    using scan_all_commas [OF assms(3) ns, of ?in] st by simp
  also have "\<dots> = scan_all Full (add_units (CONTAINER_COST + sum_list us) st) r"
    using st scan_all_close [OF assms(2)] by (simp add: add_units_def add.assoc)
  finally show "scan_all Full st ((a # commas ps @ [z]) @ r)
      = scan_all Full (add_units (CONTAINER_COST + sum_list us) st) r" .
qed

lemma scan_all_json: "json_ok v \<Longrightarrow> scans_as (print_json v) (json_units v)"
proof (induction v)
  case (JScalar b)
  then show ?case by (simp add: scans_as_def scan_all_scalar)
next
  case (JStr s)
  then show ?case by (simp add: scans_as_def scan_all_string)
next
  case (JArr vs)
  then have "list_all2 scans_as (map print_json vs) (map json_units vs)"
    by (simp add: list_all2_map1 list_all2_map2 list_all2_same list_all_iff)
  then show ?case using scan_all_container [of "0x5B" "0x5D"] by simp
next
  case (JObj kvs)
  have "scans_as (quote # k @ quote # 0x3A # print_json v) (1 + json_units v)"
    if "(k, v) \<in> set kvs" for k v
  proof -
    have "string_ok k" "json_ok v" using JObj.prems that by (auto simp: list_all_iff)
    then show ?thesis
      using JObj.IH [OF that] scan_all_other [of "0x3A"]
      by (simp add: scans_as_def scan_all_string snds.intros)
  qed
  then have "list_all2 scans_as
      (map (\<lambda>(k, p). quote # k @ quote # 0x3A # p) (map (map_prod id print_json) kvs))
      (map (\<lambda>(k, u). 1 + u) (map (map_prod id json_units) kvs))"
    by (auto simp: list_all2_map1 list_all2_map2 simp: list_all2_same)
  then show ?case using scan_all_container [of "0x7B" "0x7D"] by simp
qed



end
