(* ===== verification/Grovedb_Envelope.thy ===== *)
theory Grovedb_Envelope
  imports Errors
begin

text \<open>
  The checks of a GroveDB proof (\<open>src/src/grovedb_envelope.rs\<close>): the bounds check of its
  encoding, the descent of the query path, the checks of each layer's merk operations, and the
  verification of one item.

  GroveDB, merk's decoder and bincode are parameters, the record \<open>grovedb\<close>. A map of lower
  layers is the list of its entries in key order. The scanner's functions return the value read
  and the bytes left.
\<close>

section \<open>Proofs\<close>

datatype layer_proof = LayerProof (merk_proof: bytes) (lower_layers: "(bytes \<times> layer_proof) list")

record proof_v0 =
  pv_root_layer :: layer_proof
  pv_decrease_limit :: bool

datatype element = Item bytes "bytes option" | Other_element

datatype node =
    Hash bytes
  | KVHash bytes
  | KVDigest bytes bytes
  | KV bytes bytes
  | KVValueHash bytes bytes bytes
  | KVValueHashFeatureType bytes bytes bytes
  | KVRefValueHash bytes bytes bytes

datatype op = Push node | PushInverted node | Parent | ParentInverted | Child | ChildInverted

type_synonym query_results = "(bytes list \<times> bytes \<times> element option) list"

record grovedb =
  gdb_decode_proof :: "nat \<Rightarrow> bytes \<Rightarrow> (str, proof_v0 \<times> nat) result"
  gdb_default_decrease_limit :: bool
  gdb_decoder :: "bytes \<Rightarrow> (str, op) result list"
  gdb_decode_element :: "nat \<Rightarrow> bytes \<Rightarrow> (str, element) result"
  gdb_limit_exceeded :: str
  gdb_verify_query :: "bytes \<Rightarrow> bytes list \<Rightarrow> bytes \<Rightarrow> (str, bytes \<times> query_results) result"
  gdb_layer_entry_size :: nat

definition MAX_LAYER_DEPTH :: nat where "MAX_LAYER_DEPTH = 64"
definition MAX_LAYERS :: nat where "MAX_LAYERS = 1024"
definition MAX_PROOF_BYTES :: nat where "MAX_PROOF_BYTES = 2 ^ 20"
definition MAX_ELEMENT_BYTES :: nat where "MAX_ELEMENT_BYTES = MAX_PROOF_BYTES"
definition AMBIGUOUS_ELEMENT_LEN :: nat where "AMBIGUOUS_ELEMENT_LEN = 63"

definition ENVELOPE_DECODE_LIMIT :: "grovedb \<Rightarrow> nat" where
  "ENVELOPE_DECODE_LIMIT G = MAX_PROOF_BYTES + MAX_LAYERS * gdb_layer_entry_size G"

definition envelope_error :: "str \<Rightarrow> arg list \<Rightarrow> willow_error" where
  "envelope_error m xs = ProofVerificationFailed (Fmt (''GroveDB envelope: '' @ m) xs)"

definition layer_error :: "str \<Rightarrow> arg list \<Rightarrow> willow_error" where
  "layer_error m xs = ProofVerificationFailed (Fmt (''GroveDB layer: '' @ m) xs)"

section \<open>Scanning the encoding\<close>

definition scan_take :: "nat \<Rightarrow> bytes \<Rightarrow> (bytes \<times> bytes) res" where
  "scan_take n bs =
     (if n > length bs
      then Inl (envelope_error ''a length of {n} with {} bytes left'' [Num n, Num (length bs)])
      else Inr (take n bs, drop n bs))"

definition scan_skip :: "nat \<Rightarrow> bytes \<Rightarrow> bytes res" where
  "scan_skip n bs = rbind (scan_take n bs) (\<lambda>(_, r). Inr r)"

definition scan_varint :: "bytes \<Rightarrow> (u64 \<times> bytes) res" where
  "scan_varint bs =
     rbind (scan_take 1 bs) (\<lambda>(t, r).
       let b = hd t;
           wide = (\<lambda>width. rbind (scan_take width r) (\<lambda>(ds, r').
             Inr (foldl (\<lambda>v b. push_bit 8 v OR ucast b) 0 ds, r')))
       in if b \<le> 250 then Inr (ucast b, r)
          else if b = 251 then wide 2
          else if b = 252 then wide 4
          else if b = 253 then wide 8
          else Inl (envelope_error ''varint tag {b}'' [Num (unat b)]))"

definition scan_len :: "bytes \<Rightarrow> (nat \<times> bytes) res" where
  "scan_len bs =
     rbind (scan_varint bs) (\<lambda>(n, r).
       if unat n > length r
       then Inl (envelope_error ''a length of {n} with {} bytes left'' [Num (unat n), Num (length r)])
       else Inr (unat n, r))"

text \<open>
  The loop over layers. \<open>opens\<close> is the stack \<open>open\<close>, its top first: how many lower layers are
  left of each layer being read. A turn reads one layer and then the key of the next.
\<close>

function scan_layers :: "bytes \<Rightarrow> u64 list \<Rightarrow> nat \<Rightarrow> bytes res" where
  "scan_layers bs opens layers0 =
     (let layers = layers0 + 1 in
      if layers > MAX_LAYERS then Inl (envelope_error ''more than {MAX_LAYERS} layers'' [])
      else if length opens > MAX_LAYER_DEPTH
      then Inl (envelope_error ''layers nest deeper than {MAX_LAYER_DEPTH}'' [])
      else
        (case rbind (scan_len bs) (\<lambda>(merk_proof, bs).
              rbind (scan_skip merk_proof bs) scan_varint) of
           Inl e \<Rightarrow> Inl e
         | Inr (lower, bs) \<Rightarrow>
             if unat lower > length bs div 3
             then Inl (envelope_error ''{lower} lower layers in {} bytes''
                    [Num (unat lower), Num (length bs)])
             else
               (case dropWhile (\<lambda>left. left = 0) (lower # opens) of
                  [] \<Rightarrow> Inr bs
                | left # rest \<Rightarrow>
                    (case rbind (scan_len bs) (\<lambda>(key, bs). scan_skip key bs) of
                       Inl e \<Rightarrow> Inl e
                     | Inr bs \<Rightarrow> scan_layers bs ((left - 1) # rest) layers))))"
  by pat_completeness auto
termination
  by (relation "measure (\<lambda>(_, _, layers). MAX_LAYERS - layers)") auto

declare scan_layers.simps [simp del]

definition scan_envelope :: "bytes \<Rightarrow> unit res" where
  "scan_envelope proof =
     (if length proof > MAX_PROOF_BYTES
      then Inl (envelope_error ''{} bytes; at most {MAX_PROOF_BYTES} are accepted'' [Num (length proof)])
      else
        rbind (scan_varint proof) (\<lambda>(version, bs).
        if version \<noteq> 0 then Inl (envelope_error ''not a V0 proof'' [])
        else
          rbind (scan_layers bs [] 0) (\<lambda>bs.
          rbind (scan_take 1 bs) (\<lambda>(b, bs).
          if b \<noteq> [0] \<and> b \<noteq> [1] then Inl (envelope_error ''prove_options is not a boolean'' [])
          else if bs \<noteq> [] then Inl (envelope_error ''{} trailing bytes'' [Num (length bs)])
          else Inr ()))))"

definition decode_envelope :: "grovedb \<Rightarrow> bytes \<Rightarrow> proof_v0 res" where
  "decode_envelope G proof =
     rbind (scan_envelope proof) (\<lambda>_.
     rbind (map_err (\<lambda>e. envelope_error ''{}'' [Str e])
              (gdb_decode_proof G (ENVELOPE_DECODE_LIMIT G) proof)) (\<lambda>(v0, used).
     if used \<noteq> length proof
     then Inl (envelope_error ''{} trailing bytes'' [Num (length proof - used)])
     else Inr v0))"

section \<open>Descending the query path\<close>

fun descend :: "nat \<Rightarrow> layer_proof \<Rightarrow> bytes list \<Rightarrow> layer_proof res" where
  "descend depth layer [] = Inr layer"
| "descend depth layer (seg # path) =
     (case map_of (lower_layers layer) seg of
        None \<Rightarrow> Inl (envelope_error ''no lower layer for path segment {depth} ({})''
                  [Num depth, Hex seg])
      | Some lower \<Rightarrow> descend (depth + 1) lower path)"

definition layer_at_path :: "grovedb \<Rightarrow> proof_v0 \<Rightarrow> bytes list \<Rightarrow> layer_proof res" where
  "layer_at_path G v0 path =
     (if pv_decrease_limit v0 \<noteq> gdb_default_decrease_limit G
      then Inl (envelope_error ''non-default prove_options'' [])
      else rbind (descend 0 (pv_root_layer v0) path) (\<lambda>layer.
        if lower_layers layer \<noteq> []
        then Inl (envelope_error ''unexpected lower layers below the query path'' [])
        else Inr layer))"

definition check_envelope :: "grovedb \<Rightarrow> bytes \<Rightarrow> bytes list \<Rightarrow> unit res" where
  "check_envelope G proof path =
     rbind (decode_envelope G proof) (\<lambda>v0. rbind (layer_at_path G v0 path) (\<lambda>_. Inr ()))"

lemma size_lower_layers: "size_list size (map snd (lower_layers l)) < size l"
proof -
  have "size_list size (map snd es) \<le> size_list (size_prod (\<lambda>x. 0) size) es"
    for es :: "(bytes \<times> layer_proof) list"
    by (induction es) auto
  then show ?thesis by (cases l) (simp add: le_imp_less_Suc)
qed

lemma size_list_rev [simp]: "size_list f (rev xs) = size_list f xs"
  by (induction xs) auto

function descent :: "layer_proof \<Rightarrow> bytes list \<Rightarrow> bytes list res" where
  "descent layer path =
     (case lower_layers layer of
        [] \<Rightarrow> Inr path
      | (key, lower) # _ \<Rightarrow>
          if length (lower_layers layer) > 1
          then Inl (envelope_error ''a layer with more than one lower layer'' [])
          else descent lower (path @ [key]))"
  by pat_completeness auto
termination
proof (relation "measure (\<lambda>(layer, _). size layer)")
  fix layer path p rest key lower
  assume l: "lower_layers layer = p # rest" "(key, lower) = p"
  have "size_list size (map snd (lower_layers layer)) = Suc (size lower + size_list size (map snd rest))"
    unfolding l(1) l(2) [symmetric] by simp
  then show "((lower, path @ [key]), layer, path) \<in> measure (\<lambda>(layer, _). size layer)"
    using size_lower_layers [of layer] by simp
qed simp

definition descended_path :: "grovedb \<Rightarrow> bytes \<Rightarrow> bytes list res" where
  "descended_path G proof = rbind (decode_envelope G proof) (\<lambda>v0. descent (pv_root_layer v0) [])"

section \<open>The elements and operations of a layer\<close>

text \<open>\<open>next_power_of_two\<close>, of the least power \<open>2 ^ k\<close> and its exponent from \<open>k\<close> up.\<close>

function power_from :: "nat \<Rightarrow> nat \<Rightarrow> nat" where
  "power_from k n = (if n \<le> 2 ^ k then k else power_from (k + 1) n)"
  by pat_completeness auto
termination
proof (relation "measure (\<lambda>(k, n). n - k)")
  fix k n :: nat
  assume "\<not> n \<le> 2 ^ k"
  moreover have "k < 2 ^ k" by (rule less_exp)
  ultimately have "k < n" by linarith
  then show "((k + 1, n), k, n) \<in> measure (\<lambda>(k, n). n - k)" by simp
qed simp

declare descent.simps [simp del] power_from.simps [simp del]

definition decode_element :: "grovedb \<Rightarrow> bytes \<Rightarrow> element res" where
  "decode_element G val =
     (if length val > MAX_ELEMENT_BYTES
      then Inl (layer_error ''a node value of {} bytes'' [Num (length val)])
      else
        (let bits = power_from 0 (max (length val * 32) (2 ^ 10)) in
         map_err (\<lambda>e. layer_error ''a node value that is not an element: {e}'' [Str e])
           (if bits \<in> {10..25} then gdb_decode_element G (2 ^ bits) val
            else Inl (gdb_limit_exceeded G))))"

definition layer_ops :: "grovedb \<Rightarrow> layer_proof \<Rightarrow> op res list" where
  "layer_ops G layer = map (map_err (\<lambda>e. layer_error ''{e}'' [Str e])) (gdb_decoder G (merk_proof layer))"

fun node_value :: "node \<Rightarrow> bytes option" where
  "node_value (KV _ v) = Some v"
| "node_value (KVValueHash _ v _) = Some v"
| "node_value (KVValueHashFeatureType _ v _) = Some v"
| "node_value (KVRefValueHash _ v _) = Some v"
| "node_value _ = None"

definition is_hash :: "node \<Rightarrow> bool" where
  "is_hash n = (case n of Hash _ \<Rightarrow> True | _ \<Rightarrow> False)"

text \<open>\<open>stack\<close> says of each subtree built so far, the last first, whether its top is an opaque
  hash.\<close>

definition check_op :: "grovedb \<Rightarrow> bool list \<Rightarrow> op \<Rightarrow> bool list res" where
  "check_op G stack oper =
     (let push = (\<lambda>n. case node_value n of
            None \<Rightarrow> Inr (is_hash n # stack)
          | Some v \<Rightarrow> rbind (decode_element G v) (\<lambda>_. Inr (is_hash n # stack)));
          parent_op = (case stack of
            parent # _ # rest \<Rightarrow>
              if parent then Inl (layer_error ''a child attached to an opaque Hash node'' [])
              else Inr (parent # rest)
          | _ \<Rightarrow> Inl (layer_error ''a Parent op with fewer than two nodes'' []));
          child_op = (case stack of
            _ # parent # rest \<Rightarrow>
              if parent then Inl (layer_error ''a child attached to an opaque Hash node'' [])
              else Inr (parent # rest)
          | _ \<Rightarrow> Inl (layer_error ''a Child op with fewer than two nodes'' []))
      in case oper of
           Push n \<Rightarrow> push n
         | PushInverted n \<Rightarrow> push n
         | Parent \<Rightarrow> parent_op
         | ParentInverted \<Rightarrow> parent_op
         | Child \<Rightarrow> child_op
         | ChildInverted \<Rightarrow> child_op)"

fun check_ops_from :: "grovedb \<Rightarrow> bool list \<Rightarrow> op res list \<Rightarrow> unit res" where
  "check_ops_from G stack [] =
     (if length stack \<noteq> 1 then Inl (layer_error ''the ops don't build exactly one tree'' [])
      else Inr ())"
| "check_ops_from G stack (oper # ops) =
     rbind oper (\<lambda>oper. rbind (check_op G stack oper) (\<lambda>stack. check_ops_from G stack ops))"

definition check_ops :: "grovedb \<Rightarrow> op res list \<Rightarrow> unit res" where
  "check_ops G ops = check_ops_from G [] ops"

text \<open>The layers of a proof still to check are a stack; the last pushed is checked next.\<close>

function check_layer_stack :: "grovedb \<Rightarrow> layer_proof list \<Rightarrow> unit res" where
  "check_layer_stack G [] = Inr ()"
| "check_layer_stack G (layer # layers) =
     (case check_ops G (layer_ops G layer) of
        Inl e \<Rightarrow> Inl e
      | Inr _ \<Rightarrow> check_layer_stack G (rev (map snd (lower_layers layer)) @ layers))"
  by pat_completeness auto
termination
proof (relation "measure (\<lambda>(_, layers). size_list size layers)")
  fix G layer layers x
  show "((G, rev (map snd (lower_layers layer)) @ layers), G, layer # layers)
      \<in> measure (\<lambda>(_, layers). size_list size layers)"
    using size_lower_layers [of layer] by simp
qed simp

definition check_all_layers :: "grovedb \<Rightarrow> proof_v0 \<Rightarrow> unit res" where
  "check_all_layers G v0 = check_layer_stack G [pv_root_layer v0]"

definition check_layers :: "grovedb \<Rightarrow> bytes \<Rightarrow> unit res" where
  "check_layers G proof = rbind (decode_envelope G proof) (check_all_layers G)"

section \<open>Verifying one item\<close>

definition holds_only_items :: "bytes list \<Rightarrow> bool" where
  "holds_only_items path =
     (case path of
        [subgroves, _, data] \<Rightarrow> subgroves = str_bytes ''subgroves'' \<and> data = str_bytes ''data''
      | _ \<Rightarrow> False)"

fun node_key :: "node \<Rightarrow> bytes option" where
  "node_key (KV k _) = Some k"
| "node_key (KVValueHash k _ _) = Some k"
| "node_key (KVValueHashFeatureType k _ _) = Some k"
| "node_key (KVRefValueHash k _ _) = Some k"
| "node_key (KVDigest k _) = Some k"
| "node_key (Hash _) = None"
| "node_key (KVHash _) = None"

definition proof_error :: "str \<Rightarrow> arg list \<Rightarrow> willow_error" where
  "proof_error m xs = ProofVerificationFailed (Fmt m xs)"

fun pushed :: "op \<Rightarrow> node option" where
  "pushed (Push n) = Some n"
| "pushed (PushInverted n) = Some n"
| "pushed _ = None"

fun carried_node :: "bytes \<Rightarrow> node option \<Rightarrow> op res list \<Rightarrow> node option res" where
  "carried_node key carried [] = Inr carried"
| "carried_node key carried (oper # ops) =
     rbind oper (\<lambda>oper.
       case pushed oper of
         None \<Rightarrow> carried_node key carried ops
       | Some node \<Rightarrow>
           (case node_key node of
              None \<Rightarrow> carried_node key carried ops
            | Some k \<Rightarrow>
                if k \<noteq> key then carried_node key carried ops
                else if carried \<noteq> None then Inl (proof_error ''the proof carries the key twice'' [])
                else carried_node key (Some node) ops))"

definition carried_value :: "node option \<Rightarrow> bytes res" where
  "carried_value c =
     (case c of
        Some (KV _ v) \<Rightarrow> Inr v
      | Some _ \<Rightarrow> Inl (proof_error ''the proof carries the key's element in a node whose root doesn't bind its value'' [])
      | None \<Rightarrow> Inl (proof_error ''the proof doesn't carry the key's element'' []))"

definition single_item :: "query_results \<Rightarrow> (bytes list \<times> bytes \<times> bytes) res" where
  "single_item results =
     (case results of
        [(p, k, Some (Item b _))] \<Rightarrow> Inr (p, k, b)
      | _ \<Rightarrow> Inl (proof_error ''the proof doesn't prove exactly one item at the path and key'' []))"

definition verify_item_at_path :: "grovedb \<Rightarrow> bytes \<Rightarrow> bytes list \<Rightarrow> bytes \<Rightarrow> (bytes \<times> bytes) res" where
  "verify_item_at_path G proof path key =
     (if proof = [] then Inl (proof_error ''empty proof'' [])
      else
        rbind (decode_envelope G proof) (\<lambda>v0.
        rbind (layer_at_path G v0 path) (\<lambda>layer.
        rbind (check_all_layers G v0) (\<lambda>_.
        rbind (carried_node key None (layer_ops G layer)) (\<lambda>carried.
        rbind (carried_value carried) (\<lambda>val.
        if length val = AMBIGUOUS_ELEMENT_LEN \<and> \<not> holds_only_items path
        then Inl (proof_error ''the key's element is {AMBIGUOUS_ELEMENT_LEN} bytes'' [])
        else
          rbind (map_err (\<lambda>e. proof_error ''GroveDB proof verification failed: {e}'' [Str e])
                   (gdb_verify_query G proof path key)) (\<lambda>(root, results).
          rbind (single_item results) (\<lambda>(result_path, result_key, b).
          if result_path \<noteq> path \<or> result_key \<noteq> key
          then Inl (proof_error ''the proof proves an item at another path or key'' [])
          else
            (case decode_element G val of
               Inr (Item carried_bytes _) \<Rightarrow>
                 if carried_bytes = b then Inr (root, b)
                 else Inl (proof_error ''the item grovedb returns is not the one the proof's root binds'' [])
             | _ \<Rightarrow> Inl (proof_error ''the item grovedb returns is not the one the proof's root binds'' []))))))))))"


section \<open>The grammar of an envelope\<close>

text \<open>
  What an envelope may be, without a scanner: bincode's variable-length integers, a byte string
  as its length and its bytes, a layer as its operations and the list of its lower layers.
\<close>

definition varint_form :: "u64 \<Rightarrow> bytes \<Rightarrow> bool" where
  "varint_form v p \<longleftrightarrow> (case p of [] \<Rightarrow> False
     | t # ds \<Rightarrow> (t \<le> 250 \<and> ds = [] \<and> unat v = unat t)
         \<or> ((t, length ds) \<in> {(251, 2), (252, 4), (253, 8)} \<and> unat v = be_nat ds))"

definition string_form :: "bytes \<Rightarrow> bytes \<Rightarrow> bool" where
  "string_form s p \<longleftrightarrow> (\<exists>n q. varint_form n q \<and> unat n = length s \<and> p = q @ s)"

inductive layer_form :: "layer_proof \<Rightarrow> bytes \<Rightarrow> bool"
  and entries_form :: "(bytes \<times> layer_proof) list \<Rightarrow> bytes \<Rightarrow> bool" where
  layer: "string_form mp p \<Longrightarrow> varint_form m q \<Longrightarrow> unat m = length es \<Longrightarrow> entries_form es b \<Longrightarrow>
    layer_form (LayerProof mp es) (p @ q @ b)"
| empty: "entries_form [] []"
| entry: "string_form k p \<Longrightarrow> layer_form l b \<Longrightarrow> entries_form es c \<Longrightarrow>
    entries_form ((k, l) # es) (p @ b @ c)"

inductive_cases layer_formE: "layer_form (LayerProof mp es) b"
inductive_cases entries_formE: "entries_form ((k, l) # es) b"
inductive_simps entries_form_Nil [simp]: "entries_form [] b"

primrec layer_depth :: "layer_proof \<Rightarrow> nat" where
  "layer_depth (LayerProof mp es) =
     foldr max (map (\<lambda>(k, d). Suc d) (map (map_prod id layer_depth) es)) 0"

primrec layer_count :: "layer_proof \<Rightarrow> nat" where
  "layer_count (LayerProof mp es) = Suc (sum_list (map snd (map (map_prod id layer_count) es)))"

definition entries_depth :: "(bytes \<times> layer_proof) list \<Rightarrow> nat" where
  "entries_depth es = layer_depth (LayerProof [] es)"

definition entries_count :: "(bytes \<times> layer_proof) list \<Rightarrow> nat" where
  "entries_count es = layer_count (LayerProof [] es) - 1"

definition envelope_form :: "layer_proof \<Rightarrow> bool \<Rightarrow> bytes \<Rightarrow> bool" where
  "envelope_form l decrease b \<longleftrightarrow>
     (\<exists>z p. varint_form 0 z \<and> layer_form l p \<and> b = z @ p @ [if decrease then 1 else 0])"

lemma entries_simps [simp]:
  "entries_depth [] = 0"
  "entries_depth ((k, l) # es) = max (Suc (layer_depth l)) (entries_depth es)"
  "entries_count [] = 0"
  "entries_count ((k, l) # es) = layer_count l + entries_count es"
  by (simp_all add: entries_depth_def entries_count_def)

lemma layer_simps:
  "layer_depth (LayerProof mp es) = entries_depth es"
  "layer_count (LayerProof mp es) = Suc (entries_count es)"
  by (simp_all add: entries_depth_def entries_count_def)

declare layer_depth.simps [simp del] layer_count.simps [simp del] 
lemmas layer_simps [simp]

section \<open>What the scanner reads\<close>

lemma unat_push_byte:
  fixes v :: u64 and b :: u8
  assumes "unat v < 2 ^ 56"
  shows "unat (push_bit 8 v OR ucast b) = unat v * 256 + unat b"
proof -
  have "push_bit 8 v AND ucast b = 0"
  proof (rule bit_word_eqI)
    fix n
    have "\<not> bit b n" if "8 \<le> n" using that bit_imp_le_length [of b n] by fastforce
    then show "bit (push_bit 8 v AND ucast b) n \<longleftrightarrow> bit (0 :: u64) n"
      by (auto simp: bit_simps)
  qed
  then have "push_bit 8 v OR ucast b = push_bit 8 v + ucast b"
    by (rule disjunctive_add_eq_or [symmetric])
  moreover have "push_bit 8 v = v * 256" by (simp add: push_bit_eq_mult)
  moreover have "unat b < 256" using unat_lt2p [of b] by simp
  ultimately show ?thesis
    using assms by (simp add: unat_word_ariths)
qed

lemma unat_fold_bytes:
  "length ds \<le> 8 \<Longrightarrow>
   unat (foldl (\<lambda>v b. push_bit 8 v OR ucast b) (0 :: u64) ds) = be_nat ds"
proof (induction ds rule: rev_induct)
  case Nil
  then show ?case by (simp add: be_nat_def)
next
  case (snoc b ds)
  have "be_nat ds < 256 ^ length ds" by (rule be_nat_bound)
  also have "\<dots> \<le> 256 ^ 7" using snoc.prems by (intro power_increasing) simp_all
  finally have "be_nat ds < 2 ^ 56" by simp
  with snoc show ?case by (simp add: unat_push_byte be_nat_snoc)
qed

lemma scan_take_iff [result_simps]:
  "scan_take n bs = Inr (x, r) \<longleftrightarrow> bs = x @ r \<and> length x = n"
  by (auto simp: scan_take_def)

lemma scan_skip_iff [result_simps]: "scan_skip n bs = Inr r \<longleftrightarrow> (\<exists>x. bs = x @ r \<and> length x = n)"
  by (auto simp: scan_skip_def result_simps)

lemma scan_varint_iff [result_simps]:
  "scan_varint bs = Inr (v, r) \<longleftrightarrow> (\<exists>p. varint_form v p \<and> bs = p @ r)"
proof (cases bs)
  case Nil
  then show ?thesis by (auto simp: scan_varint_def scan_take_def varint_form_def)
next
  case (Cons t ts)
  have one: "scan_take (Suc 0) bs = Inr ([t], ts)" by (simp add: Cons scan_take_iff)
  have wide: "rbind (scan_take w ts) (\<lambda>(ds, r'). Inr (foldl (\<lambda>v b. push_bit 8 v OR ucast b) 0 ds, r'))
      = Inr (v, r) \<longleftrightarrow> (\<exists>ds. ts = ds @ r \<and> length ds = w \<and> unat v = be_nat ds)" if "w \<le> 8" for w
  proof -
    have "foldl (\<lambda>v b. push_bit 8 v OR ucast b) 0 ds = v \<longleftrightarrow> unat v = be_nat ds"
      if "length ds = w" for ds
      using that \<open>w \<le> 8\<close> unat_fold_bytes [of ds] by (auto simp: word_unat_eq_iff)
    then show ?thesis by (auto simp: rbind_Inr_iff scan_take_iff)
  qed
  have "(\<exists>p. varint_form v p \<and> bs = p @ r) \<longleftrightarrow>
      (t \<le> 250 \<and> ts = r \<and> unat v = unat t) \<or>
      (\<exists>ds. ts = ds @ r \<and> (t, length ds) \<in> {(251, 2), (252, 4), (253, 8)} \<and> unat v = be_nat ds)"
  proof -
    have "(\<exists>p. varint_form v p \<and> bs = p @ r) \<longleftrightarrow> (\<exists>ds. varint_form v (t # ds) \<and> ts = ds @ r)"
      by (auto simp: Cons varint_form_def Cons_eq_append_conv)
    then show ?thesis by (auto simp: varint_form_def)
  qed
  moreover have "scan_varint bs = Inr (v, r) \<longleftrightarrow>
      (t \<le> 250 \<and> ts = r \<and> unat v = unat t) \<or>
      (\<exists>ds. ts = ds @ r \<and> (t, length ds) \<in> {(251, 2), (252, 4), (253, 8)} \<and> unat v = be_nat ds)"
  proof -
    consider "t \<le> 250" | "t = 251" | "t = 252" | "t = 253" | "\<not> t \<le> 250" "t \<notin> {251, 252, 253}"
      by blast
    then show ?thesis
    proof cases
      case 1
      then have "t \<noteq> 251" "t \<noteq> 252" "t \<noteq> 253" by auto
      with 1 show ?thesis
        by (simp add: scan_varint_def one word_unat_eq_iff [of "ucast t"]) (auto simp: eq_commute)
    next
      case 2
      then show ?thesis using wide [of 2] by (simp add: scan_varint_def one conj_commute)
    next
      case 3
      then show ?thesis using wide [of 4] by (simp add: scan_varint_def one conj_commute)
    next
      case 4
      then show ?thesis using wide [of 8] by (simp add: scan_varint_def one conj_commute)
    next
      case 5
      then show ?thesis by (auto simp: scan_varint_def one)
    qed
  qed
  ultimately show ?thesis by simp
qed

lemma scan_len_iff [result_simps]:
  "scan_len bs = Inr (n, r) \<longleftrightarrow> (\<exists>v p. varint_form v p \<and> bs = p @ r \<and> n = unat v \<and> n \<le> length r)"
  unfolding scan_len_def rbind_Inr_iff
  by (auto simp: scan_varint_iff not_less split: if_splits)

lemma scan_string_iff:
  "rbind (scan_len bs) (\<lambda>(n, bs). scan_skip n bs) = Inr r \<longleftrightarrow> (\<exists>s p. string_form s p \<and> bs = p @ r)"
  unfolding rbind_Inr_iff
  by (auto simp: scan_len_iff scan_skip_iff string_form_def) (metis append.assoc le_add1 length_append)+

lemma scan_head_iff:
  "rbind (scan_len bs) (\<lambda>(n, bs). rbind (scan_skip n bs) scan_varint) = Inr (m, r) \<longleftrightarrow>
     (\<exists>s p q. string_form s p \<and> varint_form m q \<and> bs = p @ q @ r)"
proof -
  have "rbind (scan_len bs) (\<lambda>(n, bs). rbind (scan_skip n bs) scan_varint)
      = rbind (rbind (scan_len bs) (\<lambda>(n, bs). scan_skip n bs)) scan_varint"
    by (cases "scan_len bs") auto
  also have "\<dots> = Inr (m, r) \<longleftrightarrow> (\<exists>s p q. string_form s p \<and> varint_form m q \<and> bs = p @ q @ r)"
    unfolding rbind_Inr_iff [of _ scan_varint] scan_string_iff scan_varint_iff by blast
  finally show ?thesis .
qed

section \<open>The stack of layers and the grammar\<close>

text \<open>What is left to read of the layers on the stack: the entries of each level, the innermost
  level first.\<close>

inductive stack_form :: "u64 list \<Rightarrow> (bytes \<times> layer_proof) list list \<Rightarrow> bytes \<Rightarrow> bool" where
  none: "stack_form [] [] []"
| level: "unat v = length es \<Longrightarrow> entries_form es b \<Longrightarrow> stack_form vs ess c \<Longrightarrow>
    stack_form (v # vs) (es # ess) (b @ c)"

inductive_cases stack_form_ConsE: "stack_form (v # vs) ess b"
inductive_simps stack_form_Nil [simp]: "stack_form [] ess b"

fun stack_fits :: "(bytes \<times> layer_proof) list list \<Rightarrow> bool" where
  "stack_fits [] = True"
| "stack_fits (es # ess) \<longleftrightarrow> (es = [] \<or> entries_depth es + length ess \<le> MAX_LAYER_DEPTH) \<and> stack_fits ess"

definition stack_count :: "(bytes \<times> layer_proof) list list \<Rightarrow> nat" where
  "stack_count ess = sum_list (map entries_count ess)"

lemma stack_count_simps [simp]:
  "stack_count [] = 0" "stack_count (es # ess) = entries_count es + stack_count ess"
  by (simp_all add: stack_count_def)

lemma stack_form_length: "stack_form vs ess b \<Longrightarrow> length ess = length vs"
  by (induction rule: stack_form.induct) simp_all

text \<open>Levels with nothing left add nothing.\<close>

lemma stack_form_dropWhile:
  assumes "stack_form (dropWhile (\<lambda>v. v = 0) vs) ess b" "stack_fits ess"
  shows "\<exists>ess'. stack_form vs ess' b \<and> stack_fits ess' \<and> stack_count ess' = stack_count ess"
  using assms(1)
proof (induction vs)
  case Nil
  then show ?case using assms(2) by auto
next
  case (Cons v vs)
  show ?case
  proof (cases "v = 0")
    case True
    with Cons obtain ess' where "stack_form vs ess' b" "stack_fits ess'"
      "stack_count ess' = stack_count ess" by auto
    then have "stack_form (v # vs) ([] # ess') ([] @ b)"
      using True by (intro stack_form.level) (auto intro: layer_form_entries_form.empty)
    then show ?thesis
      using \<open>stack_fits ess'\<close> \<open>stack_count ess' = stack_count ess\<close>
      by (intro exI [of _ "[] # ess'"]) simp
  next
    case False
    with Cons.prems assms(2) show ?thesis by auto
  qed
qed

lemma stack_form_dropWhileD:
  assumes "stack_form vs ess b" "stack_fits ess"
  shows "\<exists>ess'. stack_form (dropWhile (\<lambda>v. v = 0) vs) ess' b \<and> stack_fits ess'
    \<and> stack_count ess' = stack_count ess"
  using assms
proof (induction rule: stack_form.induct)
  case none
  then show ?case by (auto intro: stack_form.none)
next
  case (level v es b vs ess c)
  show ?case
  proof (cases "v = 0")
    case True
    with level.hyps have "es = []" "b = []" by auto
    with level True show ?thesis by auto
  next
    case False
    with level.hyps level.prems show ?thesis
      by (intro exI [of _ "es # ess"]) (auto intro: stack_form.level)
  qed
qed

lemma layer_form_iff:
  "layer_form (LayerProof mp es) b \<longleftrightarrow> (\<exists>p m q c. string_form mp p \<and> varint_form m q
     \<and> unat m = length es \<and> entries_form es c \<and> b = p @ q @ c)"
  by (auto elim!: layer_formE intro: layer_form_entries_form.layer)

abbreviation "scan_head bs \<equiv> rbind (scan_len bs) (\<lambda>(n, bs). rbind (scan_skip n bs) scan_varint)"

abbreviation "scan_key bs \<equiv> rbind (scan_len bs) (\<lambda>(n, bs). scan_skip n bs)"

lemma scan_layers_Inr_iff:
  "scan_layers bs opens n = Inr rest \<longleftrightarrow>
     n + 1 \<le> MAX_LAYERS \<and> length opens \<le> MAX_LAYER_DEPTH \<and>
     (\<exists>lower bs1. scan_head bs = Inr (lower, bs1) \<and> unat lower \<le> length bs1 div 3 \<and>
        (case dropWhile (\<lambda>left. left = 0) (lower # opens) of
           [] \<Rightarrow> bs1 = rest
         | left # opens' \<Rightarrow> \<exists>bs2. scan_key bs1 = Inr bs2
             \<and> scan_layers bs2 ((left - 1) # opens') (n + 1) = Inr rest))"
proof -
  have tail: "(case ls of [] \<Rightarrow> Inr bs1
      | left # rest \<Rightarrow> (case scan_key bs1 of Inl e \<Rightarrow> Inl e
          | Inr bs \<Rightarrow> scan_layers bs ((left - 1) # rest) (n + 1))) = Inr rest \<longleftrightarrow>
    (case ls of [] \<Rightarrow> bs1 = rest
         | left # opens' \<Rightarrow> \<exists>bs2. scan_key bs1 = Inr bs2
             \<and> scan_layers bs2 ((left - 1) # opens') (n + 1) = Inr rest)" for ls bs1
    by (cases ls; cases "scan_key bs1") simp_all
  show ?thesis
    unfolding scan_layers.simps [of bs opens n] Let_def
    by (cases "scan_head bs") (simp_all only: tail not_less split: prod.splits sum.splits if_splits, auto)
qed

text \<open>The layer just read, with what is read of the level it opens.\<close>

lemma stack_form_pop:
  assumes "string_form mp p" "varint_form lower q" "stack_form (lower # opens) ess c"
    "stack_fits ess" "length opens \<le> MAX_LAYER_DEPTH"
  obtains l ess' b c' where "layer_form l b" "stack_form opens ess' c'" "p @ q @ c = b @ c'"
    "layer_count l + stack_count ess' = Suc (stack_count ess)"
    "layer_depth l + length opens \<le> MAX_LAYER_DEPTH" "stack_fits ess'"
proof -
  from assms(3) obtain es ess' c1 c2 where st: "ess = es # ess'" "c = c1 @ c2"
    "unat lower = length es" "entries_form es c1" "stack_form opens ess' c2"
    by (auto elim: stack_form_ConsE)
  have "length ess' = length opens" using st(5) by (rule stack_form_length)
  then show thesis
    using assms(1,2,4,5) st
    by (intro that [of "LayerProof mp es" "p @ q @ c1" ess' c2])
      (auto intro: layer_form_entries_form.layer)
qed

lemma stack_form_push:
  assumes "left \<noteq> 0" "string_form k p" "layer_form l b" "stack_form ((left - 1) # opens) ess c"
    "layer_depth l + Suc (length opens) \<le> MAX_LAYER_DEPTH" "stack_fits ess"
  obtains ess' where "stack_form (left # opens) ess' (p @ b @ c)" "stack_fits ess'"
    "stack_count ess' = layer_count l + stack_count ess"
proof -
  from assms(4) obtain es ess' c1 c2 where st: "ess = es # ess'" "c = c1 @ c2"
    "unat (left - 1) = length es" "entries_form es c1" "stack_form opens ess' c2"
    by (auto elim: stack_form_ConsE)
  have "unat left = length ((k, l) # es)"
    using st(3) assms(1) by (simp add: unat_minus_one unat_eq_0 Suc_diff_1 word_less_nat_alt)
      (metis Suc_pred assms(1) neq0_conv unat_eq_0)
  moreover have "entries_form ((k, l) # es) (p @ b @ c1)"
    using assms(2,3) st(4) by (rule layer_form_entries_form.entry)
  ultimately have "stack_form (left # opens) (((k, l) # es) # ess') ((p @ b @ c1) @ c2)"
    using st(5) by (rule stack_form.level)
  moreover have "length ess' = length opens" using st(5) by (rule stack_form_length)
  ultimately show thesis
    using assms(5,6) st by (intro that [of "((k, l) # es) # ess'"]) auto
qed

lemma dropWhile_zero_hd: "dropWhile (\<lambda>v. v = 0) xs = y # ys \<Longrightarrow> y \<noteq> 0"
  by (induction xs) (auto split: if_splits)

lemma scan_layers_sound:
  "scan_layers bs opens n = Inr rest \<Longrightarrow>
     \<exists>l ess p c. layer_form l p \<and> stack_form opens ess c \<and> bs = p @ c @ rest
       \<and> n + layer_count l + stack_count ess \<le> MAX_LAYERS
       \<and> layer_depth l + length opens \<le> MAX_LAYER_DEPTH \<and> stack_fits ess"
proof (induction "MAX_LAYERS - n" arbitrary: bs opens n rest rule: less_induct)
  case less
  obtain lower bs1 where fits: "n + 1 \<le> MAX_LAYERS" "length opens \<le> MAX_LAYER_DEPTH"
    and head: "scan_head bs = Inr (lower, bs1)"
    and turn: "case dropWhile (\<lambda>left. left = 0) (lower # opens) of
           [] \<Rightarrow> bs1 = rest
         | left # opens' \<Rightarrow> \<exists>bs2. scan_key bs1 = Inr bs2
             \<and> scan_layers bs2 ((left - 1) # opens') (n + 1) = Inr rest"
    using less.prems [THEN scan_layers_Inr_iff [THEN iffD1]] by (elim conjE exE) (rule that)
  from head obtain mp p q where pq: "string_form mp p" "varint_form lower q" "bs = p @ q @ bs1"
    by (auto simp: scan_head_iff)
  have "\<exists>ess c. stack_form (lower # opens) ess c \<and> bs1 = c @ rest
       \<and> n + 1 + stack_count ess \<le> MAX_LAYERS \<and> stack_fits ess"
  proof (cases "dropWhile (\<lambda>left. left = 0) (lower # opens)")
    case Nil
    with turn have "bs1 = rest" by simp
    moreover have "stack_form (dropWhile (\<lambda>left. left = 0) (lower # opens)) [] []"
      unfolding Nil by simp
    then obtain ess where "stack_form (lower # opens) ess []" "stack_fits ess" "stack_count ess = 0"
      using stack_form_dropWhile by fastforce
    ultimately show ?thesis using fits by (intro exI [of _ ess] exI [of _ "[]"]) simp
  next
    case (Cons left opens')
    with turn obtain bs2 where key: "scan_key bs1 = Inr bs2"
      and next_layer: "scan_layers bs2 ((left - 1) # opens') (n + 1) = Inr rest"
      by auto
    from key obtain k kp where kp: "string_form k kp" "bs1 = kp @ bs2"
      by (auto simp: scan_string_iff)
    have "MAX_LAYERS - (n + 1) < MAX_LAYERS - n" using fits by simp
    from less.hyps [OF this next_layer]
    obtain l ess c r where IH: "layer_form l r" "stack_form ((left - 1) # opens') ess c"
      "bs2 = r @ c @ rest" "n + 1 + layer_count l + stack_count ess \<le> MAX_LAYERS"
      "layer_depth l + Suc (length opens') \<le> MAX_LAYER_DEPTH" "stack_fits ess"
      by auto
    have "left \<noteq> 0" using Cons by (rule dropWhile_zero_hd)
    then obtain ess' where "stack_form (left # opens') ess' (kp @ r @ c)" "stack_fits ess'"
      "stack_count ess' = layer_count l + stack_count ess"
      using stack_form_push kp(1) IH by metis
    then obtain ess'' where "stack_form (lower # opens) ess'' (kp @ r @ c)"
      "stack_fits ess''" "stack_count ess'' = layer_count l + stack_count ess"
      using stack_form_dropWhile [of "lower # opens"] unfolding Cons by metis
    then show ?thesis
      using IH(3,4) kp(2) by (intro exI [of _ ess''] exI [of _ "kp @ r @ c"]) simp
  qed
  then obtain ess c where st: "stack_form (lower # opens) ess c" "bs1 = c @ rest"
    "n + 1 + stack_count ess \<le> MAX_LAYERS" "stack_fits ess"
    by blast
  obtain l ess' b c' where "layer_form l b" "stack_form opens ess' c'" "p @ q @ c = b @ c'"
    "layer_count l + stack_count ess' = Suc (stack_count ess)"
    "layer_depth l + length opens \<le> MAX_LAYER_DEPTH" "stack_fits ess'"
    by (rule stack_form_pop [OF pq(1,2) st(1,4) fits(2)])
  moreover have "bs = (p @ q @ c) @ rest" using pq(3) st(2) by simp
  ultimately show ?case
    using st(3) by (intro exI [of _ l] exI [of _ ess'] exI [of _ b] exI [of _ c']) simp
qed

lemma varint_form_length: "varint_form v p \<Longrightarrow> Suc 0 \<le> length p"
  by (cases p) (simp_all add: varint_form_def)

lemma string_form_length: "string_form s p \<Longrightarrow> Suc (length s) \<le> length p"
  using varint_form_length by (fastforce simp: string_form_def)

lemma form_lengths:
  "layer_form l b \<Longrightarrow> 2 \<le> length b"
  "entries_form es b \<Longrightarrow> 3 * length es \<le> length b"
proof (induction rule: layer_form_entries_form.inducts)
  case (layer mp p m q es b)
  then have "1 \<le> length p" "1 \<le> length q"
    using string_form_length [of mp p] varint_form_length [of m q] by simp_all
  then show ?case by simp
next
  case (entry k p l b es c)
  then show ?case using string_form_length [of k p] by simp
qed simp

lemma scan_layers_complete:
  "layer_form l p \<Longrightarrow> stack_form opens ess c \<Longrightarrow> n + layer_count l + stack_count ess \<le> MAX_LAYERS \<Longrightarrow>
   layer_depth l + length opens \<le> MAX_LAYER_DEPTH \<Longrightarrow> stack_fits ess \<Longrightarrow>
   scan_layers (p @ c @ rest) opens n = Inr rest"
proof (induction "MAX_LAYERS - n" arbitrary: l p opens ess c n rule: less_induct)
  case less
  obtain mp es where l: "l = LayerProof mp es" by (cases l)
  with less.prems(1) obtain p1 m q b where lf: "string_form mp p1" "varint_form m q"
    "unat m = length es" "entries_form es b" "p = p1 @ q @ b"
    by (auto simp: layer_form_iff)
  have st: "stack_form (m # opens) (es # ess) (b @ c)"
    using lf(3,4) less.prems(2) by (rule stack_form.level)
  have len: "length ess = length opens" using less.prems(2) by (rule stack_form_length)
  have fits: "n + 1 \<le> MAX_LAYERS" "length opens \<le> MAX_LAYER_DEPTH" "stack_fits (es # ess)"
    "n + 1 + stack_count (es # ess) \<le> MAX_LAYERS"
    using less.prems l len by auto
  have head: "scan_head (p @ c @ rest) = Inr (m, b @ c @ rest)"
    using lf(1,2,5) by (auto simp: scan_head_iff)
  have small: "unat m \<le> length (b @ c @ rest) div 3"
    using form_lengths(2) [OF lf(4)] lf(3) by simp
  have "case dropWhile (\<lambda>left. left = 0) (m # opens) of
           [] \<Rightarrow> b @ c @ rest = rest
         | left # opens' \<Rightarrow> \<exists>bs2. scan_key (b @ c @ rest) = Inr bs2
             \<and> scan_layers bs2 ((left - 1) # opens') (n + 1) = Inr rest"
  proof (cases "dropWhile (\<lambda>left. left = 0) (m # opens)")
    case Nil
    from stack_form_dropWhileD [OF st fits(3)] have "b @ c = []" unfolding Nil by auto
    with Nil show ?thesis by simp
  next
    case (Cons left opens')
    from stack_form_dropWhileD [OF st fits(3), unfolded Cons]
    obtain ess1 where e1: "stack_form (left # opens') ess1 (b @ c)" "stack_fits ess1"
      "stack_count ess1 = stack_count (es # ess)" by (elim conjE exE) (rule that)
    have "left \<noteq> 0" using Cons by (rule dropWhile_zero_hd)
    from e1(1) obtain es1 ess2 c1 c2 where e2: "ess1 = es1 # ess2" "b @ c = c1 @ c2"
      "unat left = length es1" "entries_form es1 c1" "stack_form opens' ess2 c2"
      by (auto elim: stack_form_ConsE)
    then obtain k l' es' where es1: "es1 = (k, l') # es'"
      using \<open>left \<noteq> 0\<close> by (cases es1) (auto simp: unat_eq_0)
    with e2(4) obtain kp r c3 where en: "string_form k kp" "layer_form l' r" "entries_form es' c3"
      "c1 = kp @ r @ c3" by (auto elim: entries_formE)
    have "unat (left - 1) = length es'"
      using e2(3) es1 \<open>left \<noteq> 0\<close> by (simp add: unat_minus_one)
    then have st': "stack_form ((left - 1) # opens') (es' # ess2) (c3 @ c2)"
      using en(3) e2(5) by (rule stack_form.level)
    have "length ess2 = length opens'" using e2(5) by (rule stack_form_length)
    then have "layer_depth l' + length ((left - 1) # opens') \<le> MAX_LAYER_DEPTH"
      "stack_fits (es' # ess2)"
      using e1(2) e2(1) es1 by auto
    moreover have "n + 1 + layer_count l' + stack_count (es' # ess2) \<le> MAX_LAYERS"
      using fits(4) e1(3) e2(1) es1 by simp
    moreover have "MAX_LAYERS - (n + 1) < MAX_LAYERS - n" using fits(1) by simp
    ultimately have "scan_layers (r @ (c3 @ c2) @ rest) ((left - 1) # opens') (n + 1) = Inr rest"
      using less.hyps en(2) st' by blast
    moreover have "b @ c @ rest = kp @ (r @ (c3 @ c2) @ rest)"
      using e2(2) en(4) by (metis append.assoc)
    then have "scan_key (b @ c @ rest) = Inr (r @ (c3 @ c2) @ rest)"
      using en(1) by (auto simp: scan_string_iff)
    ultimately show ?thesis unfolding Cons by simp
  qed
  then show ?case
    using fits head small by (intro scan_layers_Inr_iff [THEN iffD2] conjI exI)
qed

lemma scan_layers_iff:
  "scan_layers bs [] 0 = Inr rest \<longleftrightarrow>
     (\<exists>l p. layer_form l p \<and> bs = p @ rest \<and> layer_count l \<le> MAX_LAYERS \<and> layer_depth l \<le> MAX_LAYER_DEPTH)"
proof
  assume "scan_layers bs [] 0 = Inr rest"
  from scan_layers_sound [OF this]
  show "\<exists>l p. layer_form l p \<and> bs = p @ rest \<and> layer_count l \<le> MAX_LAYERS \<and> layer_depth l \<le> MAX_LAYER_DEPTH"
    by auto
next
  assume "\<exists>l p. layer_form l p \<and> bs = p @ rest \<and> layer_count l \<le> MAX_LAYERS \<and> layer_depth l \<le> MAX_LAYER_DEPTH"
  then obtain l p where "layer_form l p" "bs = p @ rest" "layer_count l \<le> MAX_LAYERS"
    "layer_depth l \<le> MAX_LAYER_DEPTH" by blast
  then show "scan_layers bs [] 0 = Inr rest"
    using scan_layers_complete [of l p "[]" "[]" "[]" 0 rest] by simp
qed

lemma scan_envelope_iff:
  "scan_envelope proof = Inr () \<longleftrightarrow>
     length proof \<le> MAX_PROOF_BYTES \<and>
     (\<exists>l decrease. envelope_form l decrease proof \<and> layer_count l \<le> MAX_LAYERS
        \<and> layer_depth l \<le> MAX_LAYER_DEPTH)"
proof -
  have last: "(\<exists>r. bs = b @ r \<and> length b = Suc 0 \<and> (b = [0] \<or> b = [1]) \<and> r = []) \<longleftrightarrow>
      (bs = b \<and> (\<exists>d. b = [if d then 1 else 0]))" for b bs :: bytes
    by auto
  have "scan_envelope proof = Inr () \<longleftrightarrow> length proof \<le> MAX_PROOF_BYTES \<and>
      (\<exists>z bs b. varint_form 0 z \<and> proof = z @ bs \<and> scan_layers bs [] 0 = Inr b
        \<and> (\<exists>d. b = [if d then 1 else 0]))"
    unfolding scan_envelope_def if_Inr_iff rbind_Inr_iff not_less
    by (auto simp: rbind_Inr_iff scan_varint_iff scan_take_iff if_Inr_iff) 
  then show ?thesis
    unfolding envelope_form_def scan_layers_iff by fastforce
qed

lemma scan_envelope_accepts:
  "envelope_form l decrease proof \<Longrightarrow> length proof \<le> MAX_PROOF_BYTES \<Longrightarrow> layer_count l \<le> MAX_LAYERS \<Longrightarrow>
   layer_depth l \<le> MAX_LAYER_DEPTH \<Longrightarrow> scan_envelope proof = Inr ()"
  unfolding scan_envelope_iff by blast

text \<open>C15: the scanner, which keeps a stack and reads no layer recursively, accepts exactly the
  encodings of the grammar of at most \<open>MAX_PROOF_BYTES\<close> bytes, \<open>MAX_LAYERS\<close> layers and
  \<open>MAX_LAYER_DEPTH\<close> levels below the root: every length lies within the bytes left, and an honest
  envelope within the bounds is never refused.\<close>

theorem scan_envelope_exact:
  "scan_envelope proof = Inr () \<longleftrightarrow>
     length proof \<le> MAX_PROOF_BYTES \<and>
     (\<exists>l decrease. envelope_form l decrease proof \<and> layer_count l \<le> MAX_LAYERS
        \<and> layer_depth l \<le> MAX_LAYER_DEPTH)"
  by (rule scan_envelope_iff)


section \<open>The bound an element is decoded under\<close>

lemma power_from_spec:
  "n \<le> 2 ^ power_from k n \<and> k \<le> power_from k n \<and> (power_from k n = k \<or> 2 ^ (power_from k n - 1) < n)"
proof (induction k n rule: power_from.induct)
  case (1 k n)
  show ?case
  proof (cases "n \<le> 2 ^ k")
    case True
    then show ?thesis by (simp add: power_from.simps [of k n])
  next
    case False
    with 1 have IH: "n \<le> 2 ^ power_from (k + 1) n" "k + 1 \<le> power_from (k + 1) n"
      "power_from (k + 1) n = k + 1 \<or> 2 ^ (power_from (k + 1) n - 1) < n" by auto
    then show ?thesis using False by (auto simp: power_from.simps [of k n])
  qed
qed

text \<open>An element of a node's value is decoded under a limit proportional to the value: at least
  32 times its length and at least 1 KiB, less than twice that, and never refused for want of a
  class: every value within the cap has one.\<close>

theorem decode_element_bound:
  assumes "length val \<le> MAX_ELEMENT_BYTES"
  shows "\<exists>limit. decode_element G val =
      map_err (\<lambda>e. layer_error ''a node value that is not an element: {e}'' [Str e])
        (gdb_decode_element G limit val)
    \<and> max (32 * length val) 1024 \<le> limit \<and> limit < 2 * max (32 * length val) 1024"
proof -
  let ?n = "max (length val * 32) (2 ^ 10)"
  let ?k = "power_from 0 ?n"
  have le: "?n \<le> 2 ^ ?k" and lt: "?k = 0 \<or> 2 ^ (?k - 1) < ?n"
    using power_from_spec [of ?n 0] by auto
  have "(2 :: nat) ^ 10 \<le> 2 ^ ?k" using le by linarith
  then have k10: "10 \<le> ?k" by (rule power_le_imp_le_exp [rotated]) simp
  then have "2 ^ (?k - 1) < ?n" using lt by auto
  moreover have "?n \<le> 2 ^ 25" using assms by (simp add: MAX_ELEMENT_BYTES_def MAX_PROOF_BYTES_def)
  ultimately have "(2 :: nat) ^ (?k - 1) < 2 ^ 25" by linarith
  then have "?k - 1 < 25" by (rule power_less_imp_less_exp [rotated]) simp
  with k10 have k: "?k \<in> {10..25}" by auto
  have "(2 :: nat) ^ ?k = 2 * 2 ^ (?k - 1)" using k10 by (simp flip: power_Suc)
  then have "2 ^ ?k < 2 * ?n" using \<open>2 ^ (?k - 1) < ?n\<close> by linarith
  moreover have "decode_element G val =
      map_err (\<lambda>e. layer_error ''a node value that is not an element: {e}'' [Str e])
        (gdb_decode_element G (2 ^ ?k) val)"
    unfolding decode_element_def Let_def if_P [OF k] using assms by simp
  ultimately show ?thesis
    using le by (intro exI [of _ "2 ^ ?k"]) (simp add: mult.commute)
qed

section \<open>The trees the operations build\<close>

text \<open>
  merk's operations as it documents them: a push starts a subtree, \<open>Parent\<close> pops the parent and
  then the child, \<open>Child\<close> the child and then the parent, and each attaches the child to the parent.
\<close>

datatype merk_tree = Tree node "merk_tree list"

fun attach :: "merk_tree \<Rightarrow> merk_tree \<Rightarrow> merk_tree" where
  "attach c (Tree n cs) = Tree n (cs @ [c])"

fun build_op :: "merk_tree list \<Rightarrow> op \<Rightarrow> merk_tree list option" where
  "build_op ts (Push n) = Some (Tree n [] # ts)"
| "build_op ts (PushInverted n) = Some (Tree n [] # ts)"
| "build_op (p # c # ts) Parent = Some (attach c p # ts)"
| "build_op (p # c # ts) ParentInverted = Some (attach c p # ts)"
| "build_op (c # p # ts) Child = Some (attach c p # ts)"
| "build_op (c # p # ts) ChildInverted = Some (attach c p # ts)"
| "build_op ts _ = None"

fun build :: "merk_tree list \<Rightarrow> op list \<Rightarrow> merk_tree list option" where
  "build ts [] = Some ts"
| "build ts (oper # ops) = (case build_op ts oper of None \<Rightarrow> None | Some ts \<Rightarrow> build ts ops)"

primrec tree_ok :: "grovedb \<Rightarrow> merk_tree \<Rightarrow> bool" where
  "tree_ok G (Tree n cs) \<longleftrightarrow> (is_hash n \<longrightarrow> cs = []) \<and> list_all id (map (tree_ok G) cs)
     \<and> (case node_value n of None \<Rightarrow> True | Some v \<Rightarrow> is_ok (decode_element G v))"

fun root_is_hash :: "merk_tree \<Rightarrow> bool" where
  "root_is_hash (Tree n _) = is_hash n"

lemma attach_ok [simp]:
  "tree_ok G (attach c p) \<longleftrightarrow> tree_ok G p \<and> tree_ok G c \<and> \<not> root_is_hash p"
  "root_is_hash (attach c p) = root_is_hash p"
  by (cases p; auto)+

lemma check_op_build:
  assumes "list_all (tree_ok G) ts"
  shows "check_op G (map root_is_hash ts) oper = Inr stack \<longleftrightarrow>
    (\<exists>ts'. build_op ts oper = Some ts' \<and> list_all (tree_ok G) ts' \<and> stack = map root_is_hash ts')"
proof -
  consider n where "oper = Push n \<or> oper = PushInverted n"
    | "oper \<in> {Parent, ParentInverted, Child, ChildInverted}" "length ts < 2"
    | a b r where "oper \<in> {Parent, ParentInverted, Child, ChildInverted}" "ts = a # b # r"
    by (cases oper; cases ts rule: remdups_adj.cases) auto
  then show ?thesis
  proof cases
    case 1
    with assms show ?thesis
      by (auto simp: check_op_def result_simps is_ok_iff split: option.splits)
  next
    case 2
    then obtain "ts = [] \<or> (\<exists>a. ts = [a])" by (cases ts rule: remdups_adj.cases) auto
    with 2(1) show ?thesis by (auto simp: check_op_def)
  next
    case 3
    with assms show ?thesis by (auto simp: check_op_def)
  qed
qed

lemma build_op_mono:
  "build_op ts oper = Some ts' \<Longrightarrow> list_all (tree_ok G) ts' \<Longrightarrow> list_all (tree_ok G) ts"
  by (induction ts oper rule: build_op.induct) auto

lemma build_mono:
  "build ts ops = Some ts' \<Longrightarrow> list_all (tree_ok G) ts' \<Longrightarrow> list_all (tree_ok G) ts"
  by (induction ts ops rule: build.induct) (auto split: option.splits dest: build_op_mono)

lemma check_ops_build:
  assumes "list_all (tree_ok G) ts"
  shows "check_ops_from G (map root_is_hash ts) ops = Inr () \<longleftrightarrow>
    (\<exists>os t. ops = map Inr os \<and> build ts os = Some [t] \<and> tree_ok G t)"
  using assms
proof (induction ops arbitrary: ts)
  case Nil
  then show ?case by (cases ts) auto
next
  case (Cons r ops)
  show ?case
  proof (cases r)
    case (Inl e)
    then show ?thesis by auto
  next
    case (Inr oper)
    have "check_ops_from G (map root_is_hash ts) (r # ops) = Inr () \<longleftrightarrow>
      (\<exists>ts'. build_op ts oper = Some ts' \<and> list_all (tree_ok G) ts'
         \<and> check_ops_from G (map root_is_hash ts') ops = Inr ())"
      unfolding Inr by (auto simp: rbind_Inr_iff check_op_build [OF Cons.prems])
    also have "\<dots> \<longleftrightarrow> (\<exists>ts'. build_op ts oper = Some ts' \<and> list_all (tree_ok G) ts'
         \<and> (\<exists>os t. ops = map Inr os \<and> build ts' os = Some [t] \<and> tree_ok G t))"
      using Cons.IH by blast
    also have "\<dots> \<longleftrightarrow> (\<exists>os t. r # ops = map Inr os \<and> build ts os = Some [t] \<and> tree_ok G t)"
    proof
      assume "\<exists>os t. r # ops = map Inr os \<and> build ts os = Some [t] \<and> tree_ok G t"
      then obtain os t where os: "ops = map Inr os" "build ts (oper # os) = Some [t]" "tree_ok G t"
        by (auto simp: Inr Cons_eq_map_conv)
      then obtain ts' where "build_op ts oper = Some ts'" "build ts' os = Some [t]"
        by (auto split: option.splits)
      with os show "\<exists>ts'. build_op ts oper = Some ts' \<and> list_all (tree_ok G) ts'
         \<and> (\<exists>os t. ops = map Inr os \<and> build ts' os = Some [t] \<and> tree_ok G t)"
        using build_mono [of ts' os "[t]" G] by auto
    next
      assume "\<exists>ts'. build_op ts oper = Some ts' \<and> list_all (tree_ok G) ts'
         \<and> (\<exists>os t. ops = map Inr os \<and> build ts' os = Some [t] \<and> tree_ok G t)"
      then obtain ts' os t where "build_op ts oper = Some ts'" "ops = map Inr os"
        "build ts' os = Some [t]" "tree_ok G t" by blast
      then show "\<exists>os t. r # ops = map Inr os \<and> build ts os = Some [t] \<and> tree_ok G t"
        by (intro exI [of _ "oper # os"] exI [of _ t]) (simp add: Inr)
    qed
    finally show ?thesis .
  qed
qed

text \<open>C16: the check of a layer's operations, which keeps one boolean per subtree, passes exactly
  when every operation decodes and together they build one tree in which opaque hashes have no
  child and every value decodes as an element under its bound.\<close>

theorem check_ops_exact:
  "check_ops G ops = Inr () \<longleftrightarrow>
     (\<exists>os t. ops = map Inr os \<and> build [] os = Some [t] \<and> tree_ok G t)"
  using check_ops_build [of G "[]" ops] by (simp add: check_ops_def)

section \<open>Every layer is checked\<close>

primrec layers_of :: "layer_proof \<Rightarrow> layer_proof list" where
  "layers_of (LayerProof mp es) =
     LayerProof mp es # concat (map snd (map (map_prod id layers_of) es))"

lemma layers_of_lower:
  "set (layers_of l) = insert l (\<Union>l' \<in> set (map snd (lower_layers l)). set (layers_of l'))"
  by (cases l) (auto simp: image_iff)

lemma check_layer_stack_iff:
  "check_layer_stack G ls = Inr () \<longleftrightarrow>
     (\<forall>l \<in> set ls. list_all (\<lambda>l'. check_ops G (layer_ops G l') = Inr ()) (layers_of l))"
proof (induction G ls rule: check_layer_stack.induct)
  case (2 G l ls)
  show ?case
  proof (cases "check_ops G (layer_ops G l)")
    case (Inl e)
    then show ?thesis using layers_of_lower [of l] by (auto simp: list_all_iff)
  next
    case (Inr u)
    with 2 show ?thesis
      using layers_of_lower [of l] by (fastforce simp: list_all_iff)
  qed
qed simp

lemma check_all_layers_iff:
  "check_all_layers G v0 = Inr () \<longleftrightarrow>
     list_all (\<lambda>l. \<exists>os t. layer_ops G l = map Inr os \<and> build [] os = Some [t] \<and> tree_ok G t)
       (layers_of (pv_root_layer v0))"
proof -
  have "check_ops G ops = Inr () \<longleftrightarrow> (\<exists>os t. ops = map Inr os \<and> build [] os = Some [t] \<and> tree_ok G t)"
    for ops using check_ops_build [of G "[]" ops] by (simp add: check_ops_def)
  then show ?thesis unfolding check_all_layers_def check_layer_stack_iff by simp
qed

section \<open>The descended path\<close>

lemma descent_descends:
  "descent l p = Inr q \<Longrightarrow> \<exists>r l'. q = p @ r \<and> (\<forall>d. descend d l r = Inr l') \<and> lower_layers l' = []"
proof (induction l p arbitrary: q rule: descent.induct)
  case (1 l p)
  show ?case
  proof (cases "lower_layers l")
    case Nil
    with 1(2) show ?thesis by (simp add: descent.simps [of l])
  next
    case (Cons e es)
    obtain k l' where e: "e = (k, l')" by (cases e)
    with 1(2) Cons have es: "es = []" and d: "descent l' (p @ [k]) = Inr q"
      by (auto simp: descent.simps [of l] split: if_splits)
    have "\<not> 1 < length (lower_layers l)" using Cons es by simp
    from 1(1) [OF Cons e [symmetric] this d]
    obtain r m where "q = (p @ [k]) @ r" "\<forall>d. descend d l' r = Inr m" "lower_layers m = []" by blast
    then show ?thesis
      using Cons es e by (intro exI [of _ "k # r"] exI [of _ m]) simp
  qed
qed

text \<open>The path \<open>descended_path\<close> reads off a proof is one that \<open>check_envelope\<close> passes for that
  proof, when its prove options are the default.\<close>

theorem descended_path_checks:
  assumes "descended_path G proof = Inr path"
    and "decode_envelope G proof = Inr v0" "pv_decrease_limit v0 = gdb_default_decrease_limit G"
  shows "check_envelope G proof path = Inr ()"
proof -
  have "descent (pv_root_layer v0) [] = Inr path"
    using assms(1,2) by (simp add: descended_path_def)
  from descent_descends [OF this] obtain l where
    "descend 0 (pv_root_layer v0) path = Inr l" "lower_layers l = []" by auto
  then show ?thesis using assms(2,3) by (simp add: check_envelope_def layer_at_path_def)
qed

section \<open>One item\<close>

definition keyed :: "bytes \<Rightarrow> op list \<Rightarrow> node list" where
  "keyed key os = filter (\<lambda>n. node_key n = Some key) (List.map_filter pushed os)"

lemma keyed_simps [simp]:
  "keyed key [] = []"
  "keyed key (oper # os) = (case pushed oper of None \<Rightarrow> keyed key os
     | Some n \<Rightarrow> if node_key n = Some key then n # keyed key os else keyed key os)"
  by (auto simp: keyed_def List.map_filter_def split: option.splits)

lemma carried_node_iff:
  "carried_node key c ops = Inr r \<longleftrightarrow>
     (\<exists>os. ops = map Inr os \<and> (case c of
        None \<Rightarrow> keyed key os = (case r of None \<Rightarrow> [] | Some n \<Rightarrow> [n])
      | Some n \<Rightarrow> r = Some n \<and> keyed key os = []))"
proof (induction ops arbitrary: c r)
  case Nil
  then show ?case by (auto split: option.splits)
next
  case (Cons x ops)
  show ?case
  proof (cases x)
    case (Inl e)
    then show ?thesis by auto
  next
    case (Inr oper)
    have ex: "(\<exists>os. x # ops = map Inr os \<and> P os) \<longleftrightarrow> (\<exists>os. ops = map Inr os \<and> P (oper # os))" for P
      by (auto simp: Inr Cons_eq_map_conv)
    show ?thesis
      unfolding ex unfolding Inr
      by (cases "pushed oper"; cases c; cases "node_key (the (pushed oper))"; cases r)
        (auto simp: Cons.IH)
  qed
qed

lemma carried_value_iff: "carried_value c = Inr v \<longleftrightarrow> (\<exists>k. c = Some (KV k v))"
  by (auto simp: carried_value_def split: option.splits node.splits)

lemma single_item_iff:
  "single_item rs = Inr (p, k, b) \<longleftrightarrow> (\<exists>f. rs = [(p, k, Some (Item b f))])"
  by (auto simp: single_item_def split: list.splits option.splits element.splits)

lemma layer_at_path_iff:
  "layer_at_path G v0 path = Inr l \<longleftrightarrow> pv_decrease_limit v0 = gdb_default_decrease_limit G
     \<and> descend 0 (pv_root_layer v0) path = Inr l \<and> lower_layers l = []"
  by (auto simp: layer_at_path_def result_simps)

lemma verify_item_at_path_iff:
  "verify_item_at_path G proof path key = Inr (root, b) \<longleftrightarrow>
     (\<exists>v0 l os val f f'. proof \<noteq> [] \<and> decode_envelope G proof = Inr v0
        \<and> pv_decrease_limit v0 = gdb_default_decrease_limit G
        \<and> descend 0 (pv_root_layer v0) path = Inr l \<and> lower_layers l = []
        \<and> list_all (\<lambda>l. \<exists>os t. layer_ops G l = map Inr os \<and> build [] os = Some [t] \<and> tree_ok G t)
            (layers_of (pv_root_layer v0))
        \<and> layer_ops G l = map Inr os \<and> keyed key os = [KV key val]
        \<and> (length val \<noteq> 63 \<or> holds_only_items path)
        \<and> gdb_verify_query G proof path key = Inr (root, [(path, key, Some (Item b f))])
        \<and> decode_element G val = Inr (Item b f'))"
proof -
  have elem: "(case decode_element G val of
         Inr (Item carried_bytes _) \<Rightarrow> if carried_bytes = b' then Inr (r, b') else Inl e1
       | _ \<Rightarrow> Inl e2) = (Inr (root, b) :: (bytes \<times> bytes) res) \<longleftrightarrow>
      r = root \<and> b' = b \<and> (\<exists>f. decode_element G val = Inr (Item b f))" for val b' r e1 e2
    by (auto split: sum.splits element.splits)
  have key: "k = key" if "keyed key os = [KV k v]" for os k v
  proof -
    have "KV k v \<in> set (keyed key os)" by (simp add: that)
    then show ?thesis by (simp add: keyed_def)
  qed
  have carr: "(\<exists>c k. carried_node key None ops = Inr c \<and> c = Some (KV k val)) \<longleftrightarrow>
      (\<exists>os. ops = map Inr os \<and> keyed key os = [KV key val])" for ops val
    by (auto simp: carried_node_iff dest: key intro: exI [of _ "Some (KV key val)"])
  have "verify_item_at_path G proof path key = Inr (root, b) \<longleftrightarrow>
     (\<exists>v0 l val f f'. proof \<noteq> [] \<and> decode_envelope G proof = Inr v0 \<and> layer_at_path G v0 path = Inr l
       \<and> check_all_layers G v0 = Inr ()
       \<and> (\<exists>c k. carried_node key None (layer_ops G l) = Inr c \<and> c = Some (KV k val))
       \<and> (length val \<noteq> 63 \<or> holds_only_items path)
       \<and> gdb_verify_query G proof path key = Inr (root, [(path, key, Some (Item b f))])
       \<and> decode_element G val = Inr (Item b f'))"
    unfolding verify_item_at_path_def if_Inr_iff rbind_Inr_iff map_err_Inr_iff carried_value_iff
      AMBIGUOUS_ELEMENT_LEN_def split_paired_Ex prod.case single_item_iff elem
    by auto
  from this [unfolded layer_at_path_iff check_all_layers_iff carr] show ?thesis
    by (rule trans) (intro iffI; elim exE conjE; intro exI conjI; assumption)
qed

lemma ambiguous_len: "(length v \<noteq> 63 \<or> h) = (if length v = 63 then h else True)"
  by simp

text \<open>C14: an item is verified exactly when the envelope decodes and descends the whole path under
  the default options with nothing below, every layer's operations build one tree whose opaque
  hashes are childless and whose values decode, the layer at the path pushes the key exactly once,
  as a \<open>KV\<close> node, whose value is not 63 bytes long outside a data tree, GroveDB verifies the proof
  to that one item, and the node's value decodes to the item returned.\<close>

theorem verify_item_at_path_exact:
  "verify_item_at_path G proof path key = Inr (root, b) \<longleftrightarrow>
     (\<exists>v0 l os val f f'. proof \<noteq> [] \<and> decode_envelope G proof = Inr v0
        \<and> pv_decrease_limit v0 = gdb_default_decrease_limit G
        \<and> descend 0 (pv_root_layer v0) path = Inr l \<and> lower_layers l = []
        \<and> list_all (\<lambda>l. \<exists>os t. layer_ops G l = map Inr os \<and> build [] os = Some [t] \<and> tree_ok G t)
            (layers_of (pv_root_layer v0))
        \<and> layer_ops G l = map Inr os \<and> keyed key os = [KV key val]
        \<and> (if length val = 63 then holds_only_items path else True)
        \<and> gdb_verify_query G proof path key = Inr (root, [(path, key, Some (Item b f))])
        \<and> decode_element G val = Inr (Item b f'))"
  by (rule verify_item_at_path_iff [unfolded ambiguous_len])

section \<open>The properties at concrete inputs\<close>

text \<open>A GroveDB for the examples: one proof of the item of key 7 at the path [1], whose root is 32
  zero bytes. Its envelope is the grammar's.\<close>

definition example_layers :: layer_proof where
  "example_layers = LayerProof [9] [([1], LayerProof [8] [])]"

definition example_proof :: bytes where
  "example_proof = [0, 1, 9, 1, 1, 1, 1, 8, 0, 1]"

definition example_grovedb :: grovedb where
  "example_grovedb = \<lparr>
     gdb_decode_proof = (\<lambda>_ b. if b = example_proof
       then Inr (\<lparr>pv_root_layer = example_layers, pv_decrease_limit = True\<rparr>, 10)
       else Inl ''invalid''),
     gdb_default_decrease_limit = True,
     gdb_decoder = (\<lambda>b. if b = [8] then [Inr (Push (KV [7] [0, 5]))] else [Inr (Push (KV [1] [2]))]),
     gdb_decode_element = (\<lambda>_ b. if b = [0, 5] then Inr (Item [5] None) else Inr Other_element),
     gdb_limit_exceeded = ''LimitExceeded'',
     gdb_verify_query = (\<lambda>b p k. if b = example_proof \<and> p = [[1]] \<and> k = [7]
       then Inr (replicate 32 0, [([[1]], [7], Some (Item [5] None))]) else Inl ''invalid''),
     gdb_layer_entry_size = 72\<rparr>"

lemma example_grovedb_simps [simp]:
  "gdb_default_decrease_limit example_grovedb = True"
  "gdb_decoder example_grovedb b =
     (if b = [8] then [Inr (Push (KV [7] [0, 5]))] else [Inr (Push (KV [1] [2]))])"
  "gdb_decode_element example_grovedb n b = (if b = [0, 5] then Inr (Item [5] None) else Inr Other_element)"
  "gdb_verify_query example_grovedb example_proof [[1]] [7]
     = Inr (replicate 32 0, [([[1]], [7], Some (Item [5] None))])"
  by (simp_all add: example_grovedb_def)

lemma example_decodes:
  "decode_envelope example_grovedb example_proof
     = Inr \<lparr>pv_root_layer = example_layers, pv_decrease_limit = True\<rparr>"
proof -
  have "varint_form 0 [0]" "varint_form 1 [1]" by (simp_all add: varint_form_def)
  then have s: "string_form [x] [1, x]" for x
    unfolding string_form_def by (intro exI [of _ 1] exI [of _ "[1]"]) simp
  have "entries_form [] []" by simp
  from layer_form_entries_form.layer [OF s [of 8] \<open>varint_form 0 [0]\<close> _ this]
  have "layer_form (LayerProof [8] []) [1, 8, 0]" by simp
  from layer_form_entries_form.entry [OF s [of 1] this \<open>entries_form [] []\<close>]
  have "entries_form [([1], LayerProof [8] [])] [1, 1, 1, 8, 0]" by simp
  from layer_form_entries_form.layer [OF s [of 9] \<open>varint_form 1 [1]\<close> _ this]
  have "layer_form example_layers [1, 9, 1, 1, 1, 1, 8, 0]" by (simp add: example_layers_def)
  then have "envelope_form example_layers True example_proof"
    unfolding envelope_form_def example_proof_def
    by (intro exI [of _ "[0]"] exI [of _ "[1, 9, 1, 1, 1, 1, 8, 0]"]) (simp add: varint_form_def)
  moreover have "layer_count example_layers \<le> MAX_LAYERS" "layer_depth example_layers \<le> MAX_LAYER_DEPTH"
    "length example_proof \<le> MAX_PROOF_BYTES"
    by (simp_all add: example_layers_def example_proof_def MAX_LAYERS_def MAX_LAYER_DEPTH_def
        MAX_PROOF_BYTES_def)
  ultimately have "scan_envelope example_proof = Inr ()"
    using scan_envelope_accepts by blast
  then show ?thesis
    by (simp add: decode_envelope_def example_grovedb_def) (simp add: example_proof_def)
qed

theorem decode_element_bound_witness:
  "\<exists>limit. decode_element example_grovedb [0, 5] = map_err (\<lambda>e. layer_error
       ''a node value that is not an element: {e}'' [Str e]) (gdb_decode_element example_grovedb limit [0, 5])
     \<and> 1024 \<le> limit \<and> limit < 2048"
  using decode_element_bound [of "[0, 5]" example_grovedb]
  by (simp add: MAX_ELEMENT_BYTES_def MAX_PROOF_BYTES_def)

theorem descended_path_checks_witness:
  "check_envelope example_grovedb example_proof [[1]] = Inr ()"
  by (rule descended_path_checks [OF _ example_decodes])
    (simp_all add: descended_path_def example_decodes example_layers_def descent.simps)

lemma verify_item_example:
  "verify_item_at_path example_grovedb example_proof [[1]] [7] = Inr (replicate 32 0, [5])"
proof -
  have el: "decode_element example_grovedb v = Inr (if v = [0, 5] then Item [5] None else Other_element)"
    if "length v < 32" for v
  proof -
    have "power_from 0 1024 = 10" by (simp add: power_from.simps)
    with that show ?thesis
      by (simp add: decode_element_def MAX_ELEMENT_BYTES_def MAX_PROOF_BYTES_def max_def)
  qed
  have "example_proof \<noteq> []" by (simp add: example_proof_def)
  then show ?thesis
    by (simp add: verify_item_at_path_def example_decodes layer_at_path_def example_layers_def
        check_all_layers_def layer_ops_def check_ops_def check_op_def el carried_value_def
        single_item_def is_hash_def AMBIGUOUS_ELEMENT_LEN_def)
qed

section \<open>An example proof\<close>

text \<open>A proof that descends a path to a layer with one item, the byte 5, at a key, and a GroveDB that
  takes it for the state of a root of zeros.\<close>

fun chain_layers :: "bytes list \<Rightarrow> layer_proof" where
  "chain_layers [] = LayerProof [8] []"
| "chain_layers (k # ks) = LayerProof [9] [(k, chain_layers ks)]"

fun chain_bytes :: "bytes list \<Rightarrow> bytes" where
  "chain_bytes [] = [1, 8, 0]"
| "chain_bytes (k # ks) = [1, 9, 1, of_nat (length k)] @ k @ chain_bytes ks"

definition chain_proof :: "bytes list \<Rightarrow> bytes" where
  "chain_proof ks = 0 # chain_bytes ks @ [1]"

definition chain_grovedb :: "bytes list \<Rightarrow> bytes \<Rightarrow> grovedb" where
  "chain_grovedb ks key = \<lparr>
     gdb_decode_proof = (\<lambda>_ b. Inr (\<lparr>pv_root_layer = chain_layers ks, pv_decrease_limit = True\<rparr>, length b)),
     gdb_default_decrease_limit = True,
     gdb_decoder = (\<lambda>b. if b = [8] then [Inr (Push (KV key [0, 5]))] else [Inr (Push (KV [1] [2]))]),
     gdb_decode_element = (\<lambda>_ b. if b = [0, 5] then Inr (Item [5] None) else Inr Other_element),
     gdb_limit_exceeded = ''LimitExceeded'',
     gdb_verify_query = (\<lambda>b p k. Inr (replicate 32 0, [(p, k, Some (Item [5] None))])),
     gdb_layer_entry_size = 72\<rparr>"

lemma chain_grovedb_simps [simp]:
  "gdb_default_decrease_limit (chain_grovedb ks key) = True"
  "gdb_decoder (chain_grovedb ks key) b =
     (if b = [8] then [Inr (Push (KV key [0, 5]))] else [Inr (Push (KV [1] [2]))])"
  "gdb_decode_element (chain_grovedb ks key) n b = (if b = [0, 5] then Inr (Item [5] None) else Inr Other_element)"
  "gdb_verify_query (chain_grovedb ks key) b p k = Inr (replicate 32 0, [(p, k, Some (Item [5] None))])"
  "gdb_decode_proof (chain_grovedb ks key) n b
     = Inr (\<lparr>pv_root_layer = chain_layers ks, pv_decrease_limit = True\<rparr>, length b)"
  by (simp_all add: chain_grovedb_def)

lemma short_string_form: "length k \<le> 250 \<Longrightarrow> string_form k (of_nat (length k) # k)"
proof -
  assume len: "length k \<le> 250"
  then have "unat (of_nat (length k) :: u8) = length k" "unat (of_nat (length k) :: u64) = length k"
    by (simp_all add: unat_of_nat)
  with len have "varint_form (of_nat (length k)) [of_nat (length k)]"
    by (simp add: varint_form_def word_le_nat_alt)
  then show ?thesis
    unfolding string_form_def using \<open>unat (of_nat (length k) :: u64) = length k\<close>
    by (intro exI [of _ "of_nat (length k)"] exI [of _ "[of_nat (length k)]"]) simp
qed

lemma chain_form: "list_all (\<lambda>k. length k \<le> 250) ks \<Longrightarrow> layer_form (chain_layers ks) (chain_bytes ks)"
proof (induction ks)
  case Nil
  from layer_form_entries_form.layer [OF short_string_form [of "[8]"], of 0 "[0]" "[]" "[]"] show ?case
    by (simp add: varint_form_def)
next
  case (Cons k ks)
  then have "entries_form [(k, chain_layers ks)] (of_nat (length k) # k @ chain_bytes ks)"
    using layer_form_entries_form.entry [OF short_string_form [of k], of "chain_layers ks" "chain_bytes ks" "[]" "[]"]
    by simp
  from layer_form_entries_form.layer [OF short_string_form [of "[9]"], of 1 "[1]", OF _ _ _ this] show ?case
    by (simp add: varint_form_def)
qed

lemma chain_depth: "layer_depth (chain_layers ks) = length ks" "layer_count (chain_layers ks) = Suc (length ks)"
  by (induction ks) simp_all

lemma chain_decodes:
  assumes "list_all (\<lambda>k. length k \<le> 250) ks" "Suc (length ks) \<le> MAX_LAYERS" "length ks \<le> MAX_LAYER_DEPTH"
    and "length (chain_proof ks) \<le> MAX_PROOF_BYTES"
  shows "decode_envelope (chain_grovedb ks key) (chain_proof ks)
    = Inr \<lparr>pv_root_layer = chain_layers ks, pv_decrease_limit = True\<rparr>"
proof -
  have "envelope_form (chain_layers ks) True (chain_proof ks)"
    unfolding envelope_form_def chain_proof_def using chain_form [OF assms(1)]
    by (intro exI [of _ "[0]"] exI [of _ "chain_bytes ks"]) (simp add: varint_form_def)
  then have "scan_envelope (chain_proof ks) = Inr ()"
    using scan_envelope_accepts assms chain_depth by metis
  then show ?thesis by (simp add: decode_envelope_def)
qed

lemma chain_element:
  "length v < 32 \<Longrightarrow> decode_element (chain_grovedb ks key) v = Inr (if v = [0, 5] then Item [5] None else Other_element)"
proof -
  assume "length v < 32"
  moreover have "power_from 0 1024 = 10" by (simp add: power_from.simps)
  ultimately show ?thesis
    by (simp add: decode_element_def MAX_ELEMENT_BYTES_def MAX_PROOF_BYTES_def max_def)
qed

lemmas chain_check_defs = verify_item_at_path_def layer_at_path_def check_all_layers_def layer_ops_def check_ops_def
  check_op_def chain_element carried_value_def single_item_def is_hash_def AMBIGUOUS_ELEMENT_LEN_def


lemma chain_descends:
  "(\<And>n. descend n (chain_layers ks) ks = Inr (LayerProof [8] []))"
  "descent (chain_layers ks) path = Inr (path @ ks)"
  by (induction ks arbitrary: path) (simp_all add: descent.simps)

lemma chain_verifies:
  assumes "list_all (\<lambda>k. length k \<le> 250) ks" "Suc (length ks) \<le> MAX_LAYERS" "length ks \<le> MAX_LAYER_DEPTH"
    and "length (chain_proof ks) \<le> MAX_PROOF_BYTES"
  shows "verify_item_at_path (chain_grovedb ks key) (chain_proof ks) ks key = Inr (replicate 32 0, [5])"
    and "descended_path (chain_grovedb ks key) (chain_proof ks) = Inr ks"
proof -
  have ops: "check_layer_stack (chain_grovedb ks key) [chain_layers js] = Inr ()" for js
    by (induction js) (simp_all add: chain_check_defs)
  have d: "decode_envelope (chain_grovedb ks key) (chain_proof ks)
    = Inr \<lparr>pv_root_layer = chain_layers ks, pv_decrease_limit = True\<rparr>"
    by (rule chain_decodes [OF assms])
  then show "descended_path (chain_grovedb ks key) (chain_proof ks) = Inr ks"
    by (simp add: descended_path_def chain_descends)
  from d show "verify_item_at_path (chain_grovedb ks key) (chain_proof ks) ks key = Inr (replicate 32 0, [5])"
    using ops [of ks]
    by (simp add: chain_check_defs chain_descends check_all_layers_def
        del: check_layer_stack.simps) (simp add: chain_proof_def)
qed

end
