(* ===== verification/World.thy ===== *)
theory World
  imports Http_Body Grovedb_Envelope
begin

text \<open>
  What is outside the SDK.

  \<open>world\<close> is the clock and the network. Every request is answered by \<open>w_answer\<close>, an arbitrary
  function of how many requests were sent before it and of the request, which also says how long
  the answer takes: a statement for every \<open>world\<close> is a statement for every behaviour of the
  servers. A component that keeps state of its own extends the record.

  \<open>lib\<close> holds the third-party functions the sources call. An asynchronous function is an
  \<open>io\<close>: it takes the state and gives its value and the state after. Operations of one client
  run one after another here; the nonce tracker, which is where their interleaving matters, has
  a step relation of its own.

  \<open>jvalue\<close> is \<open>serde_json::Value\<close>, with the accessors the sources use.
\<close>

section \<open>JSON values\<close>

datatype jvalue =
    JNull
  | JBool bool
  | JNumber str
  | JString str
  | JArray "jvalue list"
  | JObject "(str \<times> jvalue) list"

text \<open>\<open>value["key"]\<close>: null when absent. \<open>get\<close>, \<open>as_str\<close>, \<open>as_array\<close>, \<open>as_object\<close>.\<close>

fun jget :: "jvalue \<Rightarrow> str \<Rightarrow> jvalue option" where
  "jget (JObject kvs) k = map_of kvs k"
| "jget _ k = None"

definition jindex :: "jvalue \<Rightarrow> str \<Rightarrow> jvalue" where
  "jindex v k = (case jget v k of None \<Rightarrow> JNull | Some x \<Rightarrow> x)"

definition jpath :: "jvalue \<Rightarrow> str list \<Rightarrow> jvalue" where
  "jpath v ks = foldl jindex v ks"

fun as_str :: "jvalue \<Rightarrow> str option" where
  "as_str (JString s) = Some s"
| "as_str _ = None"

fun as_array :: "jvalue \<Rightarrow> jvalue list option" where
  "as_array (JArray vs) = Some vs"
| "as_array _ = None"

fun is_object :: "jvalue \<Rightarrow> bool" where
  "is_object (JObject _) = True"
| "is_object _ = False"

definition str_or_empty :: "jvalue \<Rightarrow> str" where
  "str_or_empty v = (case as_str v of None \<Rightarrow> [] | Some s \<Rightarrow> s)"

text \<open>\<open>str::parse\<close> to an unsigned integer of the width: digits, with at most one plus before.\<close>

definition is_digit_char :: "char \<Rightarrow> bool" where
  "is_digit_char c \<longleftrightarrow> 48 \<le> (of_char c :: nat) \<and> (of_char c :: nat) \<le> 57"

definition parse_unsigned :: "nat \<Rightarrow> str \<Rightarrow> nat option" where
  "parse_unsigned bits s =
     (let ds = (case s of c # cs \<Rightarrow> if c = CHR ''+'' then cs else s | [] \<Rightarrow> s) in
      if ds = [] \<or> \<not> list_all is_digit_char ds \<or> undec ds \<ge> 2 ^ bits then None else Some (undec ds))"

definition parse_u64 :: "str \<Rightarrow> u64 option" where
  "parse_u64 s = map_option of_nat (parse_unsigned 64 s)"

definition parse_u32 :: "str \<Rightarrow> u32 option" where
  "parse_u32 s = map_option of_nat (parse_unsigned 32 s)"

definition parse_signed :: "nat \<Rightarrow> str \<Rightarrow> int option" where
  "parse_signed bits s =
     (let neg = (case s of c # cs \<Rightarrow> c = CHR ''-'' | [] \<Rightarrow> False);
          ds = (case s of c # cs \<Rightarrow> if c = CHR ''+'' \<or> c = CHR ''-'' then cs else s | [] \<Rightarrow> s);
          v = (if neg then - int (undec ds) else int (undec ds)) in
      if ds = [] \<or> \<not> list_all is_digit_char ds \<or> v < - (2 ^ (bits - 1)) \<or> v \<ge> 2 ^ (bits - 1)
      then None else Some v)"

text \<open>\<open>as_u64\<close> and \<open>as_i64\<close> of a number, which is kept as its text: only an integer has them, and
  \<open>-0\<close> is read as a float.\<close>

fun as_u64 :: "jvalue \<Rightarrow> u64 option" where
  "as_u64 (JNumber s) = parse_u64 s"
| "as_u64 _ = None"

fun as_i64 :: "jvalue \<Rightarrow> int option" where
  "as_i64 (JNumber s) = (if s = ''-0'' then None else parse_signed 64 s)"
| "as_i64 _ = None"

fun as_bool :: "jvalue \<Rightarrow> bool option" where
  "as_bool (JBool b) = Some b"
| "as_bool _ = None"

section \<open>Third-party functions\<close>

record lib =
  hex_encode :: "bytes \<Rightarrow> str"
  hex_decode :: "str \<Rightarrow> (str, bytes) result"
  base64_encode :: "bytes \<Rightarrow> str"
  base64_decode :: "str \<Rightarrow> (str, bytes) result"
  sha256 :: "bytes \<Rightarrow> bytes"
  sha3_256 :: "bytes \<Rightarrow> bytes"
  json_from_slice :: "bytes \<Rightarrow> (str, jvalue) result"
  json_to_string :: "jvalue \<Rightarrow> str"
  parse_rfc3339 :: "str \<Rightarrow> int option"
  chrono_from_std :: "duration \<Rightarrow> int option"
  ed25519_key :: "bytes \<Rightarrow> (str, unit) result"
  ed25519_verify :: "bytes \<Rightarrow> bytes \<Rightarrow> bytes \<Rightarrow> bool"
  secp256k1_key :: "bytes \<Rightarrow> (str, unit) result"
  secp256k1_signature :: "bytes \<Rightarrow> (str, unit) result"
  secp256k1_verify :: "bytes \<Rightarrow> bytes \<Rightarrow> bytes \<Rightarrow> bool"
  keccak256 :: "bytes \<Rightarrow> bytes"
  ed25519_sign :: "bytes \<Rightarrow> bytes \<Rightarrow> bytes"
  ed25519_public :: "bytes \<Rightarrow> bytes"
  secp256k1_secret :: "bytes \<Rightarrow> (str, unit) result"
  secp256k1_sign :: "bytes \<Rightarrow> bytes \<Rightarrow> bytes"
  secp256k1_public :: "bytes \<Rightarrow> bytes"
  secp256k1_serialize :: "bytes \<Rightarrow> bytes"
  secp256k1_from_der :: "bytes \<Rightarrow> (str, bytes) result"
  base58_encode :: "bytes \<Rightarrow> str"
  base58_decode :: "str \<Rightarrow> bytes option"
  utf8_lossy :: "bytes \<Rightarrow> str"
  http_client_build :: "duration \<Rightarrow> (str, unit) result"
  lib_grovedb :: grovedb

text \<open>What the documentation of the \<open>hex\<close> crate promises: lowercase digits, and decoding undoes
  encoding.\<close>

definition is_hex_char :: "char \<Rightarrow> bool" where
  "is_hex_char c \<longleftrightarrow> (let n = of_char c :: nat in 48 \<le> n \<and> n \<le> 57 \<or> 97 \<le> n \<and> n \<le> 102)"

definition hex_ok :: "'z lib_scheme \<Rightarrow> bool" where
  "hex_ok L \<longleftrightarrow> (\<forall>b. hex_decode L (hex_encode L b) = Inr b \<and> list_all is_hex_char (hex_encode L b))"

text \<open>A codec with these laws, for the witnesses.\<close>

definition hex_digit :: "nat \<Rightarrow> char" where
  "hex_digit n = char_of (if n < 10 then 48 + n else 87 + n)"

definition hex_value :: "char \<Rightarrow> nat" where
  "hex_value c = (let n = of_char c in if n < 58 then n - 48 else n - 87)"

fun hex_text :: "bytes \<Rightarrow> str" where
  "hex_text [] = []"
| "hex_text (b # bs) = hex_digit (unat b div 16) # hex_digit (unat b mod 16) # hex_text bs"

fun hex_bytes :: "str \<Rightarrow> (str, bytes) result" where
  "hex_bytes [] = Inr []"
| "hex_bytes [c] = Inl ''Odd number of digits''"
| "hex_bytes (c # d # s) =
     (if is_hex_char c \<and> is_hex_char d
      then rbind (hex_bytes s) (\<lambda>bs. Inr (of_nat (hex_value c * 16 + hex_value d) # bs))
      else Inl ''Invalid character'')"

lemma is_hex_char_digit: "n < 16 \<Longrightarrow> is_hex_char (hex_digit n)"
  by (simp add: is_hex_char_def hex_digit_def)

lemma hex_value_digit: "n < 16 \<Longrightarrow> hex_value (hex_digit n) = n"
  by (simp add: hex_value_def hex_digit_def)

lemma hex_bytes_text: "hex_bytes (hex_text bs) = Inr bs"
proof (induction bs)
  case (Cons b bs)
  have "unat b < 256" using unat_lt2p [of b] by simp
  then have "unat b div 16 < 16" by simp
  with Cons show ?case by (simp add: is_hex_char_digit hex_value_digit)
qed simp

lemma list_all_hex_text: "list_all is_hex_char (hex_text bs)"
proof (induction bs)
  case (Cons b bs)
  have "unat b < 256" using unat_lt2p [of b] by simp
  then have "unat b div 16 < 16" by simp
  with Cons show ?case by (simp add: is_hex_char_digit)
qed simp

lemma hex_ok_text: "hex_encode L = hex_text \<Longrightarrow> hex_decode L = hex_bytes \<Longrightarrow> hex_ok L"
  by (simp add: hex_ok_def hex_bytes_text list_all_hex_text)

text \<open>Third-party functions the witnesses run on. No key or hash of them is secure; the laws a
  property relies on hold.\<close>

definition sample_lib :: lib where
  "sample_lib = \<lparr>hex_encode = hex_text, hex_decode = hex_bytes,
     base64_encode = hex_text, base64_decode = hex_bytes,
     sha256 = (\<lambda>b. take 32 (b @ replicate 32 0)), sha3_256 = (\<lambda>b. take 32 (b @ replicate 32 0)),
     json_from_slice = (\<lambda>_. Inr JNull), json_to_string = (\<lambda>_. ''null''),
     parse_rfc3339 = (\<lambda>_. None), chrono_from_std = (\<lambda>d. Some (int d)),
     ed25519_key = (\<lambda>_. Inr ()), ed25519_verify = (\<lambda>k s m. s = take 64 (m @ replicate 64 0)),
     secp256k1_key = (\<lambda>_. Inr ()), secp256k1_signature = (\<lambda>_. Inr ()),
     secp256k1_verify = (\<lambda>_ _ _. True),
     keccak256 = (\<lambda>b. take 32 (b @ replicate 32 0)),
     ed25519_sign = (\<lambda>k m. take 64 (m @ replicate 64 0)),
     ed25519_public = (\<lambda>k. k), 
     secp256k1_secret = (\<lambda>k. if length k = 32 then Inr () else Inl ''malformed secret key''),
     secp256k1_sign = (\<lambda>_ m. take 64 (m @ replicate 64 0)), secp256k1_public = (\<lambda>k. 2 # k),
     secp256k1_serialize = (\<lambda>k. k),
     secp256k1_from_der = (\<lambda>s. Inr s), base58_encode = hex_text,
     base58_decode = (\<lambda>s. case hex_bytes s of Inl _ \<Rightarrow> None | Inr b \<Rightarrow> Some b),
     utf8_lossy = map (\<lambda>b. char_of (unat b)),
     http_client_build = (\<lambda>_. Inr ()), lib_grovedb = example_grovedb\<rparr>"

lemma hex_ok_sample: "hex_ok sample_lib"
  by (rule hex_ok_text) (simp_all add: sample_lib_def)

lemma hex_ok_inject: "hex_ok L \<Longrightarrow> hex_encode L a = hex_encode L b \<longleftrightarrow> a = b"
  unfolding hex_ok_def by (metis sum.inject(2))

lemma hex_ok_chars: "hex_ok L \<Longrightarrow> \<not> is_hex_char c \<Longrightarrow> c \<notin> set (hex_encode L b)"
  by (auto simp: hex_ok_def list_all_iff)

section \<open>The network and the clock\<close>

text \<open>A request: a \<open>GET\<close>, a \<open>POST\<close> of a JSON value, or a method, URL, headers and the exact bytes
  of the body.\<close>

datatype request =
    Get str "(str \<times> str) list"
  | Post str "(str \<times> str) list" jvalue
  | Send str str "(str \<times> str) list" bytes

record world =
  w_now :: instant
  w_epoch :: int
  w_calls :: nat
  w_answer :: "nat \<Rightarrow> request \<Rightarrow> duration \<times> (reqwest_error, response) result"

type_synonym ('s, 'a) io = "'s \<Rightarrow> 'a \<times> 's"

definition ret :: "'a \<Rightarrow> ('s, 'a) io" where
  "ret x = (\<lambda>s. (x, s))"

definition bind_io :: "('s, 'a) io \<Rightarrow> ('a \<Rightarrow> ('s, 'b) io) \<Rightarrow> ('s, 'b) io" where
  "bind_io m f = (\<lambda>s. case m s of (x, s') \<Rightarrow> f x s')"

text \<open>\<open>.await?\<close>: an error returns at once.\<close>

definition try_io :: "('s, 'a res) io \<Rightarrow> ('a \<Rightarrow> ('s, 'b res) io) \<Rightarrow> ('s, 'b res) io" where
  "try_io m f = (\<lambda>s. case m s of (Inl e, s') \<Rightarrow> (Inl e, s') | (Inr x, s') \<Rightarrow> f x s')"

definition send :: "request \<Rightarrow> ('z world_scheme, (reqwest_error, response) result) io" where
  "send req = (\<lambda>w. case w_answer w (w_calls w) req of
     (d, r) \<Rightarrow> (r, w\<lparr>w_now := w_now w + d, w_calls := w_calls w + 1\<rparr>))"

definition now_io :: "('z world_scheme, instant) io" where
  "now_io = (\<lambda>w. (w_now w, w))"

definition utc_now_io :: "('z world_scheme, int) io" where
  "utc_now_io = (\<lambda>w. (w_epoch w + int (w_now w), w))"

definition sleep_io :: "duration \<Rightarrow> ('z world_scheme, unit) io" where
  "sleep_io d = (\<lambda>w. ((), w\<lparr>w_now := w_now w + d\<rparr>))"

text \<open>A request whose answer's body is decoded from JSON under a cap, as \<open>http_body::json\<close> does;
  the error of a failed request is made by \<open>err\<close>.\<close>

definition get_json ::
  "lib \<Rightarrow> (reqwest_error \<Rightarrow> willow_error) \<Rightarrow> request \<Rightarrow> nat \<Rightarrow> ('z world_scheme, jvalue res) io" where
  "get_json L err req limit = (\<lambda>w. case send req w of
       (Inl e, w') \<Rightarrow> (Inl (err e), w')
     | (Inr resp, w') \<Rightarrow> (json (json_from_slice L) resp limit, w'))"

lemma ret_simp [simp]: "ret x s = (x, s)"
  by (simp add: ret_def)

lemma bind_io_simp [simp]: "bind_io m f s = (case m s of (x, s') \<Rightarrow> f x s')"
  by (simp add: bind_io_def)

lemma try_io_simp [simp]:
  "try_io m f s = (case m s of (Inl e, s') \<Rightarrow> (Inl e, s') | (Inr x, s') \<Rightarrow> f x s')"
  by (simp add: try_io_def)

lemma try_io_Inr_iff [result_simps]:
  "try_io m f s = (Inr y, t) \<longleftrightarrow> (\<exists>x s'. m s = (Inr x, s') \<and> f x s' = (Inr y, t))"
  by (auto split: prod.splits sum.splits)

lemma try_ret_Inr_iff:
  "try_io (ret r) f s = (Inr y, t) \<longleftrightarrow> (\<exists>x. r = Inr x \<and> f x s = (Inr y, t))"
  by (cases r) simp_all

lemma ret_Inr_iff: "ret r s = (Inr y, t) \<longleftrightarrow> r = Inr y \<and> t = s"
  by auto

lemma bind_io_eq_iff [result_simps]:
  "bind_io m f s = (y, t) \<longleftrightarrow> (\<exists>x s'. m s = (x, s') \<and> f x s' = (y, t))"
  by (auto split: prod.splits)

lemma send_now: "send req w = (r, w') \<Longrightarrow> w_now w \<le> w_now w'"
  by (cases "w_answer w (w_calls w) req") (auto simp: send_def)

text \<open>An operation that only asks the network and reads the clock leaves the components' own states
  alone. The rules take an operation apart into such steps.\<close>

named_theorems frame_intros \<open>operations that keep the components' own states\<close>

definition frame :: "('z world_scheme, 'a) io \<Rightarrow> bool" where
  "frame m \<longleftrightarrow> (\<forall>s. world.more (snd (m s)) = world.more s)"

lemma frameD: "frame m \<Longrightarrow> m s = (r, s') \<Longrightarrow> world.more s' = world.more s"
  by (metis frame_def snd_conv)

lemma frame_ret [frame_intros]: "frame (ret x)"
  by (simp add: frame_def)

lemma frame_bind [frame_intros]: "frame m \<Longrightarrow> (\<And>x. frame (f x)) \<Longrightarrow> frame (bind_io m f)"
  unfolding frame_def by (metis (no_types, lifting) bind_io_def case_prod_beta)

lemma frame_try [frame_intros]: "frame m \<Longrightarrow> (\<And>x. frame (f x)) \<Longrightarrow> frame (try_io m f)"
  unfolding frame_def by (auto simp: split: prod.splits sum.splits) (metis snd_conv)+

lemma frame_send [frame_intros]: "frame (send req)"
  by (auto simp: frame_def send_def split: prod.splits)

lemma frame_clock [frame_intros]: "frame now_io" "frame utc_now_io" "frame (sleep_io d)"
  by (simp_all add: frame_def now_io_def utc_now_io_def sleep_io_def)

lemma frame_if [frame_intros]: "(b \<Longrightarrow> frame m) \<Longrightarrow> (\<not> b \<Longrightarrow> frame n) \<Longrightarrow> frame (if b then m else n)"
  by simp

lemma frame_sum [frame_intros]:
  "(\<And>e. frame (f e)) \<Longrightarrow> (\<And>x. frame (g x)) \<Longrightarrow> frame (case r of Inl e \<Rightarrow> f e | Inr x \<Rightarrow> g x)"
  by (cases r) simp_all

lemma frame_option [frame_intros]:
  "frame m \<Longrightarrow> (\<And>x. frame (g x)) \<Longrightarrow> frame (case r of None \<Rightarrow> m | Some x \<Rightarrow> g x)"
  by (cases r) simp_all

text \<open>A request whose answer a function reads.\<close>

lemma frame_send_case [frame_intros]:
  "frame (\<lambda>s. case send req s of (Inl e, t) \<Rightarrow> (f e, t) | (Inr resp, t) \<Rightarrow> (g resp, t))"
  by (auto simp: frame_def dest: frameD [OF frame_send] split: prod.splits sum.splits)

lemma frame_send_then:
  "(\<And>resp. frame (g resp)) \<Longrightarrow>
     frame (\<lambda>s. case send req s of (Inl e, t) \<Rightarrow> (f e, t) | (Inr resp, t) \<Rightarrow> g resp t)"
  unfolding frame_def by (auto dest: frameD [OF frame_send] split: prod.splits sum.splits)
end
