(* ===== verification/Proof_Verifier.thy ===== *)
theory Proof_Verifier
  imports World
begin

text \<open>
  Proofs in hex (\<open>src/src/proof.rs\<close>), with the proof features on: the path of a subgrove's data,
  the check that a proof proves a value at a path and key, and against a trusted root. The three
  deprecated checks and the check of a query's documents always answer \<open>Unsupported\<close>.
\<close>

definition subgrove_data_path :: "str \<Rightarrow> bytes list" where
  "subgrove_data_path subgrove_id =
     [str_bytes ''subgroves'', str_bytes subgrove_id, str_bytes ''data'']"

definition PATHLESS :: message where
  "PATHLESS = Fmt ''a proof checked without the GroveDB path and key it is for proves only a root hash, not any data; use ProofVerifier::verify_item_at_path'' []"

definition verify_query_proof :: "str \<Rightarrow> jvalue list \<Rightarrow> str res" where
  "verify_query_proof proof_hex documents = Inl (Unsupported PATHLESS)"

definition verify_item_proof :: "str \<Rightarrow> str \<Rightarrow> jvalue \<Rightarrow> str res" where
  "verify_item_proof proof_hex key val = Inl (Unsupported PATHLESS)"

definition verify_against_root :: "str \<Rightarrow> str \<Rightarrow> bool res" where
  "verify_against_root proof_hex expected_root_hex = Inl (Unsupported PATHLESS)"

definition parse_proof_hex :: "lib \<Rightarrow> str \<Rightarrow> bytes res" where
  "parse_proof_hex L proof_hex =
     map_err (\<lambda>e. proof_error ''Invalid proof hex: {}'' [Str e]) (hex_decode L proof_hex)"

definition verify_item_hex :: "lib \<Rightarrow> str \<Rightarrow> bytes list \<Rightarrow> bytes \<Rightarrow> bytes \<Rightarrow> bytes res" where
  "verify_item_hex L proof_hex path key val =
     (let max_hex = 2 * MAX_PROOF_BYTES in
      if length proof_hex > max_hex
      then Inl (proof_error ''a proof of {} hex characters; at most {max_hex} are accepted''
             [Num (length proof_hex), Num max_hex])
      else
        rbind (parse_proof_hex L proof_hex) (\<lambda>proof.
        rbind (verify_item_at_path (lib_grovedb L) proof path key) (\<lambda>(root, item).
        if item \<noteq> val
        then Inl (proof_error ''the proof proves another value at the path and key'' [])
        else Inr root)))"

definition verify_item_against_root ::
  "lib \<Rightarrow> str \<Rightarrow> bytes list \<Rightarrow> bytes \<Rightarrow> bytes \<Rightarrow> bytes \<Rightarrow> unit res" where
  "verify_item_against_root L proof_hex path key val trusted_root =
     rbind (verify_item_hex L proof_hex path key val) (\<lambda>root.
     if root \<noteq> trusted_root
     then Inl (proof_error ''Root hash mismatch: the proof computes {}, not the trusted root {}''
            [Hex root, Hex trusted_root])
     else Inr ())"

definition query_response_verify_proof :: "str res" where
  "query_response_verify_proof = Inl (Unsupported (Fmt
     ''a query's documents can't be verified: the API serves them without their keys, and nothing binds them to the proof or to the query's selection'' []))"

text \<open>What a proof in hex that passes binds: the item the decoded proof proves at the path and key
  is the value given.\<close>

lemma verify_item_hex_Inr_iff [result_simps]:
  "verify_item_hex L proof_hex path key val = Inr root \<longleftrightarrow>
     length proof_hex \<le> 2 * MAX_PROOF_BYTES
     \<and> (\<exists>proof. hex_decode L proof_hex = Inr proof
          \<and> verify_item_at_path (lib_grovedb L) proof path key = Inr (root, val))"
  by (auto simp: verify_item_hex_def parse_proof_hex_def Let_def result_simps)

lemma verify_item_against_root_iff [result_simps]:
  "verify_item_against_root L proof_hex path key val root = Inr () \<longleftrightarrow>
     verify_item_hex L proof_hex path key val = Inr root"
  by (auto simp: verify_item_against_root_def rbind_Inr_iff)

text \<open>The root a proof computes is a function of the proof: one proof is not accepted against two
  roots, nor for two values of one key.\<close>

lemma verify_item_unique:
  assumes "verify_item_against_root L proof_hex path key val root = Inr ()"
    and "verify_item_against_root L proof_hex path key val' root' = Inr ()"
  shows "val = val' \<and> root = root'"
  using assms by (auto simp: result_simps)

end
