(* ===== verification/Btree.thy ===== *)
theory Btree
  imports Prelude
begin

text \<open>
  \<open>BTreeMap\<close> of Rust's standard library: a map that iterates in key order, as the sorted list of
  its entries. The locale \<open>ordered_map\<close> is what the components rely on.
\<close>

type_synonym ('k, 'v) btree = "('k \<times> 'v) list"

fun bt_insert :: "'k::linorder \<Rightarrow> 'v \<Rightarrow> ('k, 'v) btree \<Rightarrow> ('k, 'v) btree" where
  "bt_insert k v [] = [(k, v)]"
| "bt_insert k v ((k', v') # m) =
     (if k < k' then (k, v) # (k', v') # m
      else if k = k' then (k, v) # m
      else (k', v') # bt_insert k v m)"

definition bt_get :: "('k, 'v) btree \<Rightarrow> 'k \<Rightarrow> 'v option" where
  "bt_get m k = map_of m k"

definition bt_wf :: "('k::linorder, 'v) btree \<Rightarrow> bool" where
  "bt_wf m \<longleftrightarrow> sorted_wrt (<) (map fst m)"

definition bt_entries :: "('k, 'v) btree \<Rightarrow> ('k \<times> 'v) list" where
  "bt_entries m = m"

definition bt_last :: "('k, 'v) btree \<Rightarrow> ('k \<times> 'v) option" where
  "bt_last m = (if m = [] then None else Some (last m))"

definition bt_retain :: "('k \<Rightarrow> 'v \<Rightarrow> bool) \<Rightarrow> ('k, 'v) btree \<Rightarrow> ('k, 'v) btree" where
  "bt_retain P m = filter (\<lambda>(k, v). P k v) m"

locale ordered_map =
  fixes look :: "'m \<Rightarrow> 'k::linorder \<Rightarrow> 'v option"
    and ins :: "'k \<Rightarrow> 'v \<Rightarrow> 'm \<Rightarrow> 'm"
    and entries :: "'m \<Rightarrow> ('k \<times> 'v) list"
    and wf :: "'m \<Rightarrow> bool"
  assumes wf_ins: "wf m \<Longrightarrow> wf (ins k v m)"
    and look_ins: "wf m \<Longrightarrow> look (ins k v m) k' = (if k' = k then Some v else look m k')"
    and entries_sorted: "wf m \<Longrightarrow> sorted_wrt (<) (map fst (entries m))"
    and entries_look: "wf m \<Longrightarrow> map_of (entries m) = look m"
begin

lemma entries_mem: "wf m \<Longrightarrow> (k, v) \<in> set (entries m) \<longleftrightarrow> look m k = Some v"
proof -
  assume wf: "wf m"
  have "distinct (map fst (entries m))"
    using entries_sorted [OF wf] by (simp add: strict_sorted_iff)
  then show ?thesis using entries_look [OF wf] by (metis map_of_eq_Some_iff)
qed

lemma last_entry:
  assumes "wf m" "entries m \<noteq> []" "last (entries m) = (k, v)"
  shows "look m k = Some v \<and> (\<forall>k' v'. look m k' = Some v' \<longrightarrow> k' \<le> k)"
proof -
  have split: "entries m = butlast (entries m) @ [(k, v)]"
    using assms(2,3) by (metis append_butlast_last_id)
  have "(k, v) \<in> set (entries m)" using assms(2,3) by (metis last_in_set)
  moreover have "k' \<le> k" if "(k', v') \<in> set (entries m)" for k' v'
  proof -
    obtain es where es: "entries m = es @ [(k, v)]" using split by blast
    then show ?thesis using that entries_sorted [OF assms(1)] by (force simp: sorted_wrt_append)
  qed
  ultimately show ?thesis using entries_mem [OF assms(1)] by blast
qed

text \<open>A key above all others becomes the last.\<close>

lemma last_ins:
  assumes "wf m" "\<forall>k' v'. look m k' = Some v' \<longrightarrow> k' \<le> k"
  shows "entries (ins k v m) \<noteq> [] \<and> last (entries (ins k v m)) = (k, v)"
proof -
  have wf: "wf (ins k v m)" using assms(1) by (rule wf_ins)
  have "(k, v) \<in> set (entries (ins k v m))"
    using entries_mem [OF wf] look_ins [OF assms(1)] by simp
  then have ne: "entries (ins k v m) \<noteq> []" by auto
  obtain k2 v2 where l: "last (entries (ins k v m)) = (k2, v2)" by fastforce
  have "look (ins k v m) k2 = Some v2" "k \<le> k2"
    using last_entry [OF wf ne l] look_ins [OF assms(1), of k v k] by auto
  then have "k2 = k \<and> v2 = v"
    using look_ins [OF assms(1), of k v k2] assms(2) by (auto split: if_splits)
  with ne l show ?thesis by simp
qed

end

lemma fst_bt_insert: "set (map fst (bt_insert k v m)) = insert k (set (map fst m))"
  by (induction k v m rule: bt_insert.induct) auto

lemma map_of_bt_insert: "bt_wf m \<Longrightarrow> map_of (bt_insert k v m) = (map_of m)(k \<mapsto> v)"
  by (induction k v m rule: bt_insert.induct) (auto simp: bt_wf_def fun_upd_def)

lemma bt_wf_insert: "bt_wf m \<Longrightarrow> bt_wf (bt_insert k v m)"
proof (induction k v m rule: bt_insert.induct)
  case (2 k v k' v' m)
  then show ?case
    using fst_bt_insert [of k v m] by (fastforce simp: bt_wf_def)
qed (simp add: bt_wf_def)

interpretation btree: ordered_map bt_get bt_insert bt_entries bt_wf
proof unfold_locales
  show "bt_wf (bt_insert k v m)" if "bt_wf m" for m :: "('k::linorder, 'v) btree" and k v
    using that by (rule bt_wf_insert)
  show "bt_get (bt_insert k v m) k' = (if k' = k then Some v else bt_get m k')" if "bt_wf m"
    for m :: "('k::linorder, 'v) btree" and k v k'
    using that by (simp add: bt_get_def map_of_bt_insert)
qed (simp_all add: bt_wf_def bt_entries_def bt_get_def [abs_def])

lemma bt_wf_Nil [simp]: "bt_wf []"
  by (simp add: bt_wf_def)

lemma bt_wf_retain: "bt_wf m \<Longrightarrow> bt_wf (bt_retain P m)"
  by (induction m) (auto simp: bt_wf_def bt_retain_def)

lemma bt_get_retain:
  assumes "bt_wf m"
  shows "bt_get (bt_retain P m) k = (case bt_get m k of None \<Rightarrow> None | Some v \<Rightarrow> if P k v then Some v else None)"
  using assms
proof (induction m)
  case (Cons x m)
  then have "bt_get m (fst x) = None"
    by (force simp: bt_wf_def bt_get_def map_of_eq_None_iff)
  with Cons show ?case
    by (cases x) (auto simp: bt_wf_def bt_retain_def bt_get_def split: option.splits)
qed (simp add: bt_get_def bt_retain_def)

text \<open>Inserting entries one by one in key order rebuilds the map.\<close>

lemma bt_insert_append:
  "(\<forall>k' \<in> set (map fst m). k' < k) \<Longrightarrow> bt_insert k v m = m @ [(k, v)]"
  by (induction k v m rule: bt_insert.induct) auto

lemma fold_bt_insert:
  assumes "sorted_wrt (<) (map fst (m @ es))"
  shows "foldl (\<lambda>m (k, v). bt_insert k v m) m es = m @ es"
  using assms
proof (induction es arbitrary: m)
  case (Cons e es)
  obtain k v where e: "e = (k, v)" by (cases e)
  with Cons.prems have "bt_insert k v m = m @ [(k, v)]"
    by (intro bt_insert_append) (auto simp: sorted_wrt_append)
  then show ?case using Cons e by simp
qed simp

end
