(* ===== verification/Light_Client.thy ===== *)
theory Light_Client
  imports Proof_Verifier Btree
begin

text \<open>
  The light client (\<open>src/src/light_client.rs\<close>): its configuration, the headers it holds, the
  header check of \<open>sync_to_latest\<close>, the app hash after a block, the chain's latest height, and
  the check of a proof's root against them.

  The client's state is the map of headers, \<open>lc_headers\<close>, beside the world; its configuration is
  an argument \<open>C\<close>. A time is its nanoseconds since the epoch. Additions and sums of u64 wrap, as
  in a release build.
\<close>

section \<open>Configuration\<close>

record light_client_config =
  chain_id :: str
  validator_endpoints :: "str list"
  min_validators_for_consensus :: nat
  trust_threshold :: "u64 \<times> u64"
  trusting_period :: duration
  max_clock_drift :: duration
  rpc_timeout :: duration
  auto_sync :: bool
  max_proof_lag_blocks :: u64

definition secs :: "nat \<Rightarrow> duration" where
  "secs n = n * 10 ^ 9"

definition DEFAULT_MAX_PROOF_LAG_BLOCKS :: u64 where
  "DEFAULT_MAX_PROOF_LAG_BLOCKS = 20"

definition config_builder :: "str \<Rightarrow> light_client_config" where
  "config_builder chain =
     \<lparr>chain_id = chain, validator_endpoints = [], min_validators_for_consensus = 1,
      trust_threshold = (2, 3), trusting_period = secs 86400, max_clock_drift = secs 10,
      rpc_timeout = secs 10, auto_sync = True,
      max_proof_lag_blocks = DEFAULT_MAX_PROOF_LAG_BLOCKS\<rparr>"

section \<open>Blocks\<close>

record part_set_header =
  psh_total :: u32
  psh_hash :: bytes

record block_id =
  bid_hash :: bytes
  bid_parts :: "part_set_header option"

record header =
  hd_chain_id :: str
  hd_height :: u64
  hd_time :: int
  hd_last_block_id :: "block_id option"
  hd_validators_hash :: bytes
  hd_next_validators_hash :: bytes
  hd_app_hash :: bytes

datatype commit_sig = BlockIdFlagCommit bytes int bytes | BlockIdFlagNil | BlockIdFlagAbsent

record commit =
  cm_height :: u64
  cm_round :: u32
  cm_block_id :: block_id
  cm_signatures :: "commit_sig list"

datatype public_key = Ed25519 bytes | Secp256k1 bytes

record validator =
  va_address :: bytes
  va_pub_key :: public_key
  va_voting_power :: u64

record validator_set =
  vs_validators :: "validator list"
  vs_total_voting_power :: u64

record light_block =
  lb_header :: header
  lb_commit :: commit
  lb_validators :: validator_set

record trusted_state =
  ts_chain_id :: str
  ts_headers :: "light_block list"

record lc_world = world +
  lc_headers :: "(u64, light_block) btree"

definition lc_error :: "str \<Rightarrow> arg list \<Rightarrow> willow_error" where
  "lc_error m xs = LightClientError (Fmt m xs)"

section \<open>Parsing CometBFT's answers\<close>

definition parse_hex_bytes :: "lib \<Rightarrow> str \<Rightarrow> bytes" where
  "parse_hex_bytes L s = (case hex_decode L s of Inl _ \<Rightarrow> [] | Inr b \<Rightarrow> b)"

definition hex_member :: "lib \<Rightarrow> jvalue \<Rightarrow> str \<Rightarrow> bytes" where
  "hex_member L v k = parse_hex_bytes L (str_or_empty (jindex v k))"

definition u64_member :: "jvalue \<Rightarrow> str \<Rightarrow> u64 option" where
  "u64_member v k = Option.bind (as_str (jindex v k)) parse_u64"

definition u32_member :: "jvalue \<Rightarrow> str \<Rightarrow> u32 option" where
  "u32_member v k = Option.bind (as_str (jindex v k)) parse_u32"

definition unwrap_or :: "'a option \<Rightarrow> 'a \<Rightarrow> 'a" where
  "unwrap_or x d = (case x of None \<Rightarrow> d | Some v \<Rightarrow> v)"

definition time_member :: "lib \<Rightarrow> int \<Rightarrow> jvalue \<Rightarrow> str \<Rightarrow> int" where
  "time_member L now v k = unwrap_or (Option.bind (as_str (jindex v k)) (parse_rfc3339 L)) now"

definition parse_block_id :: "lib \<Rightarrow> jvalue \<Rightarrow> block_id option" where
  "parse_block_id L v =
     map_option (\<lambda>hash.
       \<lparr>bid_hash = parse_hex_bytes L hash,
        bid_parts = (let p = jindex v ''parts'' in
          if is_object p
          then Some \<lparr>psh_total = unwrap_or (u32_member p ''total'') 0, psh_hash = hex_member L p ''hash''\<rparr>
          else None)\<rparr>)
       (as_str (jindex v ''hash''))"

definition parse_commit_sig :: "lib \<Rightarrow> int \<Rightarrow> jvalue \<Rightarrow> commit_sig" where
  "parse_commit_sig L now sig =
     (let flag = str_or_empty (jindex sig ''block_id_flag'') in
      if flag = ''BLOCK_ID_FLAG_COMMIT''
      then BlockIdFlagCommit (hex_member L sig ''validator_address'') (time_member L now sig ''timestamp'')
             (hex_member L sig ''signature'')
      else if flag = ''BLOCK_ID_FLAG_NIL'' then BlockIdFlagNil
      else BlockIdFlagAbsent)"

definition parse_commit_signatures :: "lib \<Rightarrow> int \<Rightarrow> jvalue \<Rightarrow> commit_sig list" where
  "parse_commit_signatures L now v =
     (case as_array v of None \<Rightarrow> [] | Some arr \<Rightarrow> map (parse_commit_sig L now) arr)"

definition parse_validator :: "lib \<Rightarrow> jvalue \<Rightarrow> validator" where
  "parse_validator L v =
     (let pub_key = jindex v ''pub_key'';
          key_type = str_or_empty (jindex pub_key ''type'');
          key = (case base64_decode L (str_or_empty (jindex pub_key ''value'')) of Inl _ \<Rightarrow> [] | Inr b \<Rightarrow> b)
      in \<lparr>va_address = hex_member L v ''address'',
          va_pub_key = (if sublist ''ed25519'' key_type then Ed25519 key else Secp256k1 key),
          va_voting_power = unwrap_or (u64_member v ''voting_power'') 0\<rparr>)"

definition parse_validator_set :: "lib \<Rightarrow> jvalue \<Rightarrow> validator_set" where
  "parse_validator_set L v =
     (case as_array v of
        None \<Rightarrow> \<lparr>vs_validators = [], vs_total_voting_power = 0\<rparr>
      | Some arr \<Rightarrow>
          (let validators = map (parse_validator L) arr in
           \<lparr>vs_validators = validators,
            vs_total_voting_power = sum_list (map va_voting_power validators)\<rparr>))"

definition parse_light_block :: "lib \<Rightarrow> int \<Rightarrow> jvalue \<Rightarrow> jvalue \<Rightarrow> light_block" where
  "parse_light_block L now commit_resp validators_resp =
     (let signed_header = jpath commit_resp [''result'', ''signed_header''];
          h = jindex signed_header ''header''; c = jindex signed_header ''commit''
      in \<lparr>lb_header =
            \<lparr>hd_chain_id = str_or_empty (jindex h ''chain_id''),
             hd_height = unwrap_or (u64_member h ''height'') 0,
             hd_time = time_member L now h ''time'',
             hd_last_block_id = parse_block_id L (jindex h ''last_block_id''),
             hd_validators_hash = hex_member L h ''validators_hash'',
             hd_next_validators_hash = hex_member L h ''next_validators_hash'',
             hd_app_hash = hex_member L h ''app_hash''\<rparr>,
          lb_commit =
            \<lparr>cm_height = unwrap_or (u64_member c ''height'') 0,
             cm_round = unwrap_or (u32_member c ''round'') 0,
             cm_block_id = unwrap_or (parse_block_id L (jindex c ''block_id'')) \<lparr>bid_hash = [], bid_parts = None\<rparr>,
             cm_signatures = parse_commit_signatures L now (jindex c ''signatures'')\<rparr>,
          lb_validators = parse_validator_set L (jpath validators_resp [''result'', ''validators''])\<rparr>)"

section \<open>Creating a client, and the headers it holds\<close>

definition new_light_client :: "lib \<Rightarrow> light_client_config \<Rightarrow> light_client_config res" where
  "new_light_client L C =
     (if fst (trust_threshold C) > snd (trust_threshold C)
      then Inl (Config (Fmt ''Trust threshold numerator cannot exceed denominator'' []))
      else if chain_id C = [] then Inl (Config (Fmt ''Chain ID cannot be empty'' []))
      else map_err (\<lambda>e. Config (Fmt ''Failed to create HTTP client: {}'' [Str e]))
        (map_sum id (\<lambda>_. C) (http_client_build L (rpc_timeout C))))"

definition store_header :: "light_block \<Rightarrow> 'z lc_world_scheme \<Rightarrow> 'z lc_world_scheme" where
  "store_header b s = s\<lparr>lc_headers := bt_insert (hd_height (lb_header b)) b (lc_headers s)\<rparr>"

definition initialize_with_trusted_header ::
  "light_client_config \<Rightarrow> light_block \<Rightarrow> ('z lc_world_scheme, unit res) io" where
  "initialize_with_trusted_header C b = (\<lambda>s.
     if hd_chain_id (lb_header b) \<noteq> chain_id C
     then (Inl (lc_error ''Chain ID mismatch: expected {}, got {}''
                  [Str (chain_id C), Str (hd_chain_id (lb_header b))]), s)
     else (Inr (), store_header b s))"

definition get_latest_header :: "'z lc_world_scheme \<Rightarrow> light_block option" where
  "get_latest_header s = map_option snd (bt_last (lc_headers s))"

definition get_header_by_height :: "'z lc_world_scheme \<Rightarrow> u64 \<Rightarrow> light_block option" where
  "get_header_by_height s height = bt_get (lc_headers s) height"

definition get_verified_height_range :: "'z lc_world_scheme \<Rightarrow> (u64 \<times> u64) option" where
  "get_verified_height_range s =
     (case lc_headers s of [] \<Rightarrow> None
      | (k, _) # _ \<Rightarrow> map_option (\<lambda>(k', _). (k, k')) (bt_last (lc_headers s)))"

section \<open>The header check\<close>

definition create_vote_sign_bytes :: "light_client_config \<Rightarrow> light_block \<Rightarrow> bytes res" where
  "create_vote_sign_bytes C b =
     (let t = hd_time (lb_header b) in
      if t < - (2 ^ 63) \<or> t \<ge> 2 ^ 63 then Inl (lc_error ''Invalid timestamp'' [])
      else Inr ([2] @ le_bytes 8 (unat (hd_height (lb_header b)))
        @ le_bytes 4 (unat (cm_round (lb_commit b)))
        @ (case hd_last_block_id (lb_header b) of
             Some i \<Rightarrow> bid_hash i @ replicate 32 0
           | None \<Rightarrow> replicate 64 0)
        @ le_bytes 8 (nat (t mod 2 ^ 64)) @ str_bytes (chain_id C)))"

definition verify_signature ::
  "lib \<Rightarrow> light_client_config \<Rightarrow> validator \<Rightarrow> bytes \<Rightarrow> light_block \<Rightarrow> bool res" where
  "verify_signature L C v sig b =
     rbind (create_vote_sign_bytes C b) (\<lambda>sign_bytes.
     case va_pub_key v of
       Ed25519 pk \<Rightarrow>
         if length pk \<noteq> 32 \<or> length sig \<noteq> 64 then Inr False
         else rbind (map_err (\<lambda>e. lc_error ''Invalid Ed25519 key: {}'' [Str e]) (ed25519_key L pk))
                (\<lambda>_. Inr (ed25519_verify L pk sig sign_bytes))
     | Secp256k1 pk \<Rightarrow>
         if (length pk \<noteq> 33 \<and> length pk \<noteq> 65) \<or> (length sig \<noteq> 64 \<and> length sig \<noteq> 65) then Inr False
         else
           rbind (map_err (\<lambda>e. lc_error ''Invalid Secp256k1 key: {}'' [Str e]) (secp256k1_key L pk)) (\<lambda>_.
           rbind (map_err (\<lambda>e. lc_error ''Invalid Secp256k1 signature: {}'' [Str e])
                    (secp256k1_signature L (take 64 sig)))
             (\<lambda>_. Inr (secp256k1_verify L pk (take 64 sig) (sha256 L sign_bytes)))))"

fun add_signed_power ::
  "lib \<Rightarrow> light_client_config \<Rightarrow> light_block \<Rightarrow> u64 \<Rightarrow> commit_sig list \<Rightarrow> u64 res" where
  "add_signed_power L C b pw [] = Inr pw"
| "add_signed_power L C b pw (BlockIdFlagCommit addr t sig # sigs) =
     rbind (ok_or (List.find (\<lambda>v. va_address v = addr) (vs_validators (lb_validators b)))
              (lc_error ''Validator not found for signature'' [])) (\<lambda>v.
     rbind (verify_signature L C v sig b) (\<lambda>valid.
     add_signed_power L C b (if valid then pw + va_voting_power v else pw) sigs))"
| "add_signed_power L C b pw (_ # sigs) = add_signed_power L C b pw sigs"

definition verify_commit_signatures ::
  "lib \<Rightarrow> light_client_config \<Rightarrow> light_block \<Rightarrow> (u64 \<times> u64) res" where
  "verify_commit_signatures L C b =
     rbind (add_signed_power L C b 0 (cm_signatures (lb_commit b)))
       (\<lambda>pw. Inr (pw, vs_total_voting_power (lb_validators b)))"

definition div_ceil :: "u64 \<Rightarrow> u64 \<Rightarrow> u64 res" where
  "div_ceil a b =
     (if b = 0 then Inl (Panicked ''attempt to divide by zero'')
      else Inr (if a mod b > 0 then a div b + 1 else a div b))"

definition from_std_unwrap :: "lib \<Rightarrow> duration \<Rightarrow> int res" where
  "from_std_unwrap L d = ok_or (chrono_from_std L d) (Panicked ''OutOfRangeError'')"

definition verify_header ::
  "lib \<Rightarrow> light_client_config \<Rightarrow> int \<Rightarrow> light_block \<Rightarrow> light_block \<Rightarrow> unit res" where
  "verify_header L C now trusted untrusted =
     (let h = lb_header untrusted; t = lb_header trusted in
      if hd_chain_id h \<noteq> chain_id C
      then Inl (lc_error ''Chain ID mismatch: expected {}, got {}'' [Str (chain_id C), Str (hd_chain_id h)])
      else if hd_height h \<noteq> hd_height t + 1
      then Inl (lc_error ''Non-sequential headers: {} -> {}''
             [Num (unat (hd_height t)), Num (unat (hd_height h))])
      else if hd_time h \<le> hd_time t then Inl (lc_error ''Header time did not progress'' [])
      else
        rbind (from_std_unwrap L (trusting_period C)) (\<lambda>period.
        if now - hd_time h > period then Inl (lc_error ''Header is outside trusting period'' [])
        else
          rbind (from_std_unwrap L (max_clock_drift C)) (\<lambda>drift.
          if hd_time h > now + drift then Inl (lc_error ''Header time is too far in the future'' [])
          else if hd_validators_hash h \<noteq> hd_next_validators_hash t
          then Inl (lc_error ''Validator set hash mismatch'' [])
          else
            rbind (verify_commit_signatures L C untrusted) (\<lambda>(signed_power, total_power).
            rbind (div_ceil (total_power * fst (trust_threshold C)) (snd (trust_threshold C)))
              (\<lambda>threshold_power.
            if signed_power < threshold_power
            then Inl (lc_error ''Insufficient voting power: {} < {} required''
                   [Num (unat signed_power), Num (unat threshold_power)])
            else Inr ())))))"

definition verify_and_store_header ::
  "lib \<Rightarrow> light_client_config \<Rightarrow> light_block \<Rightarrow> ('z lc_world_scheme, unit res) io" where
  "verify_and_store_header L C b = (\<lambda>s.
     case get_latest_header s of
       None \<Rightarrow> (Inl (lc_error ''No trusted header available'' []), s)
     | Some trusted \<Rightarrow>
         (case verify_header L C (fst (utc_now_io s)) trusted b of
            Inl e \<Rightarrow> (Inl e, s)
          | Inr _ \<Rightarrow> (Inr (), store_header b s)))"

section \<open>Asking the endpoints\<close>

definition network_error :: "reqwest_error \<Rightarrow> willow_error" where
  "network_error e = Network (Fmt ''{}'' [Str (rq_text e)])"

definition get_value :: "lib \<Rightarrow> str \<Rightarrow> ('z world_scheme, jvalue res) io" where
  "get_value L url = (\<lambda>s.
     case send (Get url []) s of
       (Inl e, s) \<Rightarrow> (Inl (network_error e), s)
     | (Inr resp, s) \<Rightarrow>
         (map_err (\<lambda>e. Network (Fmt ''{}'' [Shown e])) (json (json_from_slice L) resp SMALL), s))"

definition base_url :: "str \<Rightarrow> str" where
  "base_url endpoint = trim_end_matches (CHR ''/'') endpoint"

definition fetch_block_from_endpoint ::
  "lib \<Rightarrow> str \<Rightarrow> u64 \<Rightarrow> ('z world_scheme, light_block res) io" where
  "fetch_block_from_endpoint L endpoint height =
     try_io (get_value L (if height = 0 then base_url endpoint @ ''/commit''
                          else base_url endpoint @ ''/commit?height='' @ dec (unat height)))
       (\<lambda>commit_resp.
     let actual_height = unwrap_or
           (u64_member (jpath commit_resp [''result'', ''signed_header'', ''header'']) ''height'') height
     in try_io (get_value L (base_url endpoint @ ''/validators?height='' @ dec (unat actual_height)))
          (\<lambda>validators_resp. bind_io utc_now_io (\<lambda>now.
            ret (Inr (parse_light_block L now commit_resp validators_resp)))))"

fun fetch_block_from ::
  "lib \<Rightarrow> willow_error option \<Rightarrow> str list \<Rightarrow> u64 \<Rightarrow> ('z world_scheme, light_block res) io" where
  "fetch_block_from L last_error [] height =
     ret (Inl (unwrap_or last_error (lc_error ''No validator endpoints available'' [])))"
| "fetch_block_from L last_error (endpoint # endpoints) height =
     bind_io (fetch_block_from_endpoint L endpoint height) (\<lambda>r.
     case r of Inr b \<Rightarrow> ret (Inr b)
     | Inl e \<Rightarrow> fetch_block_from L (Some e) endpoints height)"

definition fetch_block_at_height ::
  "lib \<Rightarrow> light_client_config \<Rightarrow> u64 \<Rightarrow> ('z world_scheme, light_block res) io" where
  "fetch_block_at_height L C height = fetch_block_from L None (validator_endpoints C) height"

text \<open>The blocks of \<open>(current + 1)..=target\<close>, one after another.\<close>

fun sync_heights ::
  "lib \<Rightarrow> light_client_config \<Rightarrow> u64 list \<Rightarrow> ('z lc_world_scheme, unit res) io" where
  "sync_heights L C [] = ret (Inr ())"
| "sync_heights L C (height # heights) =
     try_io (fetch_block_at_height L C height) (\<lambda>b.
     try_io (verify_and_store_header L C b) (\<lambda>_. sync_heights L C heights))"

definition current_height :: "'z lc_world_scheme \<Rightarrow> u64" where
  "current_height s = (case bt_last (lc_headers s) of None \<Rightarrow> 0 | Some (h, _) \<Rightarrow> h)"

definition sync_to_latest :: "lib \<Rightarrow> light_client_config \<Rightarrow> ('z lc_world_scheme, unit res) io" where
  "sync_to_latest L C =
     (if validator_endpoints C = [] then ret (Inl (lc_error ''No validator endpoints configured'' []))
      else
        try_io (fetch_block_at_height L C 0) (\<lambda>latest.
        let target_height = hd_height (lb_header latest) in
        bind_io (\<lambda>s. (current_height s, s)) (\<lambda>current.
        if current \<ge> target_height then ret (Inr ())
        else if current = 0
        then try_io (initialize_with_trusted_header C latest) (\<lambda>_. ret (Inr ()))
        else sync_heights L C (incl_range (current + 1) target_height))))"

definition initialize_with_trust_on_first_use ::
  "lib \<Rightarrow> light_client_config \<Rightarrow> ('z lc_world_scheme, unit res) io" where
  "initialize_with_trust_on_first_use L C =
     (if validator_endpoints C = []
      then ret (Inl (lc_error ''No validator endpoints configured for trust-on-first-use initialization'' []))
      else try_io (fetch_block_at_height L C 0) (\<lambda>latest s. (Inr (), store_header latest s)))"

definition get_verified_root_hash ::
  "lib \<Rightarrow> light_client_config \<Rightarrow> ('z lc_world_scheme, str res) io" where
  "get_verified_root_hash L C =
     try_io (\<lambda>s. if lc_headers s = [] then initialize_with_trust_on_first_use L C s else (Inr (), s))
       (\<lambda>_ s. (map_sum id (\<lambda>b. hex_encode L (hd_app_hash (lb_header b)))
                (ok_or (get_latest_header s) (lc_error ''No trusted header available'' [])), s))"

definition new_async ::
  "lib \<Rightarrow> light_client_config \<Rightarrow> ('z lc_world_scheme, light_client_config res) io" where
  "new_async L C =
     try_io (ret (new_light_client L C)) (\<lambda>client.
     if auto_sync client \<and> validator_endpoints client \<noteq> []
     then try_io (sync_to_latest L client) (\<lambda>_. ret (Inr client))
     else ret (Inr client))"

subsection \<open>The app hash of a height\<close>

definition fetch_app_hash_at ::
  "lib \<Rightarrow> str \<Rightarrow> u64 \<Rightarrow> ('z world_scheme, bytes option) io" where
  "fetch_app_hash_at L endpoint height =
     bind_io (get_value L (base_url endpoint @ ''/commit?height='' @ dec (unat height))) (\<lambda>r.
     ret (case r of Inl _ \<Rightarrow> None
       | Inr body \<Rightarrow>
           (let h = jpath body [''result'', ''signed_header'', ''header''] in
            case (u64_member h ''height'', Option.bind (as_str (jindex h ''app_hash''))
                     (\<lambda>t. case hex_decode L t of Inl _ \<Rightarrow> None | Inr b \<Rightarrow> Some b)) of
              (Some served_height, Some app_hash) \<Rightarrow>
                if served_height = height \<and> length app_hash = 32 then Some app_hash else None
            | _ \<Rightarrow> None)))"

fun first_app_hash :: "lib \<Rightarrow> str list \<Rightarrow> u64 \<Rightarrow> ('z world_scheme, bytes option) io" where
  "first_app_hash L [] height = ret None"
| "first_app_hash L (endpoint # endpoints) height =
     bind_io (fetch_app_hash_at L endpoint height) (\<lambda>r.
     case r of Some app_hash \<Rightarrow> ret (Some app_hash)
     | None \<Rightarrow> first_app_hash L endpoints height)"

lemma get_value_now: "get_value L url s = (r, s') \<Longrightarrow> w_now s \<le> w_now s'"
  by (cases "send (Get url []) s") (auto simp: get_value_def split: sum.splits dest: send_now)

lemma fetch_app_hash_at_now:
  "fetch_app_hash_at L endpoint height s = (r, s') \<Longrightarrow> w_now s \<le> w_now s'"
  unfolding fetch_app_hash_at_def bind_io_eq_iff by (auto dest: get_value_now)

lemma first_app_hash_now:
  "first_app_hash L endpoints height s = (r, s') \<Longrightarrow> w_now s \<le> w_now s'"
proof (induction endpoints arbitrary: s)
  case (Cons endpoint endpoints)
  then obtain h s1 where f: "fetch_app_hash_at L endpoint height s = (h, s1)" by fastforce
  then show ?case
    using Cons fetch_app_hash_at_now [OF f] by (cases h) (fastforce intro: order_trans)+
qed simp

text \<open>The loop of \<open>app_hash_after\<close>: each turn asks every endpoint, and ends, after the last that
  had no answer, once the deadline passed; else it waits half a second.\<close>

function wait_app_hash ::
  "lib \<Rightarrow> str list \<Rightarrow> instant \<Rightarrow> u64 \<Rightarrow> u64 \<Rightarrow> ('z world_scheme, bytes res) io" where
  "wait_app_hash L endpoints deadline height next s =
     (case first_app_hash L endpoints next s of
        (Some app_hash, s) \<Rightarrow> (Inr app_hash, s)
      | (None, s) \<Rightarrow>
          if w_now s \<ge> deadline
          then (Inl (lc_error ''no header at height {next} (the state after block {height}) from any validator endpoint''
                 [Num (unat next), Num (unat height)]), s)
          else wait_app_hash L endpoints deadline height next (snd (sleep_io (5 * 10 ^ 8) s)))"
  by pat_completeness auto
termination
proof (relation "measure (\<lambda>(_, _, deadline, _, _, s). deadline - w_now s)")
  fix L endpoints deadline height "next" b and s s1 :: "'z world_scheme"
  assume f: "(b, s1) = first_app_hash L endpoints next s" and late: "\<not> deadline \<le> w_now s1"
  have "w_now s \<le> w_now s1" using first_app_hash_now f by metis
  with late show "((L, endpoints, deadline, height, next, snd (sleep_io (5 * 10 ^ 8) s1)),
      L, endpoints, deadline, height, next, s) \<in> measure (\<lambda>(_, _, deadline, _, _, s). deadline - w_now s)"
    by (simp add: sleep_io_def)
qed simp

declare wait_app_hash.simps [simp del]

definition app_hash_after ::
  "lib \<Rightarrow> light_client_config \<Rightarrow> u64 \<Rightarrow> ('z lc_world_scheme, bytes res) io" where
  "app_hash_after L C height = (\<lambda>s.
     case checked_add height 1 of
       None \<Rightarrow> (Inl (lc_error ''no block after height {height}'' [Num (unat height)]), s)
     | Some next \<Rightarrow>
         (case get_header_by_height s next of
            Some b \<Rightarrow> (Inr (hd_app_hash (lb_header b)), s)
          | None \<Rightarrow>
              if validator_endpoints C = []
              then (Inl (lc_error ''No validator endpoints configured'' []), s)
              else wait_app_hash L (validator_endpoints C) (w_now s + rpc_timeout C) height next s))"

definition app_hash_at ::
  "lib \<Rightarrow> light_client_config \<Rightarrow> u64 \<Rightarrow> ('z lc_world_scheme, bytes res) io" where
  "app_hash_at L C height = (\<lambda>s.
     case get_header_by_height s height of
       Some b \<Rightarrow> (Inr (hd_app_hash (lb_header b)), s)
     | None \<Rightarrow>
         (case first_app_hash L (validator_endpoints C) height s of
            (Some app_hash, s) \<Rightarrow> (Inr app_hash, s)
          | (None, s) \<Rightarrow> (Inl (lc_error ''no header at height {height} from any validator endpoint''
                           [Num (unat height)]), s)))"

fun current_app_hash :: "lib \<Rightarrow> str list \<Rightarrow> ('z world_scheme, bytes res) io" where
  "current_app_hash L [] =
     ret (Inl (lc_error ''Could not fetch current app_hash from any validator endpoint'' []))"
| "current_app_hash L (endpoint # endpoints) = (\<lambda>s.
     case send (Get (base_url endpoint @ ''/block_results'') []) s of
       (Inl _, s) \<Rightarrow> current_app_hash L endpoints s
     | (Inr resp, s) \<Rightarrow>
         (case json (json_from_slice L) resp LARGE of
            Inl _ \<Rightarrow> current_app_hash L endpoints s
          | Inr v \<Rightarrow>
              (case Option.bind (Option.bind (jget v ''result'') (\<lambda>r. jget r ''app_hash'')) as_str of
                 None \<Rightarrow> current_app_hash L endpoints s
               | Some hash_b64 \<Rightarrow>
                   (map_err (\<lambda>e. lc_error ''Invalid app_hash base64 from block_results: {}'' [Str e])
                      (base64_decode L hash_b64), s))))"

definition fetch_current_app_hash ::
  "lib \<Rightarrow> light_client_config \<Rightarrow> ('z world_scheme, bytes res) io" where
  "fetch_current_app_hash L C = current_app_hash L (validator_endpoints C)"

subsection \<open>The chain's latest height\<close>

definition fetch_status_height :: "lib \<Rightarrow> str \<Rightarrow> ('z world_scheme, u64 option) io" where
  "fetch_status_height L endpoint =
     bind_io (get_value L (base_url endpoint @ ''/status'')) (\<lambda>r.
     ret (case r of Inl _ \<Rightarrow> None
       | Inr body \<Rightarrow>
           (case u64_member (jpath body [''result'', ''sync_info'']) ''latest_block_height'' of
              None \<Rightarrow> None
            | Some h \<Rightarrow> if h > 0 then Some h else None)))"

text \<open>\<open>join_all\<close>, then \<open>flatten\<close>: the answers of the endpoints, in the endpoints' order. (The
  requests are sent at once; here they are sent in order, which an arbitrary \<open>w_answer\<close> makes
  no difference to.)\<close>

fun status_heights :: "lib \<Rightarrow> str list \<Rightarrow> ('z world_scheme, u64 list) io" where
  "status_heights L [] = ret []"
| "status_heights L (endpoint # endpoints) =
     bind_io (fetch_status_height L endpoint) (\<lambda>h.
     bind_io (status_heights L endpoints) (\<lambda>hs.
     ret ((case h of None \<Rightarrow> [] | Some h \<Rightarrow> [h]) @ hs)))"

text \<open>The \<open>k\<close>-th of the heights, highest first, where \<open>k\<close> is a majority, or \<open>needed\<close> if more.\<close>

definition reached_height :: "nat \<Rightarrow> u64 list \<Rightarrow> u64" where
  "reached_height needed heights =
     rev (sort heights) ! (max needed (length heights div 2 + 1) - 1)"

definition latest_chain_height ::
  "lib \<Rightarrow> light_client_config \<Rightarrow> ('z lc_world_scheme, u64 res) io" where
  "latest_chain_height L C =
     bind_io (status_heights L (validator_endpoints C)) (\<lambda>heights s.
     let needed = max (min_validators_for_consensus C) 1 in
     if length heights < needed
     then (Inl (lc_error ''{} validator endpoints reported the latest height; {needed} are needed''
            [Num (length heights), Num needed]), s)
     else
       (let held = (case get_latest_header s of None \<Rightarrow> 0 | Some b \<Rightarrow> hd_height (lb_header b))
        in (Inr (max (reached_height needed heights) held), s)))"

section \<open>Checking a root\<close>

fun carried_by ::
  "lib \<Rightarrow> light_client_config \<Rightarrow> bytes \<Rightarrow> willow_error \<Rightarrow> u64 list \<Rightarrow> ('z lc_world_scheme, u64 res) io" where
  "carried_by L C root stale [] = ret (Inl stale)"
| "carried_by L C root stale (height # heights) =
     try_io (app_hash_at L C height) (\<lambda>app_hash.
     if app_hash = root then ret (Inr height) else carried_by L C root stale heights)"

definition verify_root_after ::
  "lib \<Rightarrow> light_client_config \<Rightarrow> bytes \<Rightarrow> u64 \<Rightarrow> ('z lc_world_scheme, u64 res) io" where
  "verify_root_after L C root height =
     (let lag = max_proof_lag_blocks C in
      try_io (latest_chain_height L C) (\<lambda>latest.
      if height > latest \<and> height - latest > lag
      then ret (Inl (ProofHeightOutOfRange (Fmt
             ''the proof is of the state after block {height}, {} blocks ahead of the chain's latest height {latest}''
             [Num (unat height), Num (unat (height - latest)), Num (unat latest), Num (unat lag)])))
      else
        try_io (ret (ok_or (checked_add height 1)
          (lc_error ''no block after height {height}'' [Num (unat height)]))) (\<lambda>next.
        try_io (app_hash_after L C height) (\<lambda>carried.
        if carried \<noteq> root
        then ret (Inl (ProofVerificationFailed (Fmt
               ''Root hash mismatch: the proof computes {} but the header after block {height} has app hash {}''
               [Hex root, Num (unat height), Hex carried])))
        else if saturating_sub latest height \<le> lag then ret (Inr next)
        else carried_by L C root
          (ProofHeightOutOfRange (Fmt
             ''the proof is of the state after block {height}, {} blocks behind the chain's latest height {latest}''
             [Num (unat height), Num (unat (latest - height)), Num (unat latest), Num (unat lag)]))
          (if lag > 0 then [latest, latest - lag + 1] else [])))))"

definition lc_verify_item ::
  "lib \<Rightarrow> light_client_config \<Rightarrow> bytes \<Rightarrow> bytes list \<Rightarrow> bytes \<Rightarrow> bytes \<Rightarrow> u64
    \<Rightarrow> ('z lc_world_scheme, bytes res) io" where
  "lc_verify_item L C proof path key val height =
     try_io (ret (verify_item_at_path (lib_grovedb L) proof path key)) (\<lambda>(root, item).
     if item \<noteq> val
     then ret (Inl (proof_error ''the proof proves another value at the path and key'' []))
     else
       try_io (app_hash_after L C height) (\<lambda>trusted.
       if root \<noteq> trusted
       then ret (Inl (proof_error
              ''Root hash mismatch: the proof computes {} but the header after block {height} has app hash {}''
              [Hex root, Num (unat height), Hex trusted]))
       else ret (Inr root)))"

definition lc_verify_proof ::
  "bytes \<Rightarrow> bytes list \<Rightarrow> bytes \<Rightarrow> u64 option \<Rightarrow> bool res" where
  "lc_verify_proof proof path key height =
     Inl (Unsupported (Fmt ''verify_proof binds no value to the key; use LightClient::verify_item'' []))"

definition lc_verify_proof_hex ::
  "lib \<Rightarrow> str \<Rightarrow> bytes list \<Rightarrow> bytes \<Rightarrow> u64 option \<Rightarrow> bool res" where
  "lc_verify_proof_hex L proof_hex path key height =
     rbind (map_err (\<lambda>e. lc_error ''Invalid proof hex: {}'' [Str e]) (hex_decode L proof_hex))
       (\<lambda>proof. lc_verify_proof proof path key height)"

section \<open>Keeping the headers\<close>

definition prune_old_headers ::
  "lib \<Rightarrow> light_client_config \<Rightarrow> ('z lc_world_scheme, nat res) io" where
  "prune_old_headers L C =
     bind_io utc_now_io (\<lambda>now.
     try_io (ret (from_std_unwrap L (trusting_period C))) (\<lambda>period s.
     let kept = bt_retain (\<lambda>_ b. now - hd_time (lb_header b) < period) (lc_headers s) in
     (Inr (length (lc_headers s) - length kept), s\<lparr>lc_headers := kept\<rparr>)))"

definition export_trusted_state :: "light_client_config \<Rightarrow> 'z lc_world_scheme \<Rightarrow> trusted_state" where
  "export_trusted_state C s = \<lparr>ts_chain_id = chain_id C, ts_headers = map snd (lc_headers s)\<rparr>"

definition import_trusted_state ::
  "light_client_config \<Rightarrow> trusted_state \<Rightarrow> ('z lc_world_scheme, unit res) io" where
  "import_trusted_state C st = (\<lambda>s.
     if ts_chain_id st \<noteq> chain_id C
     then (Inl (lc_error ''Chain ID mismatch: expected {}, got {}''
            [Str (chain_id C), Str (ts_chain_id st)]), s)
     else (Inr (), foldl (\<lambda>s b. store_header b s) s (ts_headers st)))"


section \<open>The latest height\<close>

lemma reached_height_counts:
  assumes "1 \<le> needed" "needed \<le> length hs"
  defines "k \<equiv> max needed (length hs div 2 + 1)"
  shows "k \<le> count_list_if (\<lambda>h. reached_height needed hs \<le> h) hs"
    and "count_list_if (\<lambda>h. reached_height needed hs < h) hs < k"
proof -
  let ?s = "rev (sort hs)"
  have k: "k - 1 < length ?s" "1 \<le> k"
    using assms(1,2) by (auto simp: k_def max_def)
  have "sorted_wrt (\<ge>) ?s" by (simp add: sorted_wrt_rev)
  note kth_highest [OF this k(1)]
  then have "k \<le> count_list_if (\<lambda>h. ?s ! (k - 1) \<le> h) hs" "count_list_if (\<lambda>h. ?s ! (k - 1) < h) hs < k"
    using k(2) unfolding count_rev count_sort by linarith+
  then show "k \<le> count_list_if (\<lambda>h. reached_height needed hs \<le> h) hs"
    "count_list_if (\<lambda>h. reached_height needed hs < h) hs < k"
    by (simp_all only: reached_height_def k_def)
qed




section \<open>Where an app hash comes from\<close>

text \<open>An app hash for a height is the one of a header the client holds at that height, or 32 bytes
  that one of the configured endpoints served for exactly that height.\<close>

definition served_for ::
  "lib \<Rightarrow> light_client_config \<Rightarrow> 'z lc_world_scheme \<Rightarrow> u64 \<Rightarrow> bytes \<Rightarrow> bool" where
  "served_for L C s height x \<longleftrightarrow>
     (\<exists>b. get_header_by_height s height = Some b \<and> hd_app_hash (lb_header b) = x)
     \<or> (length x = 32 \<and> (\<exists>endpoint \<in> set (validator_endpoints C). \<exists>t t' :: 'z lc_world_scheme.
          fetch_app_hash_at L endpoint height t = (Some x, t')))"

lemma fetch_app_hash_length:
  "fetch_app_hash_at L endpoint height s = (Some x, s') \<Longrightarrow> length x = 32"
  by (auto simp: fetch_app_hash_at_def Let_def split: prod.splits sum.splits option.splits if_splits)

lemma first_app_hash_source:
  fixes s :: "'z world_scheme"
  shows "first_app_hash L endpoints height s = (Some x, s') \<Longrightarrow>
     \<exists>endpoint \<in> set endpoints. \<exists>t t' :: 'z world_scheme. fetch_app_hash_at L endpoint height t = (Some x, t')"
proof (induction endpoints arbitrary: s)
  case (Cons endpoint endpoints)
  then obtain h s1 where f: "fetch_app_hash_at L endpoint height s = (h, s1)" by fastforce
  show ?case
  proof (cases h)
    case None
    with f Cons.prems have "first_app_hash L endpoints height s1 = (Some x, s')" by simp
    then show ?thesis using Cons.IH by (auto intro: bexI)
  next
    case (Some y)
    with f Cons.prems show ?thesis by auto
  qed
qed simp

lemma wait_app_hash_source:
  fixes s :: "'z world_scheme"
  shows "wait_app_hash L endpoints deadline height next s = (Inr x, s') \<Longrightarrow>
     \<exists>endpoint \<in> set endpoints. \<exists>t t' :: 'z world_scheme. fetch_app_hash_at L endpoint next t = (Some x, t')"
proof (induction L endpoints deadline height "next" s rule: wait_app_hash.induct)
  case (1 L endpoints deadline height "next" s)
  obtain r s1 where f: "first_app_hash L endpoints next s = (r, s1)" by fastforce
  show ?case
  proof (cases r)
    case None
    with f 1(2) have "\<not> deadline \<le> w_now s1" by (auto simp: wait_app_hash.simps [of L endpoints])
    with f None 1 show ?thesis by (simp add: wait_app_hash.simps [of L endpoints deadline height "next" s])
  next
    case (Some y)
    with f 1(2) have "first_app_hash L endpoints next s = (Some x, s1)"
      by (simp add: wait_app_hash.simps [of L endpoints])
    then show ?thesis by (rule first_app_hash_source)
  qed
qed

lemma app_hash_after_source:
  assumes "app_hash_after L C height s = (Inr x, s')"
  shows "unat height + 1 < 2 ^ 64 \<and> served_for L C s (height + 1) x"
proof -
  obtain n where "checked_add height 1 = Some n"
    using assms by (auto simp: app_hash_after_def split: option.splits)
  then have n: "checked_add height 1 = Some (height + 1)" and fit: "unat height + 1 < 2 ^ 64"
    by (auto simp: checked_add_def split: if_splits)
  show ?thesis
  proof (cases "get_header_by_height s (height + 1)")
    case None
    with assms n have "wait_app_hash L (validator_endpoints C) (w_now s + rpc_timeout C) height
        (height + 1) s = (Inr x, s')"
      by (auto simp: app_hash_after_def split: if_splits)
    from wait_app_hash_source [OF this] show ?thesis
      using fit fetch_app_hash_length unfolding served_for_def by blast
  qed (use assms n fit in \<open>auto simp: app_hash_after_def served_for_def\<close>)
qed

lemma app_hash_at_source:
  assumes "app_hash_at L C height s = (Inr x, s')"
  shows "served_for L C s height x"
proof (cases "get_header_by_height s height")
  case None
  with assms have "first_app_hash L (validator_endpoints C) height s = (Some x, s')"
    by (auto simp: app_hash_at_def split: prod.splits option.splits)
  from first_app_hash_source [OF this] show ?thesis
    using fetch_app_hash_length unfolding served_for_def by blast
qed (use assms in \<open>auto simp: app_hash_at_def served_for_def\<close>)

text \<open>Asking for app hashes and heights only asks the network and reads the clock.\<close>

lemma lc_headers_send [simp]: "send req s = (r, s') \<Longrightarrow> lc_headers s' = lc_headers s"
  by (cases "w_answer s (w_calls s) req") (auto simp: send_def)

lemma lc_headers_frame:
  fixes s s' :: "'z lc_world_scheme"
  assumes "frame m" "m s = (r, s')"
  shows "lc_headers s' = lc_headers s"
  using frameD [OF assms] by (cases s; cases s') simp

lemma frame_get_value [frame_intros]: "frame (get_value L url)"
  unfolding get_value_def by (rule frame_intros)

lemma frame_status_heights [frame_intros]: "frame (status_heights L endpoints)"
  by (induction endpoints) (auto simp: fetch_status_height_def simp del: bind_io_simp ret_simp intro!: frame_intros)

lemma frame_latest_chain_height [frame_intros]: "frame (latest_chain_height L C)"
  unfolding latest_chain_height_def by (intro frame_intros) (simp add: frame_def Let_def)

lemma frame_first_app_hash [frame_intros]: "frame (first_app_hash L endpoints height)"
  by (induction endpoints) (auto simp: fetch_app_hash_at_def simp del: bind_io_simp ret_simp intro!: frame_intros)

lemma wait_app_hash_more:
  "wait_app_hash L endpoints deadline height next s = (r, s') \<Longrightarrow> world.more s' = world.more s"
proof (induction L endpoints deadline height "next" s rule: wait_app_hash.induct)
  case (1 L endpoints deadline height "next" s)
  obtain h s1 where f: "first_app_hash L endpoints next s = (h, s1)" by fastforce
  then have same: "world.more s1 = world.more s" by (rule frameD [OF frame_first_app_hash])
  show ?case
  proof (cases h)
    case None
    with f same 1 show ?thesis
      by (simp add: wait_app_hash.simps [of L endpoints deadline height "next" s] sleep_io_def
          split: if_splits)
  next
    case (Some y)
    with f same 1(2) show ?thesis
      by (simp add: wait_app_hash.simps [of L endpoints deadline height "next" s])
  qed
qed

lemma frame_app_hash_after [frame_intros]: "frame (app_hash_after L C height)"
  unfolding frame_def
proof
  fix s show "world.more (snd (app_hash_after L C height s)) = world.more s"
    by (cases "app_hash_after L C height s")
      (auto simp: app_hash_after_def dest: wait_app_hash_more split: option.splits if_splits)
qed

lemma frame_app_hash_at [frame_intros]: "frame (app_hash_at L C height)"
  unfolding frame_def
  by (auto simp: app_hash_at_def dest: frameD [OF frame_first_app_hash] split: option.splits prod.splits)

lemma frame_carried_by [frame_intros]: "frame (carried_by L C root stale heights)"
  by (induction heights) (auto simp del: try_io_simp ret_simp intro!: frame_intros)

lemma frame_verify_root_after [frame_intros]: "frame (verify_root_after L C root height)"
  unfolding verify_root_after_def Let_def by (intro frame_intros)

lemma served_for_headers:
  fixes s s' :: "'z lc_world_scheme"
  shows "lc_headers s' = lc_headers s \<Longrightarrow> served_for L C s' height x = served_for L C s height x"
  by (simp add: served_for_def get_header_by_height_def)

lemmas lc_headers_latest_chain_height = lc_headers_frame [OF frame_latest_chain_height]
lemmas lc_headers_app_hash_after = lc_headers_frame [OF frame_app_hash_after]
lemmas lc_headers_app_hash_at = lc_headers_frame [OF frame_app_hash_at]

lemma carried_by_source:
  fixes s s' :: "'z lc_world_scheme"
  assumes "carried_by L C root stale heights s = (Inr h, s')"
  shows "h \<in> set heights \<and> served_for L C s h root"
  using assms
proof (induction heights arbitrary: s)
  case (Cons height heights)
  then obtain x s1 where a: "app_hash_at L C height s = (Inr x, s1)"
    and r: "(if x = root then ret (Inr height) else carried_by L C root stale heights) s1 = (Inr h, s')"
    by (auto split: prod.splits sum.splits)
  show ?case
  proof (cases "x = root")
    case True
    then show ?thesis using a r app_hash_at_source [OF a] by simp
  next
    case False
    with r have "h \<in> set heights \<and> served_for L C s1 h root" using Cons.IH by simp
    then show ?thesis using served_for_headers [OF lc_headers_app_hash_at [OF a]] by simp
  qed
qed simp

lemma verify_root_after_source:
  assumes "verify_root_after L C root height s = (Inr h, s')"
  shows "\<exists>latest s1. latest_chain_height L C s = (Inr latest, s1)
      \<and> served_for L C s (height + 1) root \<and> served_for L C s h root
      \<and> unat latest + 1 \<le> unat h + unat (max_proof_lag_blocks C)
      \<and> (h \<le> latest \<or> h = height + 1) \<and> height < h
      \<and> unat height \<le> unat latest + unat (max_proof_lag_blocks C)"
proof -
  let ?lag = "max_proof_lag_blocks C"
  obtain latest s1 where latest: "latest_chain_height L C s = (Inr latest, s1)"
    using assms unfolding verify_root_after_def Let_def try_io_Inr_iff by blast
  with assms have ahead: "\<not> (height > latest \<and> height - latest > ?lag)"
    by (auto simp: verify_root_after_def Let_def)
  from assms latest ahead obtain n where n: "checked_add height 1 = Some n"
    by (cases "checked_add height 1") (auto simp: verify_root_after_def Let_def)
  then have n': "n = height + 1" by (auto simp: checked_add_def split: if_splits)
  with n have fit: "unat (height + 1) = unat height + 1" by (simp add: checked_add_Some_iff)
  obtain carried s2 where after: "app_hash_after L C height s1 = (Inr carried, s2)"
    using assms latest ahead n
    by (cases "app_hash_after L C height s1") (auto simp: verify_root_after_def Let_def split: sum.splits)
  with assms latest ahead n have root: "carried = root"
    by (auto simp: verify_root_after_def Let_def split: if_splits)
  have h1: "lc_headers s1 = lc_headers s" using latest by (rule lc_headers_latest_chain_height)
  have h2: "lc_headers s2 = lc_headers s1" using after by (rule lc_headers_app_hash_after)
  have after_root: "served_for L C s (height + 1) root"
    using app_hash_after_source [OF after] root served_for_headers [OF h1] by simp
  have far: "unat height \<le> unat latest + unat ?lag"
  proof (cases "latest \<le> height")
    case True
    then have "unat (height - latest) = unat height - unat latest" by (rule unat_sub)
    with True ahead show ?thesis by (cases "height = latest") (auto simp: word_less_nat_alt word_le_nat_alt)
  qed (simp add: word_le_nat_alt)
  have lt: "height < height + 1" using fit by (simp add: word_less_nat_alt)
  show ?thesis
  proof (cases "saturating_sub latest height \<le> ?lag")
    case True
    then have "h = height + 1"
      using assms latest ahead n after root n' by (simp add: verify_root_after_def Let_def)
    moreover have "unat latest \<le> unat height + unat ?lag"
      using True by (simp add: word_le_nat_alt unat_saturating_sub)
    ultimately show ?thesis using latest after_root far lt fit by auto
  next
    case False
    then have old: "unat height + unat ?lag < unat latest"
      by (simp add: word_le_nat_alt unat_saturating_sub)
    obtain stale where c: "carried_by L C root stale (if ?lag > 0 then [latest, latest - ?lag + 1] else []) s2
        = (Inr h, s')"
      using assms latest ahead n after root False by (simp add: verify_root_after_def Let_def)
    then have lag: "?lag > 0" by (cases "?lag > 0") auto
    have "h = latest \<or> h = latest - ?lag + 1" and served: "served_for L C s h root"
      using carried_by_source [OF c] lag served_for_headers [OF h1] served_for_headers [OF h2] by auto
    moreover have "unat (latest - ?lag + 1) = unat latest - unat ?lag + 1"
    proof -
      have "unat (latest - ?lag) = unat latest - unat ?lag"
        using old by (intro unat_sub) (simp add: word_le_nat_alt)
      moreover have "unat latest < 2 ^ 64" using unat_lt2p [of latest] by simp
      ultimately show ?thesis using lag by (simp add: unat_word_ariths word_less_nat_alt)
    qed
    moreover have "unat ?lag > 0" using lag by (simp add: word_less_nat_alt)
    ultimately show ?thesis
      using latest after_root far old by (auto simp: word_less_nat_alt word_le_nat_alt)
  qed
qed


section \<open>A chain to check the properties on\<close>

text \<open>One endpoint, whose every answer is the status of a chain at height 7, and a client that holds
  the header of block 7. Its third-party functions decode every text to that status.\<close>

definition example_status :: jvalue where
  "example_status = JObject [(''result'', JObject [(''sync_info'',
     JObject [(''latest_block_height'', JString ''7'')])])]"

definition example_lib :: lib where
  "example_lib = \<lparr>hex_encode = map (\<lambda>b. char_of (unat b)), hex_decode = (\<lambda>s. Inr (map of_char s)),
     base64_encode = map (\<lambda>b. char_of (unat b)), base64_decode = (\<lambda>s. Inr (map of_char s)),
     sha256 = (\<lambda>_. replicate 32 0), sha3_256 = (\<lambda>_. replicate 32 0),
     json_from_slice = (\<lambda>_. Inr example_status), json_to_string = (\<lambda>_. []),
     parse_rfc3339 = (\<lambda>_. None), chrono_from_std = (\<lambda>d. Some (int d)),
     ed25519_key = (\<lambda>_. Inr ()), ed25519_verify = (\<lambda>_ _ _. True),
     secp256k1_key = (\<lambda>_. Inr ()), secp256k1_signature = (\<lambda>_. Inr ()),
     secp256k1_verify = (\<lambda>_ _ _. True),
     keccak256 = (\<lambda>_. replicate 32 0), ed25519_sign = (\<lambda>_ _. replicate 64 0),
     ed25519_public = (\<lambda>k. k), secp256k1_secret = (\<lambda>_. Inr ()),
     secp256k1_sign = (\<lambda>_ _. replicate 64 0), secp256k1_public = (\<lambda>k. 2 # k),
     secp256k1_serialize = (\<lambda>k. k),
     secp256k1_from_der = (\<lambda>s. Inr s), base58_encode = map (\<lambda>b. char_of (unat b)),
     base58_decode = (\<lambda>s. Some (map of_char s)), utf8_lossy = map (\<lambda>b. char_of (unat b)),
     http_client_build = (\<lambda>_. Inr ()),
     lib_grovedb = example_grovedb\<rparr>"

definition example_block :: "u64 \<Rightarrow> int \<Rightarrow> light_block" where
  "example_block height t =
     \<lparr>lb_header = \<lparr>hd_chain_id = ''willow'', hd_height = height, hd_time = t, hd_last_block_id = None,
        hd_validators_hash = [], hd_next_validators_hash = [], hd_app_hash = replicate 32 0\<rparr>,
      lb_commit = \<lparr>cm_height = height, cm_round = 0, cm_block_id = \<lparr>bid_hash = [], bid_parts = None\<rparr>,
        cm_signatures = []\<rparr>,
      lb_validators = \<lparr>vs_validators = [], vs_total_voting_power = 0\<rparr>\<rparr>"

definition example_client :: lc_world where
  "example_client = \<lparr>w_now = 0, w_epoch = 8, w_calls = 0,
     w_answer = (\<lambda>_ _. (0, Inr \<lparr>resp_status = 200, resp_content_length = None, resp_pieces = []\<rparr>)),
     lc_headers = [(7, example_block 7 7)]\<rparr>"

definition example_config :: light_client_config where
  "example_config = config_builder ''willow''\<lparr>validator_endpoints := [''http://v'']\<rparr>"

lemma example_lag: "max_proof_lag_blocks example_config = 20"
  by (simp add: example_config_def config_builder_def DEFAULT_MAX_PROOF_LAG_BLOCKS_def)

lemma parse_seven: "parse_u64 ''7'' = Some 7"
  by (simp add: parse_u64_def parse_unsigned_def undec_def is_digit_char_def)

lemma example_latest:
  "latest_chain_height example_lib example_config example_client
     = (Inr 7, example_client\<lparr>w_calls := 1\<rparr>)"
proof -
  have "get_value example_lib url example_client = (Inr example_status, example_client\<lparr>w_calls := 1\<rparr>)" for url
    by (simp add: get_value_def send_def example_client_def json_def Http_Body.read_def check_json_def
        check_json_within_def scan_units_def example_lib_def)
  then have "status_heights example_lib [''http://v''] example_client = ([7], example_client\<lparr>w_calls := 1\<rparr>)"
    by (simp add: fetch_status_height_def example_status_def jpath_def jindex_def u64_member_def parse_seven)
  then show ?thesis
    by (simp add: latest_chain_height_def example_config_def config_builder_def reached_height_def
        get_latest_header_def bt_last_def example_client_def example_block_def)
qed



section \<open>The headers a sync leaves\<close>

text \<open>A block extends another as \<open>verify_header\<close> requires, signatures aside.\<close>

definition extends :: "light_client_config \<Rightarrow> light_block \<Rightarrow> light_block \<Rightarrow> bool" where
  "extends C t u \<longleftrightarrow> hd_chain_id (lb_header u) = chain_id C
     \<and> hd_height (lb_header u) = hd_height (lb_header t) + 1
     \<and> hd_time (lb_header t) < hd_time (lb_header u)
     \<and> hd_validators_hash (lb_header u) = hd_next_validators_hash (lb_header t)"

lemma verify_header_extends:
  "verify_header L C now t u = Inr () \<Longrightarrow> extends C t u"
  by (auto simp: verify_header_def extends_def Let_def result_simps)

lemma verify_header_time:
  assumes "verify_header L C now t u = Inr ()"
  shows "\<exists>period drift. chrono_from_std L (trusting_period C) = Some period
    \<and> chrono_from_std L (max_clock_drift C) = Some drift
    \<and> now - hd_time (lb_header u) \<le> period \<and> hd_time (lb_header u) \<le> now + drift"
  using assms
  by (auto simp: verify_header_def Let_def from_std_unwrap_def result_simps)

definition headers_ok :: "(u64, light_block) btree \<Rightarrow> bool" where
  "headers_ok m \<longleftrightarrow> bt_wf m \<and> (\<forall>h b. bt_get m h = Some b \<longrightarrow> hd_height (lb_header b) = h)"

text \<open>Every height from \<open>a\<close> to \<open>b\<close> is held, and each of these headers but the first extends the one
  before.\<close>

definition chained :: "light_client_config \<Rightarrow> (u64, light_block) btree \<Rightarrow> u64 \<Rightarrow> u64 \<Rightarrow> bool" where
  "chained C m a b \<longleftrightarrow> bt_get m a \<noteq> None \<and>
     (\<forall>h. a \<le> h \<and> h < b \<longrightarrow> (\<exists>t u. bt_get m h = Some t \<and> bt_get m (h + 1) = Some u \<and> extends C t u))"

definition top_is :: "(u64, light_block) btree \<Rightarrow> u64 \<Rightarrow> bool" where
  "top_is m k \<longleftrightarrow> bt_get m k \<noteq> None \<and> (\<forall>h b. bt_get m h = Some b \<longrightarrow> h \<le> k)"

lemma bt_last_top:
  assumes "bt_wf m" "bt_last m = Some (k, b)"
  shows "bt_get m k = Some b \<and> top_is m k"
proof -
  have "bt_entries m \<noteq> []" "last (bt_entries m) = (k, b)"
    using assms(2) by (auto simp: bt_last_def bt_entries_def split: if_splits)
  from btree.last_entry [OF assms(1) this] show ?thesis by (auto simp: top_is_def)
qed

lemma verify_and_store_step:
  assumes ok: "headers_ok (lc_headers s)" and top: "top_is (lc_headers s) k" and room: "k < - 1"
    and run: "verify_and_store_header L C b s = (Inr (), s')"
  shows "headers_ok (lc_headers s') \<and> top_is (lc_headers s') (k + 1)
    \<and> (\<exists>t. bt_get (lc_headers s) k = Some t \<and> extends C t b)
    \<and> bt_get (lc_headers s') (k + 1) = Some b
    \<and> (\<forall>h \<le> k. bt_get (lc_headers s') h = bt_get (lc_headers s) h)"
proof -
  let ?m = "lc_headers s"
  have wf: "bt_wf ?m" using ok by (simp add: headers_ok_def)
  obtain t where t: "get_latest_header s = Some t" "verify_header L C (fst (utc_now_io s)) t b = Inr ()"
    and s': "s' = store_header b s"
    using run by (auto simp: verify_and_store_header_def split: option.splits sum.splits)
  then obtain k' where "bt_last ?m = Some (k', t)"
    by (auto simp: get_latest_header_def)
  from bt_last_top [OF wf this] have kt: "bt_get ?m k' = Some t" "top_is ?m k'" by auto
  then have "k' = k" using top by (auto simp: top_is_def) (metis order_antisym)
  with kt have t': "bt_get ?m k = Some t" by simp
  have ext: "extends C t b" using t(2) by (rule verify_header_extends)
  have "hd_height (lb_header t) = k" using ok t' unfolding headers_ok_def by blast
  then have hb: "hd_height (lb_header b) = k + 1" using ext by (simp add: extends_def)
  have lt: "k < k + 1"
    using room by (simp add: word_less_nat_alt unat_minus_one_word unat_word_ariths)
  have m': "lc_headers s' = bt_insert (k + 1) b ?m" by (simp add: s' store_header_def hb)
  have get: "bt_get (lc_headers s') h = (if h = k + 1 then Some b else bt_get ?m h)" for h
    unfolding m' by (rule btree.look_ins [OF wf])
  have wf': "bt_wf (lc_headers s')" unfolding m' using wf by (rule btree.wf_ins)
  have "hd_height (lb_header c) = h" if "bt_get (lc_headers s') h = Some c" for h c
    using that hb ok unfolding headers_ok_def get by (cases "h = k + 1") simp_all
  with wf' have "headers_ok (lc_headers s')" unfolding headers_ok_def by blast
  moreover have "top_is (lc_headers s') (k + 1)"
    unfolding top_is_def
  proof (intro conjI allI impI)
    show "bt_get (lc_headers s') (k + 1) \<noteq> None" unfolding get by simp
    fix h c
    assume "bt_get (lc_headers s') h = Some c"
    then have "h = k + 1 \<or> bt_get ?m h = Some c" unfolding get by (simp split: if_splits)
    then have "h = k + 1 \<or> h \<le> k" using top unfolding top_is_def by blast
    then show "h \<le> k + 1" using less_imp_le [OF lt] order_refl order_trans by metis
  qed
  moreover have "bt_get (lc_headers s') h = bt_get ?m h" if "h \<le> k" for h
  proof -
    have "h \<noteq> k + 1" using le_less_trans [OF that lt] by (rule less_imp_neq)
    then show ?thesis unfolding get by (rule if_not_P)
  qed
  moreover have "bt_get (lc_headers s') (k + 1) = Some b" unfolding get by (rule if_P) (rule refl)
  ultimately show ?thesis using t' ext by blast
qed

lemma fetch_block_headers:
  "fetch_block_from L e endpoints height s = (r, s') \<Longrightarrow> lc_headers s' = lc_headers s"
proof (induction endpoints arbitrary: e s)
  case (Cons endpoint endpoints)
  obtain r1 s1 where f: "fetch_block_from_endpoint L endpoint height s = (r1, s1)" by fastforce
  then have "lc_headers s1 = lc_headers s"
    by (auto simp: fetch_block_from_endpoint_def Let_def utc_now_io_def
        dest!: lc_headers_frame [OF frame_get_value] split: prod.splits sum.splits if_splits)
  then show ?case using Cons f by (cases r1) auto
qed simp

text \<open>Nothing held is lost, and the chain above the old top is complete.\<close>

lemma sync_heights_chain:
  assumes "sync_heights L C hs s = (Inr (), s')"
    and "headers_ok (lc_headers s)" "top_is (lc_headers s) k" "unat k + length hs < 2 ^ 64"
    and "chained C (lc_headers s) a k"
  shows "headers_ok (lc_headers s') \<and> top_is (lc_headers s') (k + of_nat (length hs))
    \<and> chained C (lc_headers s') a (k + of_nat (length hs))
    \<and> (\<forall>h \<le> k. bt_get (lc_headers s') h = bt_get (lc_headers s) h)"
  using assms
proof (induction hs arbitrary: s k)
  case (Cons x hs)
  then obtain b s1 s2 where f: "fetch_block_at_height L C x s = (Inr b, s1)"
    and v: "verify_and_store_header L C b s1 = (Inr (), s2)" and r: "sync_heights L C hs s2 = (Inr (), s')"
    by (auto split: prod.splits sum.splits)
  have h1: "lc_headers s1 = lc_headers s"
    using f unfolding fetch_block_at_height_def by (rule fetch_block_headers)
  have room: "k < - 1" using Cons.prems(4) by (simp add: word_less_nat_alt unat_minus_one_word)
  then have k1: "unat (k + 1) = unat k + 1"
    by (simp add: word_less_nat_alt unat_minus_one_word unat_word_ariths)
  from verify_and_store_step [OF _ _ room v] h1 Cons.prems(2,3)
  have step: "headers_ok (lc_headers s2)" "top_is (lc_headers s2) (k + 1)"
    "\<exists>t. bt_get (lc_headers s) k = Some t \<and> extends C t b" "bt_get (lc_headers s2) (k + 1) = Some b"
    "\<forall>h \<le> k. bt_get (lc_headers s2) h = bt_get (lc_headers s) h"
    by auto
  have next_le: "h + 1 \<le> k" if "h < k" for h
    using that by (metis inc_le)
  have "chained C (lc_headers s2) a (k + 1)"
    unfolding chained_def
  proof (intro conjI allI impI)
    show "bt_get (lc_headers s2) a \<noteq> None"
      using Cons.prems(3,5) step(5) by (auto simp: chained_def top_is_def)
    fix h
    assume h: "a \<le> h \<and> h < k + 1"
    then have "h \<le> k" using k1 by (simp add: word_less_nat_alt word_le_nat_alt)
    then consider "h = k" | "h < k" by fastforce
    then show "\<exists>t u. bt_get (lc_headers s2) h = Some t \<and> bt_get (lc_headers s2) (h + 1) = Some u
        \<and> extends C t u"
    proof cases
      case 1
      with step show ?thesis by auto
    next
      case 2
      with Cons.prems(5) h step(5) next_le [OF 2] \<open>h \<le> k\<close> show ?thesis
        by (auto simp: chained_def)
    qed
  qed
  moreover have "unat (k + 1) + length hs < 2 ^ 64" using k1 Cons.prems(4) by simp
  ultimately have IH: "headers_ok (lc_headers s') \<and> top_is (lc_headers s') (k + 1 + of_nat (length hs))
      \<and> chained C (lc_headers s') a (k + 1 + of_nat (length hs))
      \<and> (\<forall>h \<le> k + 1. bt_get (lc_headers s') h = bt_get (lc_headers s2) h)"
    using Cons.IH [OF r step(1,2)] by blast
  moreover have "h \<le> k + 1" if "h \<le> k" for h
    using that k1 by (simp add: word_le_nat_alt)
  moreover have "k + of_nat (length (x # hs)) = k + 1 + of_nat (length hs)" by simp
  ultimately show ?case using step(5) by metis
qed simp

text \<open>C18: a sync that succeeds from a client with a header above genesis leaves the client with
  headers of every height from its old top to the new one, each extending the one before (chain,
  height, time and validator hash), and keeps every header up to the old top.\<close>

theorem sync_to_latest_chains:
  assumes "sync_to_latest L C s = (Inr (), s')"
    and "headers_ok (lc_headers s)" "top_is (lc_headers s) k" "0 < k"
  shows "\<exists>latest \<ge> k. headers_ok (lc_headers s') \<and> top_is (lc_headers s') latest
    \<and> chained C (lc_headers s') k latest
    \<and> (\<forall>h \<le> k. bt_get (lc_headers s') h = bt_get (lc_headers s) h)"
proof -
  have wf: "bt_wf (lc_headers s)" using assms(2) by (simp add: headers_ok_def)
  have start: "chained C (lc_headers s) k k" using assms(3)
    unfolding chained_def top_is_def by (meson leD)
  obtain b s1 where f: "fetch_block_at_height L C 0 s = (Inr b, s1)"
    using assms(1) by (auto simp: sync_to_latest_def Let_def split: if_splits prod.splits sum.splits)
  have h1: "lc_headers s1 = lc_headers s"
    using f unfolding fetch_block_at_height_def by (rule fetch_block_headers)
  obtain k' x where last: "bt_last (lc_headers s1) = Some (k', x)"
    using assms(3) h1 by (cases "bt_last (lc_headers s)")
      (auto simp: top_is_def bt_last_def bt_get_def split: if_splits)
  from bt_last_top [OF wf last [unfolded h1]] assms(3) have "k' = k"
    by (auto simp: top_is_def) (metis order_antisym)
  with last have cur: "current_height s1 = k" by (simp add: current_height_def)
  let ?target = "hd_height (lb_header b)"
  show ?thesis
  proof (cases "k \<ge> ?target")
    case True
    then have "s' = s1" using assms(1) f cur by (auto simp: sync_to_latest_def Let_def split: if_splits)
    with h1 start assms(2,3) show ?thesis by (intro exI [of _ k]) simp
  next
    case False
    then have lt: "unat k < unat ?target" by (simp add: word_less_nat_alt not_le)
    let ?hs = "incl_range (k + 1) ?target"
    have k1: "unat (k + 1) = unat k + 1"
      using lt unat_lt2p [of ?target] by (simp add: unat_word_ariths)
    have len: "unat k + length ?hs = unat ?target" using lt k1 by (simp add: incl_range_def)
    have "sync_heights L C ?hs s1 = (Inr (), s')"
      using assms(1,4) f cur False by (auto simp: sync_to_latest_def Let_def split: if_splits)
    moreover have "unat k + length ?hs < 2 ^ 64" unfolding len using unat_lt2p [of ?target] by simp
    ultimately have "headers_ok (lc_headers s') \<and> top_is (lc_headers s') (k + of_nat (length ?hs))
        \<and> chained C (lc_headers s') k (k + of_nat (length ?hs))
        \<and> (\<forall>h \<le> k. bt_get (lc_headers s') h = bt_get (lc_headers s1) h)"
      using sync_heights_chain assms(2,3) start h1 by metis
    moreover have "k + of_nat (length ?hs) = ?target"
      using arg_cong [OF len, of "of_nat :: nat \<Rightarrow> u64"] by simp
    ultimately show ?thesis using False h1 by (intro exI [of _ ?target]) (simp add: not_le less_imp_le)
  qed
qed

definition example_commit :: jvalue where
  "example_commit = JObject [(''result'', JObject [(''signed_header'', JObject [(''header'',
     JObject [(''chain_id'', JString ''willow''), (''height'', JString ''8''), (''time'', JString ''t'')])])])]"

definition example_sync_lib :: lib where
  "example_sync_lib = example_lib\<lparr>json_from_slice := \<lambda>_. Inr example_commit, parse_rfc3339 := \<lambda>_. Some 8\<rparr>"

lemma parse_eight: "parse_u64 ''8'' = Some 8"
  by (simp add: parse_u64_def parse_unsigned_def undec_def is_digit_char_def)

lemma example_fetch:
  "fetch_block_at_height example_sync_lib example_config h (example_client\<lparr>w_calls := n\<rparr>)
     = (Inr (example_block 8 8\<lparr>lb_header := lb_header (example_block 8 8)\<lparr>hd_app_hash := []\<rparr>,
          lb_commit := lb_commit (example_block 8 8)\<lparr>cm_height := 0\<rparr>\<rparr>), example_client\<lparr>w_calls := n + 2\<rparr>)"
proof -
  have get: "get_value example_sync_lib url (example_client\<lparr>w_calls := m\<rparr>)
      = (Inr example_commit, example_client\<lparr>w_calls := m + 1\<rparr>)" for url m
    by (simp add: get_value_def send_def example_client_def json_def Http_Body.read_def check_json_def
        check_json_within_def scan_units_def example_sync_lib_def)
  have "fetch_block_from_endpoint example_sync_lib e h (example_client\<lparr>w_calls := n\<rparr>)
     = (Inr (parse_light_block example_sync_lib 8 example_commit example_commit),
        example_client\<lparr>w_calls := n + 2\<rparr>)" for e
    by (simp add: fetch_block_from_endpoint_def get Let_def utc_now_io_def)
      (simp add: example_client_def)
  moreover have "parse_light_block example_sync_lib 8 example_commit example_commit
      = example_block 8 8\<lparr>lb_header := lb_header (example_block 8 8)\<lparr>hd_app_hash := []\<rparr>,
          lb_commit := lb_commit (example_block 8 8)\<lparr>cm_height := 0\<rparr>\<rparr>"
    by (simp add: parse_light_block_def Let_def jpath_def jindex_def example_commit_def example_block_def
        str_or_empty_def u64_member_def u32_member_def time_member_def hex_member_def parse_hex_bytes_def
        parse_block_id_def parse_commit_signatures_def parse_validator_set_def unwrap_or_def
        example_sync_lib_def example_lib_def parse_eight)
  ultimately show ?thesis
    by (simp add: fetch_block_at_height_def example_config_def config_builder_def)
qed


theorem sync_to_latest_chains_witness:
  "\<exists>latest s'. sync_to_latest example_sync_lib example_config example_client = (Inr (), s')
     \<and> bt_get (lc_headers s') 8 \<noteq> None \<and> top_is (lc_headers s') latest
     \<and> chained example_config (lc_headers s') 7 latest"
proof -
  let ?b = "example_block 8 8\<lparr>lb_header := lb_header (example_block 8 8)\<lparr>hd_app_hash := []\<rparr>,
      lb_commit := lb_commit (example_block 8 8)\<lparr>cm_height := 0\<rparr>\<rparr>"
  let ?s' = "example_client\<lparr>w_calls := 4, lc_headers := [(7, example_block 7 7), (8, ?b)]\<rparr>"
  have e: "example_client = example_client\<lparr>w_calls := 0\<rparr>" by (simp add: example_client_def)
  have ver: "verify_header example_sync_lib example_config 8 (example_block 7 7) ?b = Inr ()"
    by (simp add: verify_header_def Let_def example_block_def example_config_def config_builder_def
        from_std_unwrap_def example_sync_lib_def example_lib_def verify_commit_signatures_def
        div_ceil_def secs_def)
  have store: "verify_and_store_header example_sync_lib example_config ?b (example_client\<lparr>w_calls := 4\<rparr>)
      = (Inr (), ?s')"
    using ver by (simp add: verify_and_store_header_def get_latest_header_def bt_last_def
        example_client_def utc_now_io_def store_header_def example_block_def)
  have cur: "current_height (example_client\<lparr>w_calls := 2\<rparr>) = 7"
    by (simp add: current_height_def bt_last_def example_client_def)
  have eight: "hd_height (lb_header ?b) = 8" by (simp add: example_block_def)
  have range: "incl_range (7 + 1) 8 = [8]" by (simp add: incl_range_def)
  have ends: "validator_endpoints example_config \<noteq> []" by (simp add: example_config_def)
  have sync: "sync_to_latest example_sync_lib example_config example_client = (Inr (), ?s')"
  proof -
    have f: "fetch_block_at_height example_sync_lib example_config 0 (example_client\<lparr>w_calls := 0\<rparr>)
        = (Inr ?b, example_client\<lparr>w_calls := 2\<rparr>)"
      "fetch_block_at_height example_sync_lib example_config 8 (example_client\<lparr>w_calls := 2\<rparr>)
        = (Inr ?b, example_client\<lparr>w_calls := 4\<rparr>)"
      using example_fetch [of 0 0] example_fetch [of 8 2] by (simp_all only: add_0 numeral_plus_numeral add_num_simps)
    have n: "\<not> (8 :: u64) \<le> 7" "(7 :: u64) \<noteq> 0" by simp_all
    show ?thesis
      unfolding sync_to_latest_def if_not_P [OF ends]
      by (subst e) (simp only: try_io_simp bind_io_simp f Let_def prod.case sum.case cur eight range
          if_not_P [OF n(1)] if_not_P [OF n(2)] sync_heights.simps store ret_simp)
  qed
  have ok: "headers_ok (lc_headers example_client)"
    by (simp add: headers_ok_def example_client_def bt_wf_def bt_get_def example_block_def)
  have top: "top_is (lc_headers example_client) 7"
    by (simp add: top_is_def example_client_def bt_get_def)
  have "(0 :: u64) < 7" by simp
  from sync_to_latest_chains [OF sync ok top this]
  obtain latest where "top_is (lc_headers ?s') latest" "chained example_config (lc_headers ?s') 7 latest"
    by blast
  moreover have "bt_get (lc_headers ?s') 8 \<noteq> None" by (simp add: bt_get_def)
  ultimately show ?thesis using sync by blast
qed

section \<open>Keeping the headers\<close>

text \<open>C27: importing the state a client exported into a client of the same chain that holds no header
  restores exactly its headers.\<close>

theorem export_import_headers:
  assumes "headers_ok (lc_headers s)" "lc_headers t = []" "chain_id C = chain_id C'"
  shows "\<exists>t'. import_trusted_state C' (export_trusted_state C s) t = (Inr (), t')
    \<and> lc_headers t' = lc_headers s"
proof -
  have key: "hd_height (lb_header b) = h" if "(h, b) \<in> set (lc_headers s)" for h b
  proof -
    have "bt_get (lc_headers s) h = Some b"
      using that assms(1) btree.entries_mem [of "lc_headers s" h b]
      by (simp add: headers_ok_def bt_entries_def)
    then show ?thesis using assms(1) by (simp add: headers_ok_def)
  qed
  have "lc_headers (foldl (\<lambda>s b. store_header b s) t' bs)
      = foldl (\<lambda>m (k, v). bt_insert k v m) (lc_headers t') (map (\<lambda>b. (hd_height (lb_header b), b)) bs)"
    for t' :: "'b lc_world_scheme" and bs
    by (induction bs arbitrary: t') (simp_all add: store_header_def)
  moreover have "map (\<lambda>b. (hd_height (lb_header b), b)) (map snd (lc_headers s)) = lc_headers s"
    using key by (auto intro: map_idI)
  moreover have "foldl (\<lambda>m (k, v). bt_insert k v m) [] (lc_headers s) = lc_headers s"
    using fold_bt_insert [of "[]" "lc_headers s"] assms(1) by (simp add: headers_ok_def bt_wf_def)
  ultimately show ?thesis
    using assms(2,3) by (simp add: import_trusted_state_def export_trusted_state_def)
qed

theorem export_import_headers_witness:
  "\<exists>t'. import_trusted_state example_config (export_trusted_state example_config example_client)
     (example_client\<lparr>lc_headers := []\<rparr>) = (Inr (), t') \<and> lc_headers t' = [(7, example_block 7 7)]"
proof -
  have "headers_ok (lc_headers example_client)"
    by (simp add: headers_ok_def example_client_def bt_wf_def bt_get_def example_block_def)
  from export_import_headers [OF this, of "example_client\<lparr>lc_headers := []\<rparr>" example_config example_config]
  show ?thesis by (simp add: example_client_def)
qed

text \<open>Pruning keeps exactly the headers within the trusting period and says how many it dropped.\<close>

lemma prune_old_headers_keeps:
  assumes "prune_old_headers L C s = (Inr n, s')" "bt_wf (lc_headers s)"
    and "chrono_from_std L (trusting_period C) = Some period"
  shows "bt_wf (lc_headers s') \<and> n + length (lc_headers s') = length (lc_headers s)
    \<and> bt_get (lc_headers s') h = (case bt_get (lc_headers s) h of None \<Rightarrow> None
        | Some b \<Rightarrow> if w_epoch s + int (w_now s) - hd_time (lb_header b) < period then Some b else None)"
  using assms
  by (auto simp: prune_old_headers_def utc_now_io_def from_std_unwrap_def Let_def bt_wf_retain
      bt_get_retain [OF assms(2)]) (simp add: bt_retain_def)

section \<open>At the edges of the header check\<close>

text \<open>A signature that appears twice in a commit counts twice.\<close>

lemma duplicate_signature_counts_twice:
  assumes "List.find (\<lambda>v. va_address v = addr) (vs_validators (lb_validators b)) = Some v"
    and "verify_signature L C v sig b = Inr True"
    and "cm_signatures (lb_commit b) = [BlockIdFlagCommit addr t sig, BlockIdFlagCommit addr t sig]"
  shows "verify_commit_signatures L C b
    = Inr (va_voting_power v + va_voting_power v, vs_total_voting_power (lb_validators b))"
  using assms by (simp add: verify_commit_signatures_def)

text \<open>A header without validators needs no signature: both powers are 0.\<close>

lemma no_validators_need_no_signature:
  assumes "cm_signatures (lb_commit b) = []" "vs_total_voting_power (lb_validators b) = 0"
    and "snd (trust_threshold C) \<noteq> 0"
  shows "rbind (verify_commit_signatures L C b) (\<lambda>(signed, whole).
      rbind (div_ceil (whole * fst (trust_threshold C)) (snd (trust_threshold C))) (\<lambda>threshold.
      Inr (signed < threshold))) = Inr False"
  using assms by (simp add: verify_commit_signatures_def div_ceil_def)

text \<open>A threshold of \<open>(0, 0)\<close> passes \<open>new\<close>, and the header check then divides by zero.\<close>

lemma zero_threshold_panics:
  assumes "trust_threshold C = (0, 0)" "chain_id C \<noteq> []" "http_client_build L (rpc_timeout C) = Inr ()"
  shows "new_light_client L C = Inr C" "div_ceil (whole * 0) 0 = Inl (Panicked ''attempt to divide by zero'')"
  using assms by (simp_all add: new_light_client_def div_ceil_def)

text \<open>Trust on first use stores the latest block whatever its chain.\<close>

lemma trust_on_first_use_ignores_chain:
  assumes "fetch_block_at_height L C 0 s = (Inr b, s1)" "validator_endpoints C \<noteq> []"
  shows "initialize_with_trust_on_first_use L C s = (Inr (), store_header b s1)"
  using assms by (simp add: initialize_with_trust_on_first_use_def)

end
