(* ===== verification/Signed_Messages.thy ===== *)
theory Signed_Messages
  imports World
begin

text \<open>
  The messages transactions are signed over (\<open>src/src/signed_messages.rs\<close>).

  The transactions are \<open>willow_types\<close>' own; the records here have the fields the SDK's sources
  fill. \<open>node\<close> extends the third-party functions by those of \<open>willow_types\<close>: the node's rule
  for a DID, its registration, grant and rotation messages, and its parse of a schema.

  The lemmas show that a message determines every field it is signed for: two transactions of
  any of the five line-based kinds with the same message agree on the kind and on every field
  but the signature and the key id, the data up to its SHA-256 (\<open>signed_message_binds\<close>), and a
  key revoke's message splits one way.
\<close>

section \<open>Transactions\<close>

record store_data_tx =
  sd_subgrove_id :: str
  sd_key :: str
  sd_data :: bytes
  sd_owner_did :: str
  sd_signature :: bytes
  sd_public_key_id :: str
  sd_nonce :: u64

record delete_data_tx =
  dd_subgrove_id :: str
  dd_key :: str
  dd_owner_did :: str
  dd_signature :: bytes
  dd_public_key_id :: str
  dd_nonce :: u64

record file_encryption =
  fe_key_epoch :: u64
  fe_nonce :: bytes

record store_file_manifest_tx =
  sf_subgrove_id :: str
  sf_file_key :: str
  sf_filename :: str
  sf_content_type :: str
  sf_total_size :: u64
  sf_content_hash :: bytes
  sf_chunk_count :: u32
  sf_chunk_size :: u32
  sf_chunk_merkle_root :: bytes
  sf_owner_did :: str
  sf_encryption :: "file_encryption option"
  sf_signature :: bytes
  sf_public_key_id :: str
  sf_nonce :: u64

record delete_file_manifest_tx =
  df_subgrove_id :: str
  df_file_key :: str
  df_owner_did :: str
  df_signature :: bytes
  df_public_key_id :: str
  df_nonce :: u64

record encrypted_key_grant =
  kg_grantee_did :: str
  kg_key_epoch :: u32
  kg_grantee_public_key_id :: str
  kg_ephemeral_public_key :: bytes
  kg_encrypted_key :: bytes
  kg_granted_by :: str
  kg_granted_at :: u64

record grant_subgrove_key_tx =
  gk_subgrove_id :: str
  gk_grant :: encrypted_key_grant
  gk_sender_did :: str
  gk_signature :: bytes
  gk_public_key_id :: str
  gk_nonce :: u64

record revoke_subgrove_key_tx =
  rk_subgrove_id :: str
  rk_revokee_did :: str
  rk_sender_did :: str
  rk_signature :: bytes
  rk_public_key_id :: str
  rk_nonce :: u64

record rotate_subgrove_key_tx =
  ro_subgrove_id :: str
  ro_new_epoch :: u32
  ro_new_grants :: "encrypted_key_grant list"
  ro_sender_did :: str
  ro_signature :: bytes
  ro_public_key_id :: str
  ro_nonce :: u64

record unregister_storage_node_tx =
  un_node_did :: str
  un_signature :: bytes
  un_public_key_id :: str
  un_nonce :: u64

datatype tee_type = AwsNitro | IntelSgx | AmdSev

datatype execution_mode =
    ConsensusExecution
  | IndexerExecution u8
  | TeeExecution tee_type

record indexer_config =
  ic_min_indexers :: u8
  ic_max_indexers :: u8
  ic_reward_per_epoch :: nat
  ic_epoch_length :: u64
  ic_min_indexer_stake :: nat

text \<open>The fields no source of the SDK reads or fills are left out of the modes: a retention
  window is always indefinite, no read pricing and no completeness bond are ever set.\<close>

datatype subgrove_mode =
    DataStorage str "str list" "str list"
  | FileStorage str u64 u8 "str list" "str list" u64
  | BlockchainIndexing bytes execution_mode indexer_config

record register_subgrove_tx =
  rs_subgrove_id :: str
  rs_name :: str
  rs_description :: str
  rs_schema :: str
  rs_owner_did :: str
  rs_admins :: "str list"
  rs_initial_funding :: "nat option"
  rs_checkpoint_verification :: "tee_type option"
  rs_mode :: subgrove_mode
  rs_privacy :: "jvalue option"
  rs_initial_owner_key_grant :: "encrypted_key_grant option"
  rs_template_config :: "jvalue option"
  rs_confirmation_depth :: u64
  rs_signature :: bytes
  rs_public_key_id :: str
  rs_nonce :: u64
  rs_cryptographic_completeness :: bool

text \<open>What the sources use of \<open>willow_types\<close> and \<open>bincode\<close>; errors are their texts.\<close>

record schema_definition =
  sc_indexes :: "jvalue list"

record node = lib +
  nt_validate_did :: "str \<Rightarrow> str \<Rightarrow> (str, unit) result"
  nt_subgrove_config :: "register_subgrove_tx \<Rightarrow> (str, bytes) result"
  nt_register_subgrove :: "register_subgrove_tx \<Rightarrow> (str, str) result"
  nt_grant_subgrove_key :: "grant_subgrove_key_tx \<Rightarrow> (str, str) result"
  nt_rotate_subgrove_key :: "rotate_subgrove_key_tx \<Rightarrow> (str, str) result"
  nt_unregister_storage_node :: "unregister_storage_node_tx \<Rightarrow> (str, str) result"
  nt_schema_definition :: "str \<Rightarrow> (str, schema_definition) result"
  nt_register_bincode :: "register_subgrove_tx \<Rightarrow> (str, bytes) result"

section \<open>The messages\<close>

definition nl :: char where
  "nl = CHR 0x0A"

definition field :: "str \<Rightarrow> str \<Rightarrow> str res" where
  "field label value =
     (if nl \<in> set value then Inl (Validation (Fmt ''{label} holds a line break'' [Str label]))
      else Inr (label @ '': '' @ value))"

definition lines_of :: "str list \<Rightarrow> str" where
  "lines_of ls = join_with [nl] ls"

definition data_write ::
  "'z node_scheme \<Rightarrow> str \<Rightarrow> str \<Rightarrow> str \<Rightarrow> str \<Rightarrow> bytes \<Rightarrow> u64 \<Rightarrow> str res" where
  "data_write L kind subgrove_id key owner_did data nonce =
     rbind (field ''Subgrove'' subgrove_id) (\<lambda>subgrove.
     rbind (field ''Key'' key) (\<lambda>k.
     rbind (field ''Owner'' owner_did) (\<lambda>own.
     Inr (lines_of
       [kind, subgrove, k, own,
        ''DataHash: '' @ hex_encode L (sha256 L data),
        ''Nonce: '' @ dec (unat nonce)]))))"

text \<open>\<open>UpdateDataTx\<close> has the fields of \<open>StoreDataTx\<close>.\<close>

definition store_data_message :: "'z node_scheme \<Rightarrow> store_data_tx \<Rightarrow> str res" where
  "store_data_message L tx =
     data_write L ''StoreData'' (sd_subgrove_id tx) (sd_key tx) (sd_owner_did tx) (sd_data tx) (sd_nonce tx)"

definition update_data_message :: "'z node_scheme \<Rightarrow> store_data_tx \<Rightarrow> str res" where
  "update_data_message L tx =
     data_write L ''UpdateData'' (sd_subgrove_id tx) (sd_key tx) (sd_owner_did tx) (sd_data tx) (sd_nonce tx)"

definition delete_data_message :: "delete_data_tx \<Rightarrow> str res" where
  "delete_data_message tx =
     rbind (field ''Subgrove'' (dd_subgrove_id tx)) (\<lambda>subgrove.
     rbind (field ''Key'' (dd_key tx)) (\<lambda>k.
     rbind (field ''Owner'' (dd_owner_did tx)) (\<lambda>own.
     Inr (lines_of [''DeleteData'', subgrove, k, own, ''Nonce: '' @ dec (unat (dd_nonce tx))]))))"

definition encryption_text :: "'z node_scheme \<Rightarrow> file_encryption option \<Rightarrow> str" where
  "encryption_text L e = (case e of
       None \<Rightarrow> ''none''
     | Some e \<Rightarrow> dec (unat (fe_key_epoch e)) @ '':'' @ hex_encode L (fe_nonce e))"

definition store_file_manifest_message :: "'z node_scheme \<Rightarrow> store_file_manifest_tx \<Rightarrow> str res" where
  "store_file_manifest_message L tx =
     rbind (field ''Subgrove'' (sf_subgrove_id tx)) (\<lambda>subgrove.
     rbind (field ''Key'' (sf_file_key tx)) (\<lambda>k.
     rbind (field ''Owner'' (sf_owner_did tx)) (\<lambda>own.
     rbind (field ''Filename'' (sf_filename tx)) (\<lambda>filename.
     rbind (field ''ContentType'' (sf_content_type tx)) (\<lambda>content_type.
     Inr (lines_of
       [''StoreFileManifest'', subgrove, k, own, filename, content_type,
        ''TotalSize: '' @ dec (unat (sf_total_size tx)),
        ''ContentHash: '' @ hex_encode L (sf_content_hash tx),
        ''ChunkCount: '' @ dec (unat (sf_chunk_count tx)),
        ''ChunkSize: '' @ dec (unat (sf_chunk_size tx)),
        ''ChunkMerkleRoot: '' @ hex_encode L (sf_chunk_merkle_root tx),
        ''Encryption: '' @ encryption_text L (sf_encryption tx),
        ''Nonce: '' @ dec (unat (sf_nonce tx))]))))))"

definition delete_file_manifest_message :: "delete_file_manifest_tx \<Rightarrow> str res" where
  "delete_file_manifest_message tx =
     rbind (field ''Subgrove'' (df_subgrove_id tx)) (\<lambda>subgrove.
     rbind (field ''Key'' (df_file_key tx)) (\<lambda>k.
     rbind (field ''Owner'' (df_owner_did tx)) (\<lambda>own.
     Inr (lines_of
       [''DeleteFileManifest'', subgrove, k, own, ''Nonce: '' @ dec (unat (df_nonce tx))]))))"

definition register_subgrove_unsigned_bincode ::
  "'z node_scheme \<Rightarrow> register_subgrove_tx \<Rightarrow> bytes res" where
  "register_subgrove_unsigned_bincode L tx =
     map_err (\<lambda>e. Custom (Fmt ''Failed to encode the registration: {e}'' [Str e]))
       (nt_register_bincode L (tx\<lparr>rs_signature := []\<rparr>))"

definition type_error :: "str \<Rightarrow> willow_error" where
  "type_error e = Validation (Fmt ''{}'' [Str e])"

definition register_subgrove_config :: "'z node_scheme \<Rightarrow> register_subgrove_tx \<Rightarrow> bytes res" where
  "register_subgrove_config L tx = map_err type_error (nt_subgrove_config L tx)"

definition register_subgrove_message :: "'z node_scheme \<Rightarrow> register_subgrove_tx \<Rightarrow> str res" where
  "register_subgrove_message L tx = map_err type_error (nt_register_subgrove L tx)"

definition validate_did :: "'z node_scheme \<Rightarrow> str \<Rightarrow> str \<Rightarrow> unit res" where
  "validate_did L did label = map_err type_error (nt_validate_did L did label)"

definition MAX_SUBGROVE_ID_LEN :: nat where
  "MAX_SUBGROVE_ID_LEN = 64"

definition is_ascii_alphanumeric :: "char \<Rightarrow> bool" where
  "is_ascii_alphanumeric c \<longleftrightarrow>
     (let n = of_char c :: nat in 48 \<le> n \<and> n \<le> 57 \<or> 65 \<le> n \<and> n \<le> 90 \<or> 97 \<le> n \<and> n \<le> 122)"

definition id_ok :: "str \<Rightarrow> bool" where
  "id_ok s \<longleftrightarrow> s \<noteq> [] \<and> length s \<le> MAX_SUBGROVE_ID_LEN
     \<and> (case s of [] \<Rightarrow> False | b # _ \<Rightarrow> is_ascii_alphanumeric b)
     \<and> list_all (\<lambda>b. is_ascii_alphanumeric b \<or> b = CHR ''-'' \<or> b = CHR ''_'') s"

fun validate_all :: "'z node_scheme \<Rightarrow> str list \<Rightarrow> str \<Rightarrow> unit res" where
  "validate_all L [] label = Inr ()"
| "validate_all L (d # ds) label = rbind (validate_did L d label) (\<lambda>_. validate_all L ds label)"

definition refuse :: "str \<Rightarrow> arg list \<Rightarrow> 'a res" where
  "refuse f args = Inl (Validation (Fmt f args))"

definition check_schema :: "'z node_scheme \<Rightarrow> str \<Rightarrow> unit res" where
  "check_schema L s = (case nt_schema_definition L s of
       Inl e \<Rightarrow> refuse ''schema does not parse as the SchemaDefinition of the node: {e}'' [Str e]
     | Inr schema \<Rightarrow>
         if sc_indexes schema \<noteq> [] then refuse ''Schema indexes are not supported'' []
         else Inr ())"

definition check_owner_grant :: "'z node_scheme \<Rightarrow> register_subgrove_tx \<Rightarrow> unit res" where
  "check_owner_grant L tx = (case (rs_mode tx, rs_privacy tx, rs_initial_owner_key_grant tx) of
       (DataStorage _ _ _, Some _, Some grant) \<Rightarrow>
         if kg_key_epoch grant \<noteq> 0 then
           refuse ''initial_owner_key_grant key_epoch must be 0, got {}'' [Num (unat (kg_key_epoch grant))]
         else if kg_grantee_did grant \<noteq> rs_owner_did tx then
           refuse ''initial_owner_key_grant must grant the owner'' []
         else validate_did L (kg_grantee_did grant) ''grantee_did''
     | _ \<Rightarrow> Inr ())"

definition check_storage_rules ::
  "'z node_scheme \<Rightarrow> register_subgrove_tx \<Rightarrow> str list \<Rightarrow> str list \<Rightarrow> unit res" where
  "check_storage_rules L tx writers free_readers =
     (if \<not> id_ok (rs_subgrove_id tx) then
        refuse ''Invalid subgrove_id {id:?}'' [Str (rs_subgrove_id tx), Num MAX_SUBGROVE_ID_LEN]
      else
        rbind (validate_all L (rs_admins tx) ''admin'') (\<lambda>_.
        rbind (validate_all L writers ''writer'') (\<lambda>_.
        rbind (validate_all L free_readers ''free reader'') (\<lambda>_.
        rbind (check_schema L (rs_schema tx)) (\<lambda>_.
        check_owner_grant L tx)))))"

definition check_register_subgrove :: "'z node_scheme \<Rightarrow> register_subgrove_tx \<Rightarrow> unit res" where
  "check_register_subgrove L tx = (case rs_mode tx of
       BlockchainIndexing _ _ _ \<Rightarrow> Inr ()
     | DataStorage _ writers free_readers \<Rightarrow> check_storage_rules L tx writers free_readers
     | FileStorage _ _ _ writers free_readers _ \<Rightarrow> check_storage_rules L tx writers free_readers)"

definition grant_subgrove_key_message :: "'z node_scheme \<Rightarrow> grant_subgrove_key_tx \<Rightarrow> str res" where
  "grant_subgrove_key_message L tx =
     rbind (map_err type_error (nt_grant_subgrove_key L tx)) (\<lambda>message.
     rbind (validate_did L (kg_grantee_did (gk_grant tx)) ''grantee_did'') (\<lambda>_.
     Inr message))"

fun check_grants :: "'z node_scheme \<Rightarrow> u32 \<Rightarrow> encrypted_key_grant list \<Rightarrow> unit res" where
  "check_grants L epoch [] = Inr ()"
| "check_grants L epoch (g # gs) =
     (if kg_key_epoch g \<noteq> epoch then
        refuse ''Grant for {} has key_epoch {}, expected {}''
          [Str (kg_grantee_did g), Num (unat (kg_key_epoch g)), Num (unat epoch)]
      else
        rbind (validate_did L (kg_grantee_did g) ''grantee_did'') (\<lambda>_. check_grants L epoch gs))"

definition rotate_subgrove_key_message :: "'z node_scheme \<Rightarrow> rotate_subgrove_key_tx \<Rightarrow> str res" where
  "rotate_subgrove_key_message L tx =
     rbind (map_err type_error (nt_rotate_subgrove_key L tx)) (\<lambda>message.
     if ro_new_grants tx = [] then refuse ''a key rotation needs at least one grant'' []
     else rbind (check_grants L (ro_new_epoch tx) (ro_new_grants tx)) (\<lambda>_. Inr message))"

definition revoke_subgrove_key_message :: "'z node_scheme \<Rightarrow> revoke_subgrove_key_tx \<Rightarrow> str res" where
  "revoke_subgrove_key_message L tx =
     (if CHR '':'' \<in> set (rk_subgrove_id tx) then refuse ''Subgrove holds a colon'' []
      else
        rbind (validate_did L (rk_revokee_did tx) ''revokee_did'') (\<lambda>_.
        rbind (validate_did L (rk_sender_did tx) ''sender_did'') (\<lambda>_.
        Inr (join_with '':''
          [''RevokeSubgroveKey'', rk_subgrove_id tx, rk_revokee_did tx, rk_sender_did tx,
           dec (unat (rk_nonce tx))]))))"

definition unregister_storage_node_message ::
  "'z node_scheme \<Rightarrow> unregister_storage_node_tx \<Rightarrow> str res" where
  "unregister_storage_node_message L tx = map_err type_error (nt_unregister_storage_node L tx)"

section \<open>What a message binds\<close>

datatype signed_tx =
    Store_Data store_data_tx
  | Update_Data store_data_tx
  | Delete_Data delete_data_tx
  | Store_File_Manifest store_file_manifest_tx
  | Delete_File_Manifest delete_file_manifest_tx

fun message_of :: "'z node_scheme \<Rightarrow> signed_tx \<Rightarrow> str res" where
  "message_of L (Store_Data tx) = store_data_message L tx"
| "message_of L (Update_Data tx) = update_data_message L tx"
| "message_of L (Delete_Data tx) = delete_data_message tx"
| "message_of L (Store_File_Manifest tx) = store_file_manifest_message L tx"
| "message_of L (Delete_File_Manifest tx) = delete_file_manifest_message tx"

text \<open>What the signature is to bind: every field but the signature and the key's id, which are
  not part of what is signed, and of the data its hash.\<close>

fun signed_part :: "'z node_scheme \<Rightarrow> signed_tx \<Rightarrow> signed_tx" where
  "signed_part L (Store_Data tx) =
     Store_Data (tx\<lparr>sd_data := sha256 L (sd_data tx), sd_signature := [], sd_public_key_id := []\<rparr>)"
| "signed_part L (Update_Data tx) =
     Update_Data (tx\<lparr>sd_data := sha256 L (sd_data tx), sd_signature := [], sd_public_key_id := []\<rparr>)"
| "signed_part L (Delete_Data tx) = Delete_Data (tx\<lparr>dd_signature := [], dd_public_key_id := []\<rparr>)"
| "signed_part L (Store_File_Manifest tx) =
     Store_File_Manifest (tx\<lparr>sf_signature := [], sf_public_key_id := []\<rparr>)"
| "signed_part L (Delete_File_Manifest tx) =
     Delete_File_Manifest (tx\<lparr>df_signature := [], df_public_key_id := []\<rparr>)"

definition labelled :: "str \<Rightarrow> str \<Rightarrow> str" where
  "labelled l v = l @ '': '' @ v"

definition data_lines :: "'z node_scheme \<Rightarrow> str \<Rightarrow> store_data_tx \<Rightarrow> str list" where
  "data_lines L kind tx =
     [kind, labelled ''Subgrove'' (sd_subgrove_id tx), labelled ''Key'' (sd_key tx),
      labelled ''Owner'' (sd_owner_did tx), labelled ''DataHash'' (hex_encode L (sha256 L (sd_data tx))),
      labelled ''Nonce'' (dec (unat (sd_nonce tx)))]"

fun tx_lines :: "'z node_scheme \<Rightarrow> signed_tx \<Rightarrow> str list" where
  "tx_lines L (Store_Data tx) = data_lines L ''StoreData'' tx"
| "tx_lines L (Update_Data tx) = data_lines L ''UpdateData'' tx"
| "tx_lines L (Delete_Data tx) =
     [''DeleteData'', labelled ''Subgrove'' (dd_subgrove_id tx), labelled ''Key'' (dd_key tx),
      labelled ''Owner'' (dd_owner_did tx), labelled ''Nonce'' (dec (unat (dd_nonce tx)))]"
| "tx_lines L (Store_File_Manifest tx) =
     [''StoreFileManifest'', labelled ''Subgrove'' (sf_subgrove_id tx), labelled ''Key'' (sf_file_key tx),
      labelled ''Owner'' (sf_owner_did tx), labelled ''Filename'' (sf_filename tx),
      labelled ''ContentType'' (sf_content_type tx),
      labelled ''TotalSize'' (dec (unat (sf_total_size tx))),
      labelled ''ContentHash'' (hex_encode L (sf_content_hash tx)),
      labelled ''ChunkCount'' (dec (unat (sf_chunk_count tx))),
      labelled ''ChunkSize'' (dec (unat (sf_chunk_size tx))),
      labelled ''ChunkMerkleRoot'' (hex_encode L (sf_chunk_merkle_root tx)),
      labelled ''Encryption'' (encryption_text L (sf_encryption tx)),
      labelled ''Nonce'' (dec (unat (sf_nonce tx)))]"
| "tx_lines L (Delete_File_Manifest tx) =
     [''DeleteFileManifest'', labelled ''Subgrove'' (df_subgrove_id tx), labelled ''Key'' (df_file_key tx),
      labelled ''Owner'' (df_owner_did tx), labelled ''Nonce'' (dec (unat (df_nonce tx)))]"

fun text_fields :: "signed_tx \<Rightarrow> str list" where
  "text_fields (Store_Data tx) = [sd_subgrove_id tx, sd_key tx, sd_owner_did tx]"
| "text_fields (Update_Data tx) = [sd_subgrove_id tx, sd_key tx, sd_owner_did tx]"
| "text_fields (Delete_Data tx) = [dd_subgrove_id tx, dd_key tx, dd_owner_did tx]"
| "text_fields (Store_File_Manifest tx) =
     [sf_subgrove_id tx, sf_file_key tx, sf_owner_did tx, sf_filename tx, sf_content_type tx]"
| "text_fields (Delete_File_Manifest tx) = [df_subgrove_id tx, df_file_key tx, df_owner_did tx]"

lemma field_Inr_iff: "field l v = Inr x \<longleftrightarrow> nl \<notin> set v \<and> x = labelled l v"
  by (auto simp: field_def labelled_def)

lemmas message_defs =
  store_data_message_def update_data_message_def data_write_def delete_data_message_def
  store_file_manifest_message_def delete_file_manifest_message_def data_lines_def

lemma message_of_lines:
  "message_of L t = Inr m \<longleftrightarrow> list_all (\<lambda>v. nl \<notin> set v) (text_fields t) \<and> m = lines_of (tx_lines L t)"
  by (cases t) (auto simp: message_defs rbind_Inr_iff field_Inr_iff labelled_def)

lemma dec_no_nl [simp]: "nl \<notin> set (dec n)"
  by (rule dec_not_mem) (simp add: nl_def)

lemma hex_no_nl: "hex_ok L \<Longrightarrow> nl \<notin> set (hex_encode L b)"
  by (rule hex_ok_chars) (simp_all add: is_hex_char_def nl_def)

lemma encryption_no_nl: "hex_ok L \<Longrightarrow> nl \<notin> set (encryption_text L e)"
  by (cases e) (simp_all add: encryption_text_def hex_no_nl, simp_all add: nl_def)

lemma labelled_nl: "nl \<in> set (labelled l v) \<longleftrightarrow> nl \<in> set l \<or> nl \<in> set v"
  by (auto simp: labelled_def nl_def)

lemma tx_lines_no_nl:
  assumes "hex_ok L" "list_all (\<lambda>v. nl \<notin> set v) (text_fields t)"
  shows "\<forall>l \<in> set (tx_lines L t). nl \<notin> set l"
  using assms
  by (cases t) (simp_all add: data_lines_def labelled_nl hex_no_nl encryption_no_nl, simp_all add: nl_def)

lemma labelled_inject [simp]: "labelled l v = labelled l w \<longleftrightarrow> v = w"
  by (simp add: labelled_def)

lemma encryption_text_inject:
  assumes "hex_ok L"
  shows "encryption_text L e = encryption_text L f \<longleftrightarrow> e = f"
proof -
  have none: "''none'' \<noteq> dec n @ '':'' @ s" for n s
  proof
    assume eq: "''none'' = dec n @ '':'' @ s"
    then have "hd (dec n) = CHR ''n''" by (cases "dec n") auto
    then have "CHR ''n'' \<in> set (dec n)" using hd_in_set [of "dec n"] by simp
    then show False using dec_not_mem [of "CHR ''n''" n] by simp
  qed
  have some: "x = y"
    if "dec (unat (fe_key_epoch x)) @ '':'' @ hex_encode L (fe_nonce x)
        = dec (unat (fe_key_epoch y)) @ '':'' @ hex_encode L (fe_nonce y)" for x y :: file_encryption
  proof -
    from that have "unat (fe_key_epoch x) = unat (fe_key_epoch y)
        \<and> hex_encode L (fe_nonce x) = hex_encode L (fe_nonce y)"
      by (intro dec_prefix_inject [of _ "CHR '':''"]) simp_all
    then have "fe_key_epoch x = fe_key_epoch y" "fe_nonce x = fe_nonce y"
      by (simp_all only: word_unat_eq_iff [symmetric] hex_ok_inject [OF assms])
    then show ?thesis by simp
  qed
  show ?thesis
  proof (cases e)
    case None
    then show ?thesis using none by (cases f) (simp_all add: encryption_text_def)
  next
    case (Some x)
    then show ?thesis using none [symmetric] some
      by (cases f) (simp_all add: encryption_text_def, blast)
  qed
qed

lemma tx_lines_kind:
  assumes "tx_lines L t = tx_lines L u"
  shows "(case (t, u) of
       (Store_Data _, Store_Data _) \<Rightarrow> True
     | (Update_Data _, Update_Data _) \<Rightarrow> True
     | (Delete_Data _, Delete_Data _) \<Rightarrow> True
     | (Store_File_Manifest _, Store_File_Manifest _) \<Rightarrow> True
     | (Delete_File_Manifest _, Delete_File_Manifest _) \<Rightarrow> True
     | _ \<Rightarrow> False)"
proof -
  have "hd (tx_lines L t) = hd (tx_lines L u)" using assms by simp
  then show ?thesis by (cases t; cases u) (simp_all add: data_lines_def)
qed

lemmas line_inject = labelled_inject dec_inject word_unat_eq_iff [symmetric] list.inject

lemma tx_lines_inject:
  assumes hex: "hex_ok L" and eq: "tx_lines L t = tx_lines L u"
  shows "signed_part L t = signed_part L u"
proof -
  note hi = hex_ok_inject [OF hex] encryption_text_inject [OF hex]
  note [simp del] = labelled_inject
  show ?thesis
  proof (cases t)
    case (Store_Data a)
    then obtain b where u: "u = Store_Data b" using tx_lines_kind [OF eq] by (cases u) simp_all
    show ?thesis using eq
      by (simp add: Store_Data u data_lines_def line_inject hi store_data_tx.equality)
  next
    case (Update_Data a)
    then obtain b where u: "u = Update_Data b" using tx_lines_kind [OF eq] by (cases u) simp_all
    show ?thesis using eq
      by (simp add: Update_Data u data_lines_def line_inject hi store_data_tx.equality)
  next
    case (Delete_Data a)
    then obtain b where u: "u = Delete_Data b" using tx_lines_kind [OF eq] by (cases u) simp_all
    show ?thesis using eq
      by (simp add: Delete_Data u line_inject hi delete_data_tx.equality)
  next
    case (Store_File_Manifest a)
    then obtain b where u: "u = Store_File_Manifest b" using tx_lines_kind [OF eq] by (cases u) simp_all
    show ?thesis using eq
      by (simp add: Store_File_Manifest u line_inject hi store_file_manifest_tx.equality)
  next
    case (Delete_File_Manifest a)
    then obtain b where u: "u = Delete_File_Manifest b" using tx_lines_kind [OF eq] by (cases u) simp_all
    show ?thesis using eq
      by (simp add: Delete_File_Manifest u line_inject hi delete_file_manifest_tx.equality)
  qed
qed

text \<open>C28: A message determines what it signs. When two transactions of the line-based kinds
  have the same message, they are of the same kind and agree on every signed field, the data up
  to its SHA-256: a signature over one cannot be read as a signature over another.\<close>

theorem signed_message_binds:
  assumes "hex_ok L" "message_of L t = Inr m" "message_of L u = Inr m"
  shows "signed_part L t = signed_part L u"
proof -
  have t: "list_all (\<lambda>v. nl \<notin> set v) (text_fields t)" "m = lines_of (tx_lines L t)"
    and u: "list_all (\<lambda>v. nl \<notin> set v) (text_fields u)" "m = lines_of (tx_lines L u)"
    using assms(2,3) by (simp_all add: message_of_lines)
  have ne: "tx_lines L x \<noteq> []" for x by (cases x) (simp_all add: data_lines_def)
  have "tx_lines L t = tx_lines L u"
    using t(2) u(2) tx_lines_no_nl [OF assms(1) t(1)] tx_lines_no_nl [OF assms(1) u(1)] ne
    unfolding lines_of_def by (metis join_with_inject)
  then show ?thesis by (rule tx_lines_inject [OF assms(1)])
qed

section \<open>A revoke splits one way\<close>

text \<open>What the documentation says of the node's rule: a DID is \<open>did:willow:\<close> and then letters,
  digits, \<open>-\<close> or \<open>_\<close>.\<close>

definition did_rule :: "'z node_scheme \<Rightarrow> bool" where
  "did_rule L \<longleftrightarrow> (\<forall>d l. nt_validate_did L d l = Inr () \<longrightarrow>
     (\<exists>r. d = ''did:willow:'' @ r \<and>
       list_all (\<lambda>c. is_ascii_alphanumeric c \<or> c = CHR ''-'' \<or> c = CHR ''_'') r))"

lemma did_rule_colon:
  assumes "did_rule L" "validate_did L d l = Inr ()"
  obtains r where "d = join_with '':'' [''did'', ''willow'', r]" "CHR '':'' \<notin> set r"
proof -
  from assms obtain r where r: "d = ''did:willow:'' @ r"
    "list_all (\<lambda>c. is_ascii_alphanumeric c \<or> c = CHR ''-'' \<or> c = CHR ''_'') r"
    unfolding did_rule_def validate_did_def map_err_Inr_iff by blast
  then have "CHR '':'' \<notin> set r" by (auto simp: list_all_iff is_ascii_alphanumeric_def)
  with r(1) show thesis by (intro that [of r]) simp_all
qed

lemma colon_not_dec: "CHR '':'' \<notin> set (dec n)"
  by (rule dec_not_mem) simp

text \<open>A key revoke's message splits one way: two revokes with the same message name the same
  subgrove, revokee, sender and nonce.\<close>

theorem revoke_message_splits:
  assumes "did_rule L"
    "revoke_subgrove_key_message L t = Inr m" "revoke_subgrove_key_message L u = Inr m"
  shows "rk_subgrove_id t = rk_subgrove_id u \<and> rk_revokee_did t = rk_revokee_did u
    \<and> rk_sender_did t = rk_sender_did u \<and> rk_nonce t = rk_nonce u"
proof -
  have parts: "\<exists>r s. rk_revokee_did x = join_with '':'' [''did'', ''willow'', r]
      \<and> rk_sender_did x = join_with '':'' [''did'', ''willow'', s]
      \<and> split_on (CHR '':'') m = [''RevokeSubgroveKey'', rk_subgrove_id x, ''did'', ''willow'', r,
           ''did'', ''willow'', s, dec (unat (rk_nonce x))]"
    if x: "revoke_subgrove_key_message L x = Inr m" for x
  proof -
    from x have sg: "CHR '':'' \<notin> set (rk_subgrove_id x)"
      and v: "validate_did L (rk_revokee_did x) ''revokee_did'' = Inr ()"
        "validate_did L (rk_sender_did x) ''sender_did'' = Inr ()"
      and m: "m = join_with '':'' [''RevokeSubgroveKey'', rk_subgrove_id x, rk_revokee_did x,
        rk_sender_did x, dec (unat (rk_nonce x))]"
      by (auto simp: revoke_subgrove_key_message_def refuse_def rbind_Inr_iff split: if_splits)
    obtain r where r: "rk_revokee_did x = join_with '':'' [''did'', ''willow'', r]" "CHR '':'' \<notin> set r"
      by (rule did_rule_colon [OF assms(1) v(1)])
    obtain s where s: "rk_sender_did x = join_with '':'' [''did'', ''willow'', s]" "CHR '':'' \<notin> set s"
      by (rule did_rule_colon [OF assms(1) v(2)])
    let ?parts = "[''RevokeSubgroveKey'', rk_subgrove_id x, ''did'', ''willow'', r,
           ''did'', ''willow'', s, dec (unat (rk_nonce x))]"
    have "m = join_with '':'' ?parts" by (simp add: m r(1) s(1))
    moreover have "split_on (CHR '':'') (join_with '':'' ?parts) = ?parts"
      by (rule split_on_join) (simp_all add: sg r(2) s(2) colon_not_dec)
    ultimately show ?thesis using r(1) s(1) by blast
  qed
  from parts [OF assms(2)] parts [OF assms(3)] show ?thesis
    by (auto simp: word_unat_eq_iff)
qed

section \<open>Registration rules\<close>

lemma validate_all_iff: "validate_all L ds label = Inr () \<longleftrightarrow> list_all (\<lambda>d. validate_did L d label = Inr ()) ds"
  by (induction ds) (simp_all add: rbind_Inr_iff)

lemma check_grants_iff:
  "check_grants L epoch gs = Inr () \<longleftrightarrow>
     list_all (\<lambda>g. kg_key_epoch g = epoch \<and> validate_did L (kg_grantee_did g) ''grantee_did'' = Inr ()) gs"
  by (induction gs) (simp_all add: rbind_Inr_iff refuse_def)

lemma check_schema_iff: "check_schema L s = Inr () \<longleftrightarrow>
    (\<exists>sc. nt_schema_definition L s = Inr sc \<and> sc_indexes sc = [])"
  by (auto simp: check_schema_def refuse_def split: sum.splits)

lemma check_owner_grant_iff:
  "check_owner_grant L tx = Inr () \<longleftrightarrow>
     (case (rs_mode tx, rs_privacy tx, rs_initial_owner_key_grant tx) of
        (DataStorage _ _ _, Some _, Some g) \<Rightarrow> kg_key_epoch g = 0 \<and> kg_grantee_did g = rs_owner_did tx
          \<and> validate_did L (rs_owner_did tx) ''grantee_did'' = Inr ()
      | _ \<Rightarrow> True)"
  by (auto simp: check_owner_grant_def refuse_def split: option.splits subgrove_mode.splits)

definition storage_rules ::
  "'z node_scheme \<Rightarrow> register_subgrove_tx \<Rightarrow> str list \<Rightarrow> str list \<Rightarrow> bool" where
  "storage_rules L tx writers readers \<longleftrightarrow>
     id_ok (rs_subgrove_id tx)
     \<and> list_all (\<lambda>d. validate_did L d ''admin'' = Inr ()) (rs_admins tx)
     \<and> list_all (\<lambda>d. validate_did L d ''writer'' = Inr ()) writers
     \<and> list_all (\<lambda>d. validate_did L d ''free reader'' = Inr ()) readers
     \<and> (\<exists>sc. nt_schema_definition L (rs_schema tx) = Inr sc \<and> sc_indexes sc = [])
     \<and> check_owner_grant L tx = Inr ()"

lemma check_storage_rules_iff:
  "check_storage_rules L tx writers readers = Inr () \<longleftrightarrow> storage_rules L tx writers readers"
  by (auto simp: check_storage_rules_def storage_rules_def rbind_Inr_iff validate_all_iff
      check_schema_iff refuse_def)

text \<open>An accepted id holds neither of the separators the signed messages use.\<close>

lemma id_ok_no_separator: "id_ok s \<Longrightarrow> nl \<notin> set s \<and> CHR '':'' \<notin> set s \<and> CHR ''/'' \<notin> set s"
  by (auto simp: id_ok_def list_all_iff is_ascii_alphanumeric_def nl_def)

section \<open>Witnesses\<close>

definition sample_node :: node where
  "sample_node = lib.extend sample_lib
     \<lparr>nt_validate_did = (\<lambda>d l. if prefix ''did:willow:'' d
          \<and> list_all (\<lambda>c. is_ascii_alphanumeric c \<or> c = CHR ''-'' \<or> c = CHR ''_'') (drop 11 d)
        then Inr () else Inl l),
      nt_subgrove_config = (\<lambda>_. Inr (replicate 32 0)), nt_register_subgrove = (\<lambda>_. Inr ''m''),
      nt_grant_subgrove_key = (\<lambda>_. Inr ''m''), nt_rotate_subgrove_key = (\<lambda>_. Inr ''m''),
      nt_unregister_storage_node = (\<lambda>_. Inr ''m''),
      nt_schema_definition = (\<lambda>_. Inr \<lparr>sc_indexes = []\<rparr>), nt_register_bincode = (\<lambda>_. Inr [])\<rparr>"

lemma sample_node_hex: "hex_ok sample_node"
  by (rule hex_ok_text) (simp_all add: sample_node_def lib.defs sample_lib_def)

lemma sample_node_did: "did_rule sample_node"
  by (auto simp: did_rule_def sample_node_def lib.defs prefix_def)

definition sample_store :: store_data_tx where
  "sample_store = \<lparr>sd_subgrove_id = ''sg-1'', sd_key = ''doc1'', sd_data = [1, 2], sd_owner_did = ''did:willow:a'',
     sd_signature = [], sd_public_key_id = ''k'', sd_nonce = 7\<rparr>"

theorem signed_message_binds_witness:
  "signed_part sample_node (Store_Data sample_store)
     = signed_part sample_node (Store_Data (sample_store\<lparr>sd_signature := [9]\<rparr>))"
proof (rule signed_message_binds [OF sample_node_hex])
  let ?m = "lines_of (tx_lines sample_node (Store_Data sample_store))"
  show "message_of sample_node (Store_Data sample_store) = Inr ?m"
    by (simp only: message_of_lines) (simp add: sample_store_def nl_def)
  show "message_of sample_node (Store_Data (sample_store\<lparr>sd_signature := [9]\<rparr>)) = Inr ?m"
    by (simp only: message_of_lines) (simp add: sample_store_def nl_def data_lines_def)
qed

definition sample_revoke :: revoke_subgrove_key_tx where
  "sample_revoke = \<lparr>rk_subgrove_id = ''sg-1'', rk_revokee_did = ''did:willow:b'',
     rk_sender_did = ''did:willow:a'', rk_signature = [], rk_public_key_id = ''k'', rk_nonce = 7\<rparr>"

theorem revoke_message_splits_witness:
  "let u = sample_revoke\<lparr>rk_signature := [9]\<rparr> in
   rk_subgrove_id sample_revoke = rk_subgrove_id u \<and> rk_revokee_did sample_revoke = rk_revokee_did u
    \<and> rk_sender_did sample_revoke = rk_sender_did u \<and> rk_nonce sample_revoke = rk_nonce u"
proof -
  have m: "revoke_subgrove_key_message sample_node (sample_revoke\<lparr>rk_signature := s\<rparr>)
      = Inr (''RevokeSubgroveKey:sg-1:did:willow:b:did:willow:a:'' @ dec 7)" for s
    by (simp add: revoke_subgrove_key_message_def sample_revoke_def validate_did_def sample_node_def
        lib.defs map_err_def list_all_iff is_ascii_alphanumeric_def)
  have "revoke_subgrove_key_message sample_node sample_revoke
      = Inr (''RevokeSubgroveKey:sg-1:did:willow:b:did:willow:a:'' @ dec 7)"
    using m [of "[]"] by (simp add: sample_revoke_def)
  from revoke_message_splits [OF sample_node_did this m [of "[9]"]] show ?thesis
    by (simp only: Let_def)
qed

end
