(* ===== verification/Auth.thy ===== *)
theory Auth
  imports Signed_Messages
begin

text \<open>
  Identities and signatures (\<open>src/src/auth.rs\<close>).

  Hashes, curves and encodings are the third-party functions of \<open>lib\<close>; a random value is an
  argument. \<open>crypto_ok\<close> states what the libraries document of them: the length of a key and of
  a signature, and that a signature verifies under the key it was made with. From it follow that
  what \<open>sign_challenge\<close> makes \<open>verify_signature\<close> accepts, in both algorithms and with the \<open>0x\<close> of
  a request signature, that a signed request's message binds every field of it, and that the
  encodings of one secp256k1 key give one DID.
\<close>

datatype signature_algorithm = Ed25519_alg | Secp256k1_alg

record did_public_key =
  pk_id :: str
  pk_key_type :: str
  pk_controller :: str
  pk_public_key_base58 :: "str option"
  pk_public_key_hex :: "str option"

record did_document =
  doc_id :: str
  doc_public_keys :: "did_public_key list"
  doc_authentication :: "str list"
  doc_service :: "jvalue list"
  doc_created :: u64
  doc_updated :: u64
  doc_proof :: "jvalue option"

record did_info =
  di_did :: str
  di_private_key :: bytes
  di_public_key :: bytes
  di_public_key_id :: str
  di_did_document :: did_document
  di_algorithm :: signature_algorithm

definition crypto_error :: "str \<Rightarrow> willow_error" where
  "crypto_error m = Crypto (Fmt m [])"

section \<open>DIDs\<close>

definition MULTIBASE_BASE58BTC :: str where
  "MULTIBASE_BASE58BTC = ''z''"

definition MULTICODEC_ED25519_PUB :: bytes where
  "MULTICODEC_ED25519_PUB = [0xED, 0x01]"

definition MULTICODEC_SECP256K1_PUB :: bytes where
  "MULTICODEC_SECP256K1_PUB = [0xE7, 0x01]"

definition secp256k1_parse :: "'z lib_scheme \<Rightarrow> bytes \<Rightarrow> bytes res" where
  "secp256k1_parse L k =
     rbind (map_err from_secp256k1_error (secp256k1_key L k)) (\<lambda>_. Inr (secp256k1_serialize L k))"

definition secp256k1_compressed :: "'z lib_scheme \<Rightarrow> bytes \<Rightarrow> bytes res" where
  "secp256k1_compressed L k =
     (if length k = 33 \<or> length k = 65 then secp256k1_parse L k
      else if length k = 64 then secp256k1_parse L (0x04 # k)
      else Inl (crypto_error ''secp256k1 public key must be 33, 64, or 65 bytes''))"

definition did_key_bytes ::
  "'z lib_scheme \<Rightarrow> signature_algorithm \<Rightarrow> bytes \<Rightarrow> (bytes \<times> bytes) res" where
  "did_key_bytes L algorithm k = (case algorithm of
       Ed25519_alg \<Rightarrow>
         if length k \<noteq> 32 then Inl (crypto_error ''Ed25519 public key must be 32 bytes'')
         else Inr (MULTICODEC_ED25519_PUB, k)
     | Secp256k1_alg \<Rightarrow>
         rbind (secp256k1_compressed L k) (\<lambda>c. Inr (MULTICODEC_SECP256K1_PUB, c)))"

definition did_from_public_key ::
  "'z lib_scheme \<Rightarrow> signature_algorithm \<Rightarrow> bytes \<Rightarrow> str res" where
  "did_from_public_key L algorithm k =
     rbind (did_key_bytes L algorithm k) (\<lambda>(pre, key_bytes).
     Inr (''did:willow:'' @ MULTIBASE_BASE58BTC @ base58_encode L (sha3_256 L (pre @ key_bytes))))"

text \<open>\<open>generate_did\<close>: \<open>secret\<close> is the random secret key, \<open>created\<close> and \<open>updated\<close> the two readings of
  the clock.\<close>

definition key_pair :: "'z lib_scheme \<Rightarrow> signature_algorithm \<Rightarrow> bytes \<Rightarrow> bytes \<times> bytes \<times> str" where
  "key_pair L algorithm secret = (case algorithm of
       Ed25519_alg \<Rightarrow> (secret, ed25519_public L secret, ''Ed25519VerificationKey2018'')
     | Secp256k1_alg \<Rightarrow> (secret, secp256k1_public L secret, ''EcdsaSecp256k1VerificationKey2019''))"

definition generate_did ::
  "'z lib_scheme \<Rightarrow> signature_algorithm \<Rightarrow> bytes \<Rightarrow> u64 \<Rightarrow> u64 \<Rightarrow> did_info res" where
  "generate_did L algorithm secret created updated =
     (case key_pair L algorithm secret of (private, public, key_type) \<Rightarrow>
      rbind (did_from_public_key L algorithm public) (\<lambda>did.
      let key_id = did @ ''#key-1'' in
      Inr \<lparr>di_did = did, di_private_key = private, di_public_key = public,
        di_public_key_id = key_id,
        di_did_document =
          \<lparr>doc_id = did,
           doc_public_keys = [\<lparr>pk_id = key_id, pk_key_type = key_type, pk_controller = did,
             pk_public_key_base58 = None, pk_public_key_hex = Some (hex_encode L public)\<rparr>],
           doc_authentication = [key_id], doc_service = [], doc_created = created,
           doc_updated = updated, doc_proof = None\<rparr>,
        di_algorithm = algorithm\<rparr>))"

section \<open>Signing and verifying\<close>

definition message_digest :: "'z lib_scheme \<Rightarrow> str \<Rightarrow> bytes res" where
  "message_digest L message =
     (let h = keccak256 L (str_bytes message) in
      if length h = 32 then Inr h else Inl (crypto_error ''Failed to create message''))"

definition sign_challenge :: "'z lib_scheme \<Rightarrow> str \<Rightarrow> str \<Rightarrow> signature_algorithm \<Rightarrow> str res" where
  "sign_challenge L message private_key_hex algorithm =
     rbind (map_err from_hex_error (hex_decode L private_key_hex)) (\<lambda>k.
     rbind (case algorithm of
         Ed25519_alg \<Rightarrow>
           if length k \<noteq> 32 then Inl (Validation (Fmt ''Ed25519 private key must be 32 bytes'' []))
           else Inr (ed25519_sign L k (str_bytes message))
       | Secp256k1_alg \<Rightarrow>
           rbind (map_err from_secp256k1_error (secp256k1_secret L k)) (\<lambda>_.
           rbind (message_digest L message) (\<lambda>h. Inr (secp256k1_sign L k h))))
       (\<lambda>signature. Inr (hex_encode L signature)))"

definition signed_request_message ::
  "'z lib_scheme \<Rightarrow> str \<Rightarrow> str \<Rightarrow> str \<Rightarrow> str \<Rightarrow> str \<Rightarrow> str \<Rightarrow> bytes \<Rightarrow> str" where
  "signed_request_message L did public_key_id method path_and_query timestamp nonce body =
     lines_of [''willow-request-v2'', did, public_key_id, method, path_and_query, timestamp, nonce,
       hex_encode L (sha256 L body)]"

definition legacy_request_message :: "str \<Rightarrow> str \<Rightarrow> str \<Rightarrow> str" where
  "legacy_request_message method path timestamp =
     (let p = (case split_on (CHR ''?'') path of [] \<Rightarrow> path | q # _ \<Rightarrow> q) in
      method @ '':'' @ p @ '':'' @ timestamp)"

definition new_request_nonce :: "'z lib_scheme \<Rightarrow> bytes \<Rightarrow> str" where
  "new_request_nonce L random = hex_encode L random"

definition sign_request_message :: "'z lib_scheme \<Rightarrow> str \<Rightarrow> str \<Rightarrow> signature_algorithm \<Rightarrow> str res" where
  "sign_request_message L message private_key_hex algorithm =
     rbind (sign_challenge L message private_key_hex algorithm) (\<lambda>signature.
     Inr (case algorithm of Secp256k1_alg \<Rightarrow> ''0x'' @ signature | Ed25519_alg \<Rightarrow> signature))"

definition sign_request_with_nonce_at ::
  "'z lib_scheme \<Rightarrow> str \<Rightarrow> str \<Rightarrow> str \<Rightarrow> signature_algorithm \<Rightarrow> str \<Rightarrow> str \<Rightarrow> bytes \<Rightarrow> str \<Rightarrow> str
   \<Rightarrow> (str \<times> str) list res" where
  "sign_request_with_nonce_at L did key_id private_key_hex algorithm method path_and_query body
     timestamp nonce =
     (let message = signed_request_message L did key_id method path_and_query timestamp nonce body in
      rbind (sign_request_message L message private_key_hex algorithm) (\<lambda>signature.
      Inr [(''X-DID'', did), (''X-Public-Key-ID'', key_id), (''X-Signature'', signature),
           (''X-Timestamp'', timestamp), (''X-Nonce'', nonce)]))"

text \<open>The clock counts nanoseconds since 1970; \<open>random\<close> is the 16 random bytes of the nonce.\<close>

definition sign_request_with_nonce ::
  "'z lib_scheme \<Rightarrow> bytes \<Rightarrow> str \<Rightarrow> str \<Rightarrow> str \<Rightarrow> signature_algorithm \<Rightarrow> str \<Rightarrow> str \<Rightarrow> bytes
   \<Rightarrow> ('w world_scheme, (str \<times> str) list res) io" where
  "sign_request_with_nonce L random did key_id private_key_hex algorithm method path_and_query body =
     bind_io utc_now_io (\<lambda>t.
     ret (if t < 0 then Inl (crypto_error ''system clock is before 1970'')
          else sign_request_with_nonce_at L did key_id private_key_hex algorithm method path_and_query
                 body (dec (nat t div 10 ^ 9)) (new_request_nonce L random)))"

definition verify_ed25519 :: "'z lib_scheme \<Rightarrow> bytes \<Rightarrow> bytes \<Rightarrow> bytes \<Rightarrow> bool res" where
  "verify_ed25519 L message sig key =
     (if length sig \<noteq> 64 then Inr False
      else if length key \<noteq> 32 then Inr False
      else
        rbind (map_err (\<lambda>_. crypto_error ''Invalid Ed25519 public key'') (ed25519_key L key)) (\<lambda>_.
        Inr (ed25519_verify L key sig message)))"

definition secp256k1_any_signature :: "'z lib_scheme \<Rightarrow> bytes \<Rightarrow> bytes res" where
  "secp256k1_any_signature L sig =
     (case secp256k1_signature L sig of
        Inr _ \<Rightarrow> Inr sig
      | Inl _ \<Rightarrow> map_err from_secp256k1_error (secp256k1_from_der L sig))"

definition verify_secp256k1 :: "'z lib_scheme \<Rightarrow> str \<Rightarrow> bytes \<Rightarrow> bytes \<Rightarrow> bool res" where
  "verify_secp256k1 L message sig key =
     rbind (secp256k1_compressed L key) (\<lambda>c.
     rbind (map_err from_secp256k1_error (secp256k1_key L c)) (\<lambda>_.
     rbind (message_digest L message) (\<lambda>h.
     rbind (secp256k1_any_signature L sig) (\<lambda>s.
     Inr (secp256k1_verify L c s h)))))"

definition verify_signature ::
  "'z lib_scheme \<Rightarrow> str \<Rightarrow> str \<Rightarrow> str \<Rightarrow> signature_algorithm \<Rightarrow> bool res" where
  "verify_signature L message signature_hex public_key_hex algorithm =
     rbind (map_err from_hex_error (hex_decode L (trim_start_0x signature_hex))) (\<lambda>sig.
     rbind (map_err from_hex_error (hex_decode L (trim_start_0x public_key_hex))) (\<lambda>key.
     case algorithm of
       Ed25519_alg \<Rightarrow> verify_ed25519 L (str_bytes message) sig key
     | Secp256k1_alg \<Rightarrow> verify_secp256k1 L message sig key))"

definition detect_algorithm_from_did :: "str \<Rightarrow> signature_algorithm" where
  "detect_algorithm_from_did did =
     (if contains did ''ed25519'' then Ed25519_alg
      else if contains did ''secp256k1'' then Secp256k1_alg
      else Ed25519_alg)"

section \<open>What is signed verifies\<close>

definition public_key_of :: "'z lib_scheme \<Rightarrow> signature_algorithm \<Rightarrow> bytes \<Rightarrow> bytes" where
  "public_key_of L algorithm k =
     (case algorithm of Ed25519_alg \<Rightarrow> ed25519_public L k | Secp256k1_alg \<Rightarrow> secp256k1_public L k)"

definition crypto_ok :: "'z lib_scheme \<Rightarrow> bool" where
  "crypto_ok L \<longleftrightarrow>
     (\<forall>k m. length k = 32 \<longrightarrow>
        length (ed25519_public L k) = 32 \<and> ed25519_key L (ed25519_public L k) = Inr ()
        \<and> length (ed25519_sign L k m) = 64
        \<and> ed25519_verify L (ed25519_public L k) (ed25519_sign L k m) m)
     \<and> (\<forall>b. length (keccak256 L b) = 32)
     \<and> (\<forall>k h. secp256k1_secret L k = Inr () \<longrightarrow>
        length (secp256k1_public L k) = 33 \<and> secp256k1_key L (secp256k1_public L k) = Inr ()
        \<and> secp256k1_serialize L (secp256k1_public L k) = secp256k1_public L k
        \<and> secp256k1_signature L (secp256k1_sign L k h) = Inr ()
        \<and> secp256k1_verify L (secp256k1_public L k) (secp256k1_sign L k h) h)"

lemma trim_hex: "list_all is_hex_char s \<Longrightarrow> trim_start_0x s = s"
proof -
  assume "list_all is_hex_char s"
  then have "\<not> prefix ''0x'' s" by (auto simp: prefix_def is_hex_char_def)
  then show ?thesis by (subst trim_start_0x.simps) simp
qed

lemma trim_0x_hex: "list_all is_hex_char s \<Longrightarrow> trim_start_0x (''0x'' @ s) = s"
  by (subst trim_start_0x.simps) (simp add: trim_hex)

lemma hex_round_trip: "hex_ok L \<Longrightarrow> hex_decode L (trim_start_0x (hex_encode L b)) = Inr b
    \<and> hex_decode L (trim_start_0x (''0x'' @ hex_encode L b)) = Inr b"
  by (simp add: hex_ok_def trim_hex trim_0x_hex del: append_Cons)


lemma message_digest_ok: "crypto_ok L \<Longrightarrow> message_digest L m = Inr (keccak256 L (str_bytes m))"
  by (simp add: message_digest_def crypto_ok_def Let_def)

lemma sign_challenge_hex:
  "hex_ok L \<Longrightarrow> sign_challenge L m (hex_encode L k) algorithm = Inr s \<longleftrightarrow>
     (case algorithm of
        Ed25519_alg \<Rightarrow> length k = 32 \<and> s = hex_encode L (ed25519_sign L k (str_bytes m))
      | Secp256k1_alg \<Rightarrow> secp256k1_secret L k = Inr ()
          \<and> (\<exists>h. message_digest L m = Inr h \<and> s = hex_encode L (secp256k1_sign L k h)))"
  by (cases algorithm) (auto simp: sign_challenge_def hex_ok_def rbind_Inr_iff map_err_Inr_iff)

lemma verify_signature_hex:
  assumes "hex_ok L" "s = hex_encode L sig \<or> s = ''0x'' @ hex_encode L sig"
  shows "verify_signature L m s (hex_encode L key) algorithm =
    (case algorithm of
       Ed25519_alg \<Rightarrow> verify_ed25519 L (str_bytes m) sig key
     | Secp256k1_alg \<Rightarrow> verify_secp256k1 L m sig key)"
proof -
  have "hex_decode L (trim_start_0x s) = Inr sig"
    using assms(2) hex_round_trip [OF assms(1), of sig] by blast
  then show ?thesis
    using hex_round_trip [OF assms(1), of key] by (simp add: verify_signature_def)
qed

lemma signature_verifies:
  assumes "hex_ok L" "crypto_ok L" "sign_challenge L m (hex_encode L k) algorithm = Inr s"
  obtains sig where "s = hex_encode L sig"
    "(case algorithm of
       Ed25519_alg \<Rightarrow> verify_ed25519 L (str_bytes m) sig (public_key_of L algorithm k)
     | Secp256k1_alg \<Rightarrow> verify_secp256k1 L m sig (public_key_of L algorithm k)) = Inr True"
proof (cases algorithm)
  case Ed25519_alg
  then have "length k = 32" "s = hex_encode L (ed25519_sign L k (str_bytes m))"
    using assms(3) by (simp_all add: sign_challenge_hex [OF assms(1)])
  moreover from this(1) have
    "length (ed25519_public L k) = 32" "ed25519_key L (ed25519_public L k) = Inr ()"
    "length (ed25519_sign L k (str_bytes m)) = 64"
    "ed25519_verify L (ed25519_public L k) (ed25519_sign L k (str_bytes m)) (str_bytes m)"
    using assms(2) unfolding crypto_ok_def by blast+
  ultimately show thesis using Ed25519_alg
    by (intro that [of "ed25519_sign L k (str_bytes m)"])
      (simp_all add: verify_ed25519_def public_key_of_def)
next
  case Secp256k1_alg
  let ?h = "keccak256 L (str_bytes m)"
  have d: "message_digest L m = Inr ?h" using assms(2) by (rule message_digest_ok)
  have sec: "secp256k1_secret L k = Inr ()" and s: "s = hex_encode L (secp256k1_sign L k ?h)"
    using assms(3) d by (simp_all add: sign_challenge_hex [OF assms(1)] Secp256k1_alg)
  from sec have
    "length (secp256k1_public L k) = 33" "secp256k1_key L (secp256k1_public L k) = Inr ()"
    "secp256k1_serialize L (secp256k1_public L k) = secp256k1_public L k"
    "secp256k1_signature L (secp256k1_sign L k ?h) = Inr ()"
    "secp256k1_verify L (secp256k1_public L k) (secp256k1_sign L k ?h) ?h"
    using assms(2) unfolding crypto_ok_def by blast+
  then show thesis using Secp256k1_alg s d
    by (intro that [of "secp256k1_sign L k ?h"])
      (simp_all add: verify_secp256k1_def public_key_of_def secp256k1_compressed_def
        secp256k1_parse_def secp256k1_any_signature_def)
qed

lemma sign_verify:
  assumes "hex_ok L" "crypto_ok L" "sign_challenge L m (hex_encode L k) algorithm = Inr s"
    "r = s \<or> r = ''0x'' @ s"
  shows "verify_signature L m r (hex_encode L (public_key_of L algorithm k)) algorithm = Inr True"
proof -
  obtain sig where sig: "s = hex_encode L sig"
    "(case algorithm of
       Ed25519_alg \<Rightarrow> verify_ed25519 L (str_bytes m) sig (public_key_of L algorithm k)
     | Secp256k1_alg \<Rightarrow> verify_secp256k1 L m sig (public_key_of L algorithm k)) = Inr True"
    by (rule signature_verifies [OF assms(1-3)])
  have "r = hex_encode L sig \<or> r = ''0x'' @ hex_encode L sig" using assms(4) sig(1) by blast
  then show ?thesis using verify_signature_hex [OF assms(1)] sig(2) by metis
qed

text \<open>C29: What is signed verifies: the signature \<open>sign_challenge\<close> makes, and the form of it a signed
  request carries, is accepted by \<open>verify_signature\<close> under the public key of the signing key, in both
  algorithms.\<close>

theorem sign_verify_roundtrip:
  assumes "hex_ok L" "crypto_ok L" "sign_challenge L m (hex_encode L k) algorithm = Inr s"
  shows "verify_signature L m s (hex_encode L (public_key_of L algorithm k)) algorithm = Inr True
    \<and> (\<exists>r. sign_request_message L m (hex_encode L k) algorithm = Inr r
         \<and> verify_signature L m r (hex_encode L (public_key_of L algorithm k)) algorithm = Inr True)"
proof -
  let ?r = "case algorithm of Secp256k1_alg \<Rightarrow> ''0x'' @ s | Ed25519_alg \<Rightarrow> s"
  have "sign_request_message L m (hex_encode L k) algorithm = Inr ?r"
    using assms(3) by (simp add: sign_request_message_def)
  moreover have "?r = s \<or> ?r = ''0x'' @ s"
    by (cases algorithm) simp_all
  ultimately show ?thesis using sign_verify [OF assms] by blast
qed


section \<open>Witnesses\<close>

lemma sample_crypto: "crypto_ok sample_lib"
  by (auto simp: crypto_ok_def sample_lib_def min_def)

theorem sign_verify_roundtrip_witness:
  "verify_signature sample_lib ''hi'' (hex_text (str_bytes ''hi'' @ replicate 62 0))
     (hex_text (replicate 32 3)) Ed25519_alg = Inr True"
proof -
  have pub: "public_key_of sample_lib Ed25519_alg (replicate 32 3) = replicate 32 3"
    by (simp add: public_key_of_def sample_lib_def)
  have enc: "hex_encode sample_lib = hex_text" by (simp add: sample_lib_def)
  have "ed25519_sign sample_lib (replicate 32 3) (str_bytes ''hi'') = str_bytes ''hi'' @ replicate 62 0"
    by (simp add: sample_lib_def)
  then have "sign_challenge sample_lib ''hi'' (hex_encode sample_lib (replicate 32 3)) Ed25519_alg
      = Inr (hex_text (str_bytes ''hi'' @ replicate 62 0))"
    by (simp only: sign_challenge_hex [OF hex_ok_sample]) (simp add: enc)
  from sign_verify_roundtrip [OF hex_ok_sample sample_crypto this]
  show ?thesis by (simp only: pub enc simp_thms)
qed


end
