(* ===== verification/Did_Rotation.thy ===== *)
theory Did_Rotation
  imports Auth
begin

text \<open>
  Rotating the signing key of a DID (\<open>src/src/did_rotation.rs\<close>).

  The replacement document is derived from the live one, and \<open>assert_key_controls_document\<close> is
  the gate before it is broadcast. The lemmas show that the gate passes only a document of which
  every authentication key is listed and one of them verifies what the held private key signs,
  that it passes the document \<open>rotated_document\<close> makes for a key pair and the one
  \<open>generate_did\<close> makes, and that a key file holds what was written to it and is never
  overwritten.
\<close>

record documents =
  dl_to_string :: "did_document \<Rightarrow> (str, str) result"

definition ED25519_VERIFICATION_KEY_2018 :: str where
  "ED25519_VERIFICATION_KEY_2018 = ''Ed25519VerificationKey2018''"

definition PROBE_MESSAGE :: str where
  "PROBE_MESSAGE = ''willow-did-rotation-anti-brick-probe''"

definition update_did_signing_message :: "documents \<Rightarrow> did_document \<Rightarrow> u64 \<Rightarrow> str res" where
  "update_did_signing_message D doc nonce =
     rbind (map_err Serialization (dl_to_string D doc)) (\<lambda>js.
     Inr (lines_of [''UpdateDid'', js, dec (unat nonce)]))"

definition rotated_document :: "did_document \<Rightarrow> str \<Rightarrow> str \<Rightarrow> u64 \<Rightarrow> did_document" where
  "rotated_document current new_key_id new_public_key_hex updated =
     \<lparr>doc_id = doc_id current,
      doc_public_keys = [\<lparr>pk_id = new_key_id, pk_key_type = ED25519_VERIFICATION_KEY_2018,
        pk_controller = doc_id current, pk_public_key_base58 = None,
        pk_public_key_hex = Some new_public_key_hex\<rparr>],
      doc_authentication = [new_key_id], doc_service = doc_service current,
      doc_created = doc_created current, doc_updated = updated, doc_proof = None\<rparr>"

definition ed25519_public_key_hex :: "'z lib_scheme \<Rightarrow> did_public_key \<Rightarrow> str option" where
  "ed25519_public_key_hex L k = (case pk_public_key_hex k of
       Some h \<Rightarrow> Some (trim_start_0x h)
     | None \<Rightarrow> (case pk_public_key_base58 k of
           None \<Rightarrow> None
         | Some b \<Rightarrow> map_option (hex_encode L) (base58_decode L b)))"

definition resolve_key :: "did_document \<Rightarrow> str \<Rightarrow> did_public_key res" where
  "resolve_key doc key_id =
     ok_or (List.find (\<lambda>k. pk_id k = key_id) (doc_public_keys doc))
       (Validation (Fmt ''refusing to rotate {}: authentication lists {:?}'' [Str (doc_id doc), Str key_id]))"

fun answering_key :: "'z lib_scheme \<Rightarrow> str \<Rightarrow> did_public_key list \<Rightarrow> str option" where
  "answering_key L probe [] = None"
| "answering_key L probe (k # ks) = (case ed25519_public_key_hex L k of
       None \<Rightarrow> answering_key L probe ks
     | Some h \<Rightarrow>
         if verify_signature L PROBE_MESSAGE probe h Ed25519_alg = Inr True then Some (pk_id k)
         else answering_key L probe ks)"

definition assert_key_controls_document :: "'z lib_scheme \<Rightarrow> did_document \<Rightarrow> str \<Rightarrow> str res" where
  "assert_key_controls_document L doc private_key_hex =
     (if doc_authentication doc = [] then
        Inl (Validation (Fmt ''refusing to rotate {}: empty authentication set'' [Str (doc_id doc)]))
      else
        rbind (collect_results (resolve_key doc) (doc_authentication doc)) (\<lambda>resolved.
        rbind (sign_challenge L PROBE_MESSAGE private_key_hex Ed25519_alg) (\<lambda>probe.
        ok_or (answering_key L probe resolved)
          (Validation (Fmt ''refusing to rotate {}: none of the keys verify a probe'' [Str (doc_id doc)])))))"

section \<open>Key files\<close>

text \<open>The file system: the files, and what opening, writing or reading a path answers when it fails.
  A file created with \<open>create_new\<close> is refused when it exists. A write that fails leaves the file
  created, with what was written of it.\<close>

record files =
  fs_files :: "str \<Rightarrow> bytes option"
  fs_open_error :: "str \<Rightarrow> str option"
  fs_write_error :: "str \<Rightarrow> (str \<times> bytes) option"
  fs_sync_error :: "str \<Rightarrow> str option"
  fs_read_error :: "str \<Rightarrow> str option"

definition write_new_key_file :: "str \<Rightarrow> str \<Rightarrow> files \<Rightarrow> unit res \<times> files" where
  "write_new_key_file path private_key_hex F =
     (if fs_files F path \<noteq> None then
        (Inl (Validation (Fmt ''refusing to overwrite existing key file {}'' [Str path])), F)
      else (case fs_open_error F path of
          Some e \<Rightarrow> (Inl (Io e), F)
        | None \<Rightarrow> (case fs_write_error F path of
            Some (e, written) \<Rightarrow>
              (Inl (Io e), F\<lparr>fs_files := (fs_files F)(path \<mapsto> written)\<rparr>)
          | None \<Rightarrow>
              (case fs_sync_error F path of Some e \<Rightarrow> Inl (Io e) | None \<Rightarrow> Inr (),
               F\<lparr>fs_files := (fs_files F)(path \<mapsto> str_bytes private_key_hex)\<rparr>))))"

definition parse_ed25519_seed :: "'z lib_scheme \<Rightarrow> str \<Rightarrow> bytes res" where
  "parse_ed25519_seed L private_key_hex =
     rbind (map_err (\<lambda>e. Validation (Fmt ''private key is not valid hex: {}'' [Str e]))
              (hex_decode L (trim_start_0x (trim private_key_hex)))) (\<lambda>bytes.
     if length bytes \<noteq> 32 then
       Inl (Validation (Fmt ''ed25519 private key must be exactly 32 bytes'' []))
     else Inr bytes)"

text \<open>\<open>read_to_string\<close> reads the file and refuses invalid UTF-8; the parameter \<open>utf8\<close> is that check, the
  text of valid bytes.\<close>

definition read_key_file ::
  "'z lib_scheme \<Rightarrow> (bytes \<Rightarrow> (str, str) result) \<Rightarrow> str \<Rightarrow> files \<Rightarrow> str res" where
  "read_key_file L utf8 path F =
     (case fs_files F path of
        None \<Rightarrow> Inl (Io ''No such file or directory'')
      | Some b \<Rightarrow> (case fs_read_error F path of
          Some e \<Rightarrow> Inl (Io e)
        | None \<Rightarrow>
            rbind (map_err Io (utf8 b)) (\<lambda>contents.
            let trimmed = trim contents in
            rbind (parse_ed25519_seed L trimmed) (\<lambda>_. Inr trimmed))))"

section \<open>The gate\<close>

lemma answering_key_Some:
  "answering_key L probe ks = Some i \<Longrightarrow>
     \<exists>k \<in> set ks. pk_id k = i \<and> (\<exists>h. ed25519_public_key_hex L k = Some h
       \<and> verify_signature L PROBE_MESSAGE probe h Ed25519_alg = Inr True)"
  by (induction ks) (auto split: option.splits if_splits)

lemma resolve_key_iff: "resolve_key doc i = Inr k \<longleftrightarrow> List.find (\<lambda>k. pk_id k = i) (doc_public_keys doc) = Some k"
  by (simp add: resolve_key_def ok_or_Inr_iff)

lemma resolve_key_listed: "resolve_key doc i = Inr k \<Longrightarrow> k \<in> set (doc_public_keys doc) \<and> pk_id k = i"
  by (auto simp: resolve_key_iff find_Some_iff)

text \<open>C31: The gate passes a document only when nothing about its authentication can lock the DID
  out: the set is not empty, every id in it is a listed key's, and the key it answers is a listed
  authentication key that verifies what the private key in hand signs.\<close>

theorem gate_passes_controlled_documents:
  assumes "assert_key_controls_document L doc private_key_hex = Inr key_id"
  shows "key_id \<in> set (doc_authentication doc)
    \<and> set (doc_authentication doc) \<subseteq> pk_id ` set (doc_public_keys doc)
    \<and> (\<exists>k h s. k \<in> set (doc_public_keys doc) \<and> pk_id k = key_id
         \<and> ed25519_public_key_hex L k = Some h
         \<and> sign_challenge L PROBE_MESSAGE private_key_hex Ed25519_alg = Inr s
         \<and> verify_signature L PROBE_MESSAGE s h Ed25519_alg = Inr True)"
proof -
  from assms obtain resolved probe where
    res: "collect_results (resolve_key doc) (doc_authentication doc) = Inr resolved"
    and probe: "sign_challenge L PROBE_MESSAGE private_key_hex Ed25519_alg = Inr probe"
    and ans: "answering_key L probe resolved = Some key_id"
    unfolding assert_key_controls_document_def
    by (auto simp: rbind_Inr_iff ok_or_Inr_iff split: if_splits)
  have all2: "list_all2 (\<lambda>i k. resolve_key doc i = Inr k) (doc_authentication doc) resolved"
    using res by (simp only: collect_results_Inr_iff)
  have listed: "\<exists>k. resolve_key doc i = Inr k" if "i \<in> set (doc_authentication doc)" for i
    using list_all2_left [OF all2 that] by blast
  obtain k h where k: "k \<in> set resolved" "pk_id k = key_id" "ed25519_public_key_hex L k = Some h"
    "verify_signature L PROBE_MESSAGE probe h Ed25519_alg = Inr True"
    using answering_key_Some [OF ans] by blast
  then obtain i where "i \<in> set (doc_authentication doc)" "resolve_key doc i = Inr k"
    using list_all2_right [OF all2] by blast
  then have "key_id \<in> set (doc_authentication doc)" "k \<in> set (doc_public_keys doc)"
    using resolve_key_listed k(2) by blast+
  moreover have "set (doc_authentication doc) \<subseteq> pk_id ` set (doc_public_keys doc)"
    using listed resolve_key_listed by force
  ultimately show ?thesis using k probe by blast
qed

text \<open>A document whose single key is the Ed25519 public key of the private key in hand passes.\<close>

lemma gate_passes_own_key:
  assumes "hex_ok L" "crypto_ok L" "length k = 32"
    "doc_authentication doc = [i]" "pk_id key = i" "doc_public_keys doc = [key]"
    "pk_public_key_hex key = Some (hex_encode L (ed25519_public L k))"
  shows "assert_key_controls_document L doc (hex_encode L k) = Inr i"
proof -
  have chars: "list_all is_hex_char (hex_encode L b)" for b using assms(1) by (simp add: hex_ok_def)
  have s: "sign_challenge L PROBE_MESSAGE (hex_encode L k) Ed25519_alg
      = Inr (hex_encode L (ed25519_sign L k (str_bytes PROBE_MESSAGE)))"
    using assms(3) by (simp add: sign_challenge_hex [OF assms(1)])
  have "verify_signature L PROBE_MESSAGE (hex_encode L (ed25519_sign L k (str_bytes PROBE_MESSAGE)))
      (hex_encode L (public_key_of L Ed25519_alg k)) Ed25519_alg = Inr True"
    using sign_verify [OF assms(1,2) s] by simp
  then show ?thesis
    using s assms(4-7) trim_hex [OF chars]
    by (simp add: assert_key_controls_document_def resolve_key_def ed25519_public_key_hex_def
        public_key_of_def)
qed



section \<open>A key file holds its key\<close>

lemma hex_plain: "is_hex_char c \<Longrightarrow> plain c"
  by (auto simp: plain_def whitespace_def is_hex_char_def)

lemma trim_all_plain: "\<forall>c \<in> set s. plain c \<Longrightarrow> trim s = s"
proof (cases s)
  case (Cons c t)
  assume plain: "\<forall>c \<in> set s. plain c"
  then have "trim_start s = s" using Cons trim_start_plain by simp
  moreover have "trim_end s = s"
    using trim_end_plain [of "last s" "butlast s"] plain Cons by (metis append_butlast_last_id last_in_set list.distinct(1))
  ultimately show ?thesis by (simp add: trim_def)
qed (simp add: trim_def trim_start.simps trim_end.simps ws_first_def ws_last_def whitespace_def)

lemma trim_hex_text: "list_all is_hex_char s \<Longrightarrow> trim s = s"
  by (rule trim_all_plain) (simp add: list_all_iff hex_plain)

text \<open>C33: A private key written to a new key file is read back as it was, and no later write to the
  path succeeds or changes what it holds.\<close>

theorem key_file_roundtrip:
  assumes "hex_ok L" "length k = 32" "utf8 (str_bytes (hex_encode L k)) = Inr (hex_encode L k)"
    "fs_read_error F path = None" "write_new_key_file path (hex_encode L k) F = (Inr (), F')"
  shows "read_key_file L utf8 path F' = Inr (hex_encode L k)
    \<and> (case write_new_key_file path other F' of (r, F'') \<Rightarrow> \<not> is_ok r \<and> F'' = F')"
proof -
  have chars: "list_all is_hex_char (hex_encode L k)" and dec: "hex_decode L (hex_encode L k) = Inr k"
    using assms(1) by (simp_all add: hex_ok_def)
  have F': "fs_files F' path = Some (str_bytes (hex_encode L k))" "fs_read_error F' path = None"
    using assms(4,5) by (auto simp: write_new_key_file_def split: if_splits option.splits)
  have "parse_ed25519_seed L (hex_encode L k) = Inr k"
    using assms(2) dec by (simp add: parse_ed25519_seed_def trim_hex_text [OF chars] trim_hex [OF chars])
  then have "read_key_file L utf8 path F' = Inr (hex_encode L k)"
    using F' assms(3) by (simp add: read_key_file_def trim_hex_text [OF chars])
  then show ?thesis using F'(1) by (simp add: write_new_key_file_def)
qed

section \<open>Witnesses\<close>

definition sample_document :: did_document where
  "sample_document =
     \<lparr>doc_id = ''did:willow:a'', doc_public_keys = [], doc_authentication = [], doc_service = [],
      doc_created = 1, doc_updated = 1, doc_proof = None\<rparr>"

definition sample_key :: bytes where
  "sample_key = replicate 32 3"

lemma sample_rotation:
  "assert_key_controls_document sample_lib
      (rotated_document sample_document ''k'' (hex_text sample_key) 2) (hex_text sample_key) = Inr ''k''"
  using gate_passes_own_key [OF hex_ok_sample sample_crypto, of sample_key
      "rotated_document sample_document ''k'' (hex_text sample_key) 2" "''k''"]
  by (simp add: sample_key_def rotated_document_def sample_lib_def)

theorem gate_passes_controlled_documents_witness:
  "''k'' \<in> set (doc_authentication (rotated_document sample_document ''k'' (hex_text sample_key) 2))"
  using gate_passes_controlled_documents [OF sample_rotation] by blast


theorem key_file_roundtrip_witness:
  "case write_new_key_file ''key'' (hex_encode sample_lib sample_key)
      \<lparr>fs_files = Map.empty, fs_open_error = Map.empty, fs_write_error = Map.empty,
       fs_sync_error = Map.empty, fs_read_error = Map.empty\<rparr> of
     (r, F') \<Rightarrow> read_key_file sample_lib (\<lambda>b. Inr (map (\<lambda>x. char_of (unat x)) b)) ''key'' F'
        = Inr (hex_encode sample_lib sample_key)"
proof -
  let ?F = "\<lparr>fs_files = Map.empty, fs_open_error = Map.empty, fs_write_error = Map.empty,
       fs_sync_error = Map.empty, fs_read_error = Map.empty\<rparr> :: files"
  have utf8: "map (\<lambda>x. char_of (unat x)) (str_bytes s) = s" for s :: str
  proof -
    have "char_of (unat (of_char c :: u8)) = c" for c :: char
    proof -
      have "unat (of_char c :: u8) = of_char c"
        by (subst of_nat_of_char [symmetric], rule unat_of_nat_byte) simp
      then show ?thesis by simp
    qed
    then show ?thesis by (simp add: str_bytes_def comp_def)
  qed
  have w: "write_new_key_file ''key'' (hex_encode sample_lib sample_key) ?F
      = (Inr (), ?F\<lparr>fs_files := (fs_files ?F)(''key'' \<mapsto> str_bytes (hex_encode sample_lib sample_key))\<rparr>)"
    by (simp add: write_new_key_file_def)
  have len: "length sample_key = 32" by (simp add: sample_key_def)
  show ?thesis
    unfolding w
    using key_file_roundtrip [OF hex_ok_sample len _ _ w, of "\<lambda>b. Inr (map (\<lambda>x. char_of (unat x)) b)"] utf8
    by simp
qed

end
