(* ===== verification/Consensus.thy ===== *)
theory Consensus
  imports Nonces Light_Client Did_Rotation
begin

text \<open>
  The consensus client (\<open>src/src/consensus.rs\<close>): signing a transaction under a nonce, sending it
  to CometBFT, and settling the nonce by the answer.

  The state is the client's: the network and the clock, the light client's headers, and the nonce
  tracker, which is shared by every clone of a client. An operation is an \<open>io\<close> on it.
  \<open>chain_lib\<close> extends the third-party functions by the encodings of the chain's types
  (\<open>serde\<close> and \<open>bincode\<close> code is generated at build time) and their texts.

  The lemmas show how each answer of CometBFT is read, that a nonce stays taken for 120 s
  whenever the write under it may still land and is given back only when nothing was
  admitted, that no submission frees another write's nonce, and that a rebroadcast never gives a
  nonce back unless the node refuses the transaction itself.
\<close>

section \<open>The client\<close>

record con_world = lc_world +
  con_tracker :: tracker

record consensus_client =
  consensus_rpc_url :: str
  consensus_api_url :: "str option"

record did_tx =
  dt_did_document :: did_document
  dt_signature :: bytes
  dt_public_key_id :: str
  dt_nonce :: u64

record claim_subgrove_indexing_tx =
  ci_subgrove_id :: str
  ci_indexer_did :: str
  ci_signature :: bytes
  ci_public_key_id :: str
  ci_nonce :: u64

record transfer_tx =
  tr_from_did :: str
  tr_to_did :: str
  tr_amount :: nat
  tr_memo :: "str option"
  tr_signature :: bytes
  tr_public_key_id :: str
  tr_nonce :: u64

record fund_subgrove_tx =
  fu_subgrove_id :: str
  fu_amount :: nat
  fu_from_did :: str
  fu_signature :: bytes
  fu_public_key_id :: str
  fu_nonce :: u64

record deregister_subgrove_tx =
  de_subgrove_id :: str
  de_owner_did :: str
  de_signature :: bytes
  de_public_key_id :: str
  de_nonce :: u64

text \<open>The chain's transactions the SDK builds; \<open>OtherTransaction\<close> is any other one a caller's JSON
  decodes to.\<close>

datatype chain_transaction =
    RegisterDid did_tx
  | UpdateDid did_tx
  | ClaimSubgroveIndexing claim_subgrove_indexing_tx
  | Transfer transfer_tx
  | RegisterSubgrove register_subgrove_tx
  | StoreData store_data_tx
  | DeleteData delete_data_tx
  | FundSubgrove fund_subgrove_tx
  | DeregisterSubgrove deregister_subgrove_tx
  | StoreFileManifest store_file_manifest_tx
  | DeleteFileManifest delete_file_manifest_tx
  | UnregisterStorageNode unregister_storage_node_tx
  | GrantSubgroveKey grant_subgrove_key_tx
  | RevokeSubgroveKey revoke_subgrove_key_tx
  | RotateSubgroveKey rotate_subgrove_key_tx
  | OtherTransaction bytes

record events_commitment_anchor =
  ea_subgrove_id :: str
  ea_block_number :: u64
  ea_events_commitment :: str

record tx_outcome =
  to_height :: int
  to_code :: u32
  to_log :: str

record broadcast_result =
  br_code :: u32
  br_data :: str
  br_log :: str
  br_hash :: str

record comet_bft_error =
  ce_code :: int
  ce_message :: str
  ce_data :: "str option"

record comet_bft_response =
  cr_jsonrpc :: str
  cr_id :: u32
  cr_result :: "broadcast_result option"
  cr_error :: "comet_bft_error option"

text \<open>What CometBFT answered a \<open>broadcast_tx_sync\<close>.\<close>

datatype submission = Sub_Accepted str | Sub_Refused u32 str | Sub_Unknown willow_error

record chain_lib = node +
  cl_documents :: documents
  cl_document_from_slice :: "bytes \<Rightarrow> (str, did_document) result"
  cl_document_from_value :: "jvalue \<Rightarrow> (str, did_document) result"
  cl_comet_response :: "str \<Rightarrow> (str, comet_bft_response) result"
  cl_anchor :: "bytes \<Rightarrow> (str, events_commitment_anchor) result"
  cl_did_tx_to_string :: "did_tx \<Rightarrow> (str, str) result"
  cl_transaction_from_str :: "str \<Rightarrow> (str, chain_transaction) result"
  cl_bincode :: "chain_transaction \<Rightarrow> (str, bytes) result"

section \<open>Text\<close>

definition to_ascii_lower :: "char \<Rightarrow> char" where
  "to_ascii_lower c = (let n = of_char c :: nat in if 65 \<le> n \<and> n \<le> 90 then char_of (n + 32) else c)"

definition to_ascii_upper :: "char \<Rightarrow> char" where
  "to_ascii_upper c = (let n = of_char c :: nat in if 97 \<le> n \<and> n \<le> 122 then char_of (n - 32) else c)"

definition hex_encode_upper :: "'z lib_scheme \<Rightarrow> bytes \<Rightarrow> str" where
  "hex_encode_upper L b = map to_ascii_upper (hex_encode L b)"

definition tx_hash_of :: "'z lib_scheme \<Rightarrow> bytes \<Rightarrow> str" where
  "tx_hash_of L tx_bytes = hex_encode_upper L (sha256 L tx_bytes)"

section \<open>Reading chain state\<close>

definition rpc_call :: "str \<Rightarrow> (str \<times> jvalue) list \<Rightarrow> jvalue" where
  "rpc_call rpc_method params =
     JObject [(''jsonrpc'', JString ''2.0''), (''id'', JNumber ''1''), (''method'', JString rpc_method),
       (''params'', JObject params)]"

definition abci_query_body :: "str \<Rightarrow> jvalue" where
  "abci_query_body path =
     rpc_call ''abci_query'' [(''path'', JString path), (''data'', JString []), (''height'', JString ''0''),
       (''prove'', JBool False)]"

definition zero_or_u64 :: "jvalue option \<Rightarrow> u64" where
  "zero_or_u64 v = (case v of None \<Rightarrow> 0 | Some x \<Rightarrow> (case as_u64 x of None \<Rightarrow> 0 | Some n \<Rightarrow> n))"

definition abci_error :: "str \<Rightarrow> arg \<Rightarrow> willow_error" where
  "abci_error path e = Network (Fmt ''abci_query {path}: {e}'' [Str path, e])"

definition abci_value :: "'z chain_lib_scheme \<Rightarrow> str \<Rightarrow> jvalue \<Rightarrow> bytes option res" where
  "abci_value L path resp =
     (case (case jget resp ''result'' of None \<Rightarrow> None | Some r \<Rightarrow> jget r ''response'') of
        None \<Rightarrow> Inl (Network (Fmt ''abci_query {path}: no response'' [Str path]))
      | Some response \<Rightarrow>
          if zero_or_u64 (Some (jindex response ''code'')) \<noteq> 0 then Inr None
          else map_err (\<lambda>e. Network (Fmt ''abci_query {path}: value: {e}'' [Str path, Str e]))
                 (rbind (base64_decode L (str_or_empty (jindex response ''value''))) (\<lambda>b. Inr (Some b))))"

definition abci_query_value ::
  "'z chain_lib_scheme \<Rightarrow> consensus_client \<Rightarrow> str \<Rightarrow> ('w world_scheme, bytes option res) io" where
  "abci_query_value L C path = (\<lambda>s.
     case send (Post (consensus_rpc_url C) [] (abci_query_body path)) s of
       (Inl e, s) \<Rightarrow> (Inl (abci_error path (Str (rq_text e))), s)
     | (Inr resp, s) \<Rightarrow>
         (rbind (map_err (\<lambda>e. abci_error path (Shown e)) (json (json_from_slice L) resp SMALL))
            (abci_value L path), s))"

definition base_nonce_from_api ::
  "'z chain_lib_scheme \<Rightarrow> str \<Rightarrow> str \<Rightarrow> ('w world_scheme, u64 res) io" where
  "base_nonce_from_api L api_url did = (\<lambda>s.
     case send (Get (base_url api_url @ ''/account/'' @ did @ ''/nonce'') []) s of
       (Inl e, s) \<Rightarrow> (Inl (Network (Fmt ''Failed to fetch nonce: {}'' [Str (rq_text e)])), s)
     | (Inr resp, s) \<Rightarrow>
         (rbind (map_err (\<lambda>e. Network (Fmt ''Failed to parse nonce response: {}'' [Shown e]))
                  (json (json_from_slice L) resp SMALL))
            (\<lambda>body. Inr (zero_or_u64
               (case jget body ''data'' of None \<Rightarrow> None | Some d \<Rightarrow> jget d ''nonce''))), s))"

definition base_nonce ::
  "'z chain_lib_scheme \<Rightarrow> consensus_client \<Rightarrow> str \<Rightarrow> ('w world_scheme, u64 res) io" where
  "base_nonce L C did = (case consensus_api_url C of
       Some api_url \<Rightarrow> base_nonce_from_api L api_url did
     | None \<Rightarrow>
         try_io (abci_query_value L C (''/store/account_nonce/'' @ did)) (\<lambda>v.
         let value = unwrap_or v [] in
         ret (rbind (from_bytes (take (min (length value) 8) value)) (\<lambda>st. Inr (ans_base st)))))"

definition state_of_answer :: "bytes option res \<Rightarrow> account_nonce_state option" where
  "state_of_answer r = (case r of
       Inr (Some value) \<Rightarrow> (case from_bytes value of Inr st \<Rightarrow> Some st | Inl _ \<Rightarrow> None)
     | _ \<Rightarrow> None)"

definition account_nonce_state ::
  "'z chain_lib_scheme \<Rightarrow> consensus_client \<Rightarrow> str \<Rightarrow> ('w world_scheme, account_nonce_state res) io" where
  "account_nonce_state L C did =
     bind_io (abci_query_value L C (''/store/account_nonce_state/'' @ did)) (\<lambda>r.
     case state_of_answer r of
       Some st \<Rightarrow> ret (Inr st)
     | None \<Rightarrow>
         try_io (base_nonce L C did) (\<lambda>b. ret (Inr \<lparr>ans_base = b, ans_used = 0\<rparr>)))"

definition check_anchor ::
  "'z chain_lib_scheme \<Rightarrow> str \<Rightarrow> u64 \<Rightarrow> bytes \<Rightarrow> bytes res" where
  "check_anchor L subgrove_id block_number b =
     rbind (map_err Serialization (cl_anchor L b)) (\<lambda>anchor.
     if ea_subgrove_id anchor \<noteq> subgrove_id \<or> ea_block_number anchor \<noteq> block_number then
       Inl (Validation (Fmt ''the events_commitment anchor answered for {subgrove_id} block {block_number}''
         [Str subgrove_id, Num (unat block_number), Str (ea_subgrove_id anchor),
          Num (unat (ea_block_number anchor))]))
     else
       rbind (map_err from_hex_error (hex_decode L (ea_events_commitment anchor))) (\<lambda>c.
       if length c \<noteq> 32 then
         Inl (Validation (Fmt ''events_commitment is {} bytes, expected 32'' [Num (length c)]))
       else Inr c))"

definition events_commitment ::
  "'z chain_lib_scheme \<Rightarrow> consensus_client \<Rightarrow> str \<Rightarrow> u64 \<Rightarrow> ('w world_scheme, bytes option res) io" where
  "events_commitment L C subgrove_id block_number =
     bind_io (abci_query_value L C
         (''/store/events_commitment/'' @ subgrove_id @ ''/'' @ dec (unat block_number))) (\<lambda>r.
     ret (case r of
         Inl e \<Rightarrow> Inl (Network (Fmt ''Failed to fetch events_commitment: {e}'' [Shown e]))
       | Inr None \<Rightarrow> Inr None
       | Inr (Some []) \<Rightarrow> Inr None
       | Inr (Some b) \<Rightarrow> rbind (check_anchor L subgrove_id block_number b) (\<lambda>c. Inr (Some c))))"

definition document_from_api ::
  "'z chain_lib_scheme \<Rightarrow> str \<Rightarrow> str \<Rightarrow> ('w world_scheme, did_document option) io" where
  "document_from_api L api_url did = (\<lambda>s.
     case send (Get (base_url api_url @ ''/did/'' @ did) []) s of
       (Inl _, s) \<Rightarrow> (None, s)
     | (Inr resp, s) \<Rightarrow>
         (case json (json_from_slice L) resp SMALL of
            Inl _ \<Rightarrow> None
          | Inr body \<Rightarrow> (case jget body ''data'' of
              None \<Rightarrow> None
            | Some d \<Rightarrow> (case cl_document_from_value L d of Inl _ \<Rightarrow> None | Inr doc \<Rightarrow> Some doc)), s))"

definition document_of_response :: "'z chain_lib_scheme \<Rightarrow> str \<Rightarrow> jvalue \<Rightarrow> did_document res" where
  "document_of_response L did resp =
     (let response = jpath resp [''result'', ''response''] in
      if zero_or_u64 (Some (jindex response ''code'')) \<noteq> 0 then
        Inl (NotFound (Fmt ''DID {}: {}'' [Str did, Str (unwrap_or (as_str (jindex response ''log'')) ''not found'')]))
      else if str_or_empty (jindex response ''value'') = [] then
        Inl (NotFound (Fmt ''DID {} has no document'' [Str did]))
      else
        rbind (map_err (\<lambda>e. Network (Fmt ''DID document base64 decode: {}'' [Str e]))
                (base64_decode L (str_or_empty (jindex response ''value'')))) (\<lambda>b.
        map_err Serialization (cl_document_from_slice L b)))"

definition did_document_via_rpc ::
  "'z chain_lib_scheme \<Rightarrow> consensus_client \<Rightarrow> str \<Rightarrow> ('w world_scheme, did_document res) io" where
  "did_document_via_rpc L C did = (\<lambda>s.
     case send (Post (consensus_rpc_url C) [] (abci_query_body (''/store/did/'' @ did))) s of
       (Inl e, s) \<Rightarrow> (Inl (Network (Fmt ''Failed to fetch DID document: {}'' [Str (rq_text e)])), s)
     | (Inr resp, s) \<Rightarrow>
         (rbind (map_err (\<lambda>e. Network (Fmt ''Failed to parse DID document response: {}'' [Shown e]))
                  (json (json_from_slice L) resp SMALL))
            (document_of_response L did), s))"

definition get_did_document ::
  "'z chain_lib_scheme \<Rightarrow> consensus_client \<Rightarrow> str \<Rightarrow> ('w world_scheme, did_document res) io" where
  "get_did_document L C did = (case consensus_api_url C of
       None \<Rightarrow> did_document_via_rpc L C did
     | Some api_url \<Rightarrow>
         bind_io (document_from_api L api_url did) (\<lambda>d.
         case d of Some doc \<Rightarrow> ret (Inr doc) | None \<Rightarrow> did_document_via_rpc L C did))"

section \<open>The nonce of a write\<close>

definition tracker_io :: "(tracker \<Rightarrow> instant \<Rightarrow> tracker) \<Rightarrow> ('z con_world_scheme, unit) io" where
  "tracker_io f = (\<lambda>s. ((), s\<lparr>con_tracker := f (con_tracker s) (w_now s)\<rparr>))"

definition release_io :: "str \<Rightarrow> u64 \<Rightarrow> ('z con_world_scheme, unit) io" where
  "release_io did nonce = tracker_io (\<lambda>T now. release T did nonce)"

definition hold_io :: "str \<Rightarrow> u64 \<Rightarrow> ('z con_world_scheme, unit) io" where
  "hold_io did nonce = tracker_io (\<lambda>T now. hold T now did nonce)"

definition settle_io :: "str \<Rightarrow> u64 \<Rightarrow> nonce_outcome \<Rightarrow> ('z con_world_scheme, unit) io" where
  "settle_io did nonce oc = tracker_io (\<lambda>T now. settle T now did nonce oc)"

definition take_io :: "str \<Rightarrow> account_nonce_state \<Rightarrow> ('z con_world_scheme, u64 res) io" where
  "take_io did st = (\<lambda>s. case take_nonce (con_tracker s) (w_now s) did st of
     (T, r) \<Rightarrow> (r, s\<lparr>con_tracker := T\<rparr>))"

definition get_next_nonce ::
  "'z chain_lib_scheme \<Rightarrow> consensus_client \<Rightarrow> str \<Rightarrow> ('w con_world_scheme, u64 res) io" where
  "get_next_nonce L C did =
     try_io (Consensus.account_nonce_state L C did) (\<lambda>st. take_io did st)"

section \<open>Sending a transaction\<close>

definition broadcast_request :: "'z chain_lib_scheme \<Rightarrow> consensus_client \<Rightarrow> bytes \<Rightarrow> request" where
  "broadcast_request L C tx_bytes =
     Post (consensus_rpc_url C) []
       (rpc_call ''broadcast_tx_sync'' [(''tx'', JString (base64_encode L tx_bytes))])"

definition ends_cached :: "str \<Rightarrow> bool" where
  "ends_cached t \<longleftrightarrow> suffix ''tx already exists in cache'' (trim_end t)"

definition mempool_refusal :: "str \<Rightarrow> bool" where
  "mempool_refusal t \<longleftrightarrow>
     (let l = map to_ascii_lower t in contains l ''mempool is full'' \<or> contains l ''tx too large'')"

definition read_rpc_error ::
  "'z chain_lib_scheme \<Rightarrow> bytes \<Rightarrow> comet_bft_error \<Rightarrow> submission res" where
  "read_rpc_error L tx_bytes error =
     (let detail = unwrap_or (ce_data error) [] in
      if ends_cached detail \<or> ends_cached (ce_message error) then
        Inr (Sub_Accepted (tx_hash_of L tx_bytes))
      else if mempool_refusal (ce_message error) \<or> mempool_refusal detail then
        Inl (NotAdmitted (Fmt ''CometBFT mempool refused it ({}): {}''
          [Str (dec_int (ce_code error)), Str (if detail = [] then ce_message error else detail)]))
      else
        Inr (Sub_Unknown (Custom (Fmt ''CometBFT error: {} ({}){}''
          [Str (ce_message error), Str (dec_int (ce_code error)),
           Str (case ce_data error of None \<Rightarrow> [] | Some d \<Rightarrow> '': '' @ d)]))))"

definition read_rpc_response ::
  "'z chain_lib_scheme \<Rightarrow> bytes \<Rightarrow> comet_bft_response \<Rightarrow> submission res" where
  "read_rpc_response L tx_bytes r = (case cr_error r of
       Some error \<Rightarrow> read_rpc_error L tx_bytes error
     | None \<Rightarrow> (case cr_result r of
         Some result \<Rightarrow>
           if br_code result \<noteq> 0 then Inr (Sub_Refused (br_code result) (br_log result))
           else Inr (Sub_Accepted (br_hash result))
       | None \<Rightarrow> Inr (Sub_Unknown (Custom (Fmt ''No result in response'' [])))))"

definition read_broadcast ::
  "'z chain_lib_scheme \<Rightarrow> bytes \<Rightarrow> (reqwest_error, response) result \<Rightarrow> submission res" where
  "read_broadcast L tx_bytes answer = (case answer of
       Inl e \<Rightarrow>
         if rq_is_connect e \<or> rq_is_builder e then Inl (from_reqwest e)
         else Inr (Sub_Unknown (from_reqwest e))
     | Inr response \<Rightarrow> (case read_text (utf8_lossy L) response SMALL of
         Inl e \<Rightarrow> Inr (Sub_Unknown e)
       | Inr response_text \<Rightarrow> (case cl_comet_response L response_text of
           Inl e \<Rightarrow> Inr (Sub_Unknown (Serialization e))
         | Inr rpc_response \<Rightarrow> read_rpc_response L tx_bytes rpc_response)))"

definition send_bytes ::
  "'z chain_lib_scheme \<Rightarrow> consensus_client \<Rightarrow> bytes \<Rightarrow> ('w world_scheme, submission res) io" where
  "send_bytes L C tx_bytes =
     bind_io (send (broadcast_request L C tx_bytes)) (\<lambda>answer. ret (read_broadcast L tx_bytes answer))"

definition refused :: "u32 \<Rightarrow> str \<Rightarrow> nonce_outcome option \<Rightarrow> willow_error" where
  "refused code log outcome =
     Custom (Fmt (case outcome of
         Some Used \<Rightarrow> ''Transaction failed: {} (code: {}); its nonce is used''
       | Some Held \<Rightarrow> ''Transaction failed: {} (code: {}); a pending transaction holds its nonce''
       | _ \<Rightarrow> ''Transaction failed: {} (code: {})'') [Str log, Num (unat code)])"

definition encode_tx :: "'z chain_lib_scheme \<Rightarrow> chain_transaction \<Rightarrow> bytes res" where
  "encode_tx L tx =
     map_err (\<lambda>e. Custom (Fmt ''bincode serialize transaction: {}'' [Str e])) (cl_bincode L tx)"

definition submit_bytes ::
  "'z chain_lib_scheme \<Rightarrow> consensus_client \<Rightarrow> chain_transaction \<Rightarrow> ('w world_scheme, submission res) io" where
  "submit_bytes L C tx =
     (case encode_tx L tx of Inl e \<Rightarrow> ret (Inl e) | Inr b \<Rightarrow> send_bytes L C b)"

definition broadcast ::
  "'z chain_lib_scheme \<Rightarrow> consensus_client \<Rightarrow> chain_transaction \<Rightarrow> ('w world_scheme, str res) io" where
  "broadcast L C tx =
     try_io (submit_bytes L C tx) (\<lambda>r. ret (case r of
         Sub_Accepted h \<Rightarrow> Inr h
       | Sub_Refused code log \<Rightarrow> Inl (refused code log None)
       | Sub_Unknown e \<Rightarrow> Inl e))"

definition settle_answer ::
  "signed_submission \<Rightarrow> submission \<Rightarrow> ('w con_world_scheme, str res) io" where
  "settle_answer sub answer =
     (let did = sub_did sub; nonce = sub_nonce sub in
      case answer of
        Sub_Accepted h \<Rightarrow> bind_io (settle_io did nonce Accepted) (\<lambda>_. ret (Inr h))
      | Sub_Refused code log \<Rightarrow>
          (let outcome = refusal_outcome log nonce in
           bind_io (settle_io did nonce outcome) (\<lambda>_. ret (Inl (refused code log (Some outcome)))))
      | Sub_Unknown e \<Rightarrow>
          bind_io (settle_io did nonce Unknown) (\<lambda>_.
          ret (Inl (SubmissionUnknown sub (Fmt ''{}'' [Shown e])))))"

definition send_signed ::
  "'z chain_lib_scheme \<Rightarrow> consensus_client \<Rightarrow> signed_submission \<Rightarrow> bool \<Rightarrow> ('w con_world_scheme, str res) io" where
  "send_signed L C sub release_unsent =
     bind_io (send_bytes L C (sub_tx_bytes sub)) (\<lambda>r. case r of
         Inl e \<Rightarrow>
           if \<not> release_unsent then ret (Inl (SubmissionUnknown sub (Fmt ''{}'' [Shown e])))
           else bind_io (release_io (sub_did sub) (sub_nonce sub)) (\<lambda>_. ret (Inl e))
       | Inr answer \<Rightarrow> settle_answer sub answer)"

definition submission_of :: "'z lib_scheme \<Rightarrow> str \<Rightarrow> u64 \<Rightarrow> bytes \<Rightarrow> signed_submission" where
  "submission_of L did nonce tx_bytes =
     \<lparr>sub_did = did, sub_nonce = nonce, sub_tx_bytes = tx_bytes, sub_tx_hash = tx_hash_of L tx_bytes\<rparr>"

definition submit_under ::
  "'z chain_lib_scheme \<Rightarrow> consensus_client \<Rightarrow> str \<Rightarrow> u64 \<Rightarrow> chain_transaction
   \<Rightarrow> ('w con_world_scheme, str res) io" where
  "submit_under L C did nonce tx = (case encode_tx L tx of
       Inl e \<Rightarrow> bind_io (release_io did nonce) (\<lambda>_. ret (Inl e))
     | Inr tx_bytes \<Rightarrow> send_signed L C (submission_of L did nonce tx_bytes) True)"

definition submit_with_nonce ::
  "'z chain_lib_scheme \<Rightarrow> consensus_client \<Rightarrow> str \<Rightarrow> (u64 \<Rightarrow> chain_transaction res)
   \<Rightarrow> ('w con_world_scheme, str res) io" where
  "submit_with_nonce L C did mk =
     try_io (get_next_nonce L C did) (\<lambda>nonce. case mk nonce of
         Inl e \<Rightarrow> bind_io (release_io did nonce) (\<lambda>_. ret (Inl e))
       | Inr tx \<Rightarrow> submit_under L C did nonce tx)"

definition submit_with_given_nonce ::
  "'z chain_lib_scheme \<Rightarrow> consensus_client \<Rightarrow> str \<Rightarrow> u64 \<Rightarrow> chain_transaction
   \<Rightarrow> ('w con_world_scheme, str res) io" where
  "submit_with_given_nonce L C did nonce tx =
     bind_io (hold_io did nonce) (\<lambda>_. submit_under L C did nonce tx)"

definition rebroadcast ::
  "'z chain_lib_scheme \<Rightarrow> consensus_client \<Rightarrow> signed_submission \<Rightarrow> ('w con_world_scheme, str res) io" where
  "rebroadcast L C sub =
     bind_io (hold_io (sub_did sub) (sub_nonce sub)) (\<lambda>_. send_signed L C sub False)"

section \<open>Transactions of a client\<close>

text \<open>\<open>serialize_tx\<close> wraps the JSON text of a transaction's fields in its variant's name;
  \<open>to_chain_transaction\<close> decodes it as the chain's type.\<close>

definition serialize_tx :: "str \<Rightarrow> (str, str) result \<Rightarrow> str res" where
  "serialize_tx variant_name inner =
     rbind (map_err Serialization inner) (\<lambda>i.
     Inr ([CHR 0x7B, CHR 0x22] @ variant_name @ [CHR 0x22, CHR 0x3A] @ i @ [CHR 0x7D]))"

definition to_chain_transaction ::
  "'z chain_lib_scheme \<Rightarrow> str \<Rightarrow> (str, str) result \<Rightarrow> chain_transaction res" where
  "to_chain_transaction L variant_name inner =
     rbind (serialize_tx variant_name inner) (\<lambda>t. map_err Serialization (cl_transaction_from_str L t))"

definition submit_transaction ::
  "'z chain_lib_scheme \<Rightarrow> consensus_client \<Rightarrow> str \<Rightarrow> ('w world_scheme, str res) io" where
  "submit_transaction L C tx_json =
     (case cl_transaction_from_str L tx_json of
        Inl e \<Rightarrow> ret (Inl (Serialization e))
      | Inr tx \<Rightarrow> broadcast L C tx)"

definition submit_raw_transaction ::
  "'z chain_lib_scheme \<Rightarrow> consensus_client \<Rightarrow> jvalue \<Rightarrow> ('w world_scheme, str res) io" where
  "submit_raw_transaction L C transaction = submit_transaction L C (json_to_string L transaction)"

definition submit_transaction_json ::
  "'z chain_lib_scheme \<Rightarrow> consensus_client \<Rightarrow> str \<Rightarrow> ('w world_scheme, str res) io" where
  "submit_transaction_json L C tx_json = submit_transaction L C tx_json"

text \<open>A signature as the bytes of the hex \<open>sign_challenge\<close> answers.\<close>

definition challenge_bytes ::
  "'z lib_scheme \<Rightarrow> str \<Rightarrow> str \<Rightarrow> signature_algorithm \<Rightarrow> bytes res" where
  "challenge_bytes L message private_key_hex algorithm =
     rbind (sign_challenge L message private_key_hex algorithm) (\<lambda>h.
     map_err from_hex_error (hex_decode L h))"

definition register_did ::
  "'z chain_lib_scheme \<Rightarrow> consensus_client \<Rightarrow> did_document \<Rightarrow> str \<Rightarrow> str \<Rightarrow> signature_algorithm
   \<Rightarrow> ('w con_world_scheme, str res) io" where
  "register_did L C doc private_key_hex public_key_id algorithm =
     (case rbind (map_err Serialization (dl_to_string (cl_documents L) doc)) (\<lambda>js.
           challenge_bytes L js private_key_hex algorithm) of
        Inl e \<Rightarrow> ret (Inl e)
      | Inr signature \<Rightarrow>
          submit_with_nonce L C (doc_id doc) (\<lambda>nonce.
            to_chain_transaction L ''RegisterDid'' (cl_did_tx_to_string L
              \<lparr>dt_did_document = doc, dt_signature = signature, dt_public_key_id = public_key_id,
               dt_nonce = nonce\<rparr>)))"

definition update_did_transaction ::
  "'z chain_lib_scheme \<Rightarrow> did_document \<Rightarrow> str \<Rightarrow> str \<Rightarrow> signature_algorithm \<Rightarrow> u64
   \<Rightarrow> chain_transaction res" where
  "update_did_transaction L doc private_key_hex public_key_id algorithm nonce =
     rbind (update_did_signing_message (cl_documents L) doc nonce) (\<lambda>message.
     rbind (challenge_bytes L message private_key_hex algorithm) (\<lambda>signature.
     to_chain_transaction L ''UpdateDid'' (cl_did_tx_to_string L
       \<lparr>dt_did_document = doc, dt_signature = signature, dt_public_key_id = public_key_id,
        dt_nonce = nonce\<rparr>)))"

definition update_did ::
  "'z chain_lib_scheme \<Rightarrow> consensus_client \<Rightarrow> did_document \<Rightarrow> str \<Rightarrow> str \<Rightarrow> signature_algorithm
   \<Rightarrow> ('w con_world_scheme, str res) io" where
  "update_did L C doc private_key_hex public_key_id algorithm =
     submit_with_nonce L C (doc_id doc)
       (update_did_transaction L doc private_key_hex public_key_id algorithm)"

definition update_did_with_nonce ::
  "'z chain_lib_scheme \<Rightarrow> consensus_client \<Rightarrow> did_document \<Rightarrow> str \<Rightarrow> str \<Rightarrow> signature_algorithm \<Rightarrow> u64
   \<Rightarrow> ('w con_world_scheme, str res) io" where
  "update_did_with_nonce L C doc private_key_hex public_key_id algorithm nonce =
     (case update_did_transaction L doc private_key_hex public_key_id algorithm nonce of
        Inl e \<Rightarrow> bind_io (release_io (doc_id doc) nonce) (\<lambda>_. ret (Inl e))
      | Inr tx \<Rightarrow> submit_with_given_nonce L C (doc_id doc) nonce tx)"

definition claim_subgrove_indexing ::
  "'z chain_lib_scheme \<Rightarrow> consensus_client \<Rightarrow> str \<Rightarrow> str \<Rightarrow> str \<Rightarrow> str \<Rightarrow> signature_algorithm
   \<Rightarrow> ('w con_world_scheme, str res) io" where
  "claim_subgrove_indexing L C subgrove_id indexer_did private_key_hex public_key_id algorithm =
     submit_with_nonce L C indexer_did (\<lambda>nonce.
       let message = lines_of [''ClaimSubgroveIndexing'', subgrove_id, indexer_did, dec (unat nonce)] in
       rbind (challenge_bytes L message private_key_hex algorithm) (\<lambda>signature.
       Inr (ClaimSubgroveIndexing
         \<lparr>ci_subgrove_id = subgrove_id, ci_indexer_did = indexer_did, ci_signature = signature,
          ci_public_key_id = public_key_id, ci_nonce = nonce\<rparr>)))"

definition transfer_message :: "str \<Rightarrow> str \<Rightarrow> nat \<Rightarrow> str option \<Rightarrow> u64 \<Rightarrow> str" where
  "transfer_message from_did to_did amount memo nonce =
     lines_of [''Transfer'', ''From: '' @ from_did, ''To: '' @ to_did, ''Amount: '' @ dec amount,
       ''Memo: '' @ unwrap_or memo [], ''Nonce: '' @ dec (unat nonce)]"

definition transfer ::
  "'z chain_lib_scheme \<Rightarrow> consensus_client \<Rightarrow> str \<Rightarrow> str \<Rightarrow> nat \<Rightarrow> str option \<Rightarrow> str \<Rightarrow> str
   \<Rightarrow> signature_algorithm \<Rightarrow> ('w con_world_scheme, str res) io" where
  "transfer L C from_did to_did amount memo private_key_hex public_key_id algorithm =
     submit_with_nonce L C from_did (\<lambda>nonce.
       rbind (challenge_bytes L (transfer_message from_did to_did amount memo nonce)
                private_key_hex algorithm) (\<lambda>signature.
       Inr (Transfer
         \<lparr>tr_from_did = from_did, tr_to_did = to_did, tr_amount = amount, tr_memo = memo,
          tr_signature = signature, tr_public_key_id = public_key_id, tr_nonce = nonce\<rparr>)))"

text \<open>\<open>SigningKey::sign\<close>: the seed is the key.\<close>

definition key_sign :: "'z lib_scheme \<Rightarrow> bytes \<Rightarrow> str \<Rightarrow> bytes" where
  "key_sign L key message = ed25519_sign L key (str_bytes message)"

record register_subgrove_request =
  rq_subgrove_id :: str
  rq_name :: str
  rq_description :: str
  rq_schema :: "jvalue option"
  rq_owner_did :: str
  rq_admins :: "str list"
  rq_initial_funding :: "nat option"
  rq_writers :: "str list"
  rq_readers :: "str list"
  rq_public_key_id :: str

definition sign_registration ::
  "'z chain_lib_scheme \<Rightarrow> register_subgrove_tx \<Rightarrow> bytes \<Rightarrow> u64 \<Rightarrow> chain_transaction res" where
  "sign_registration L tx key nonce =
     (let tx = tx\<lparr>rs_nonce := nonce\<rparr> in
      rbind (register_subgrove_message L tx) (\<lambda>message.
      Inr (RegisterSubgrove (tx\<lparr>rs_signature := key_sign L key message\<rparr>))))"

definition sign_and_register ::
  "'z chain_lib_scheme \<Rightarrow> consensus_client \<Rightarrow> register_subgrove_tx \<Rightarrow> bytes
   \<Rightarrow> ('w con_world_scheme, str res) io" where
  "sign_and_register L C tx key = (case check_register_subgrove L tx of
       Inl e \<Rightarrow> ret (Inl e)
     | Inr _ \<Rightarrow> submit_with_nonce L C (rs_owner_did tx) (sign_registration L tx key))"

definition register_subgrove ::
  "'z chain_lib_scheme \<Rightarrow> consensus_client \<Rightarrow> register_subgrove_request \<Rightarrow> bytes
   \<Rightarrow> ('w con_world_scheme, str res) io" where
  "register_subgrove L C request key =
     sign_and_register L C
       \<lparr>rs_subgrove_id = rq_subgrove_id request, rs_name = rq_name request,
        rs_description = rq_description request,
        rs_schema = (case rq_schema request of
            Some schema \<Rightarrow> json_to_string L schema | None \<Rightarrow> [CHR 0x7B, CHR 0x7D]),
        rs_owner_did = rq_owner_did request, rs_admins = rq_admins request,
        rs_initial_funding = rq_initial_funding request, rs_checkpoint_verification = None,
        rs_mode = DataStorage (rq_name request) (rq_writers request) (rq_readers request),
        rs_privacy = None, rs_initial_owner_key_grant = None, rs_template_config = None,
        rs_confirmation_depth = 0, rs_signature = [], rs_public_key_id = rq_public_key_id request,
        rs_nonce = 0, rs_cryptographic_completeness = False\<rparr> key"

definition register_file_subgrove ::
  "'z chain_lib_scheme \<Rightarrow> consensus_client \<Rightarrow> str \<Rightarrow> str \<Rightarrow> str \<Rightarrow> str list \<Rightarrow> str list \<Rightarrow> u64 \<Rightarrow> u8
   \<Rightarrow> str \<Rightarrow> bytes \<Rightarrow> nat option \<Rightarrow> ('w con_world_scheme, str res) io" where
  "register_file_subgrove L C subgrove_id name owner_did writers readers max_file_size
     replication_factor public_key_id key initial_funding =
     sign_and_register L C
       \<lparr>rs_subgrove_id = subgrove_id, rs_name = name, rs_description = [],
        rs_schema = [CHR 0x7B, CHR 0x7D], rs_owner_did = owner_did, rs_admins = [],
        rs_initial_funding = initial_funding, rs_checkpoint_verification = None,
        rs_mode = FileStorage name max_file_size replication_factor writers readers 0,
        rs_privacy = None, rs_initial_owner_key_grant = None, rs_template_config = None,
        rs_confirmation_depth = 0, rs_signature = [], rs_public_key_id = public_key_id,
        rs_nonce = 0, rs_cryptographic_completeness = False\<rparr> key"

record store_data_request =
  sr_subgrove_id :: str
  sr_key :: str
  sr_data :: jvalue
  sr_owner_did :: str
  sr_public_key_id :: str

definition sign_store ::
  "'z chain_lib_scheme \<Rightarrow> store_data_request \<Rightarrow> bytes \<Rightarrow> u64 \<Rightarrow> chain_transaction res" where
  "sign_store L request key nonce =
     (let tx = \<lparr>sd_subgrove_id = sr_subgrove_id request, sd_key = sr_key request,
          sd_data = str_bytes (json_to_string L (sr_data request)), sd_owner_did = sr_owner_did request,
          sd_signature = [], sd_public_key_id = sr_public_key_id request, sd_nonce = nonce\<rparr> in
      rbind (store_data_message L tx) (\<lambda>message.
      Inr (StoreData (tx\<lparr>sd_signature := key_sign L key message\<rparr>))))"

definition store_data ::
  "'z chain_lib_scheme \<Rightarrow> consensus_client \<Rightarrow> store_data_request \<Rightarrow> bytes
   \<Rightarrow> ('w con_world_scheme, str res) io" where
  "store_data L C request key =
     (if \<not> is_object (sr_data request) then
        ret (refuse ''StoreData data must be a JSON object'' [])
      else submit_with_nonce L C (sr_owner_did request) (sign_store L request key))"

definition sign_delete ::
  "'z chain_lib_scheme \<Rightarrow> str \<Rightarrow> str \<Rightarrow> str \<Rightarrow> str \<Rightarrow> bytes \<Rightarrow> u64 \<Rightarrow> chain_transaction res" where
  "sign_delete L subgrove_id k owner_did public_key_id key nonce =
     (let tx = \<lparr>dd_subgrove_id = subgrove_id, dd_key = k, dd_owner_did = owner_did, dd_signature = [],
          dd_public_key_id = public_key_id, dd_nonce = nonce\<rparr> in
      rbind (delete_data_message tx) (\<lambda>message.
      Inr (DeleteData (tx\<lparr>dd_signature := key_sign L key message\<rparr>))))"

definition delete_data ::
  "'z chain_lib_scheme \<Rightarrow> consensus_client \<Rightarrow> str \<Rightarrow> str \<Rightarrow> str \<Rightarrow> str \<Rightarrow> bytes
   \<Rightarrow> ('w con_world_scheme, str res) io" where
  "delete_data L C subgrove_id k owner_did public_key_id key =
     submit_with_nonce L C owner_did (sign_delete L subgrove_id k owner_did public_key_id key)"

definition fund_message :: "str \<Rightarrow> nat \<Rightarrow> str \<Rightarrow> u64 \<Rightarrow> str" where
  "fund_message subgrove_id amount from_did nonce =
     lines_of [''FundSubgrove'', ''Subgrove: '' @ subgrove_id, ''Amount: '' @ dec amount,
       ''From: '' @ from_did, ''Nonce: '' @ dec (unat nonce)]"

definition fund_subgrove ::
  "'z chain_lib_scheme \<Rightarrow> consensus_client \<Rightarrow> str \<Rightarrow> nat \<Rightarrow> str \<Rightarrow> str \<Rightarrow> bytes
   \<Rightarrow> ('w con_world_scheme, str res) io" where
  "fund_subgrove L C subgrove_id amount from_did public_key_id key =
     submit_with_nonce L C from_did (\<lambda>nonce. Inr (FundSubgrove
       \<lparr>fu_subgrove_id = subgrove_id, fu_amount = amount, fu_from_did = from_did,
        fu_signature = key_sign L key (fund_message subgrove_id amount from_did nonce),
        fu_public_key_id = public_key_id, fu_nonce = nonce\<rparr>))"

definition deregister_message :: "str \<Rightarrow> str \<Rightarrow> u64 \<Rightarrow> str" where
  "deregister_message subgrove_id owner_did nonce =
     join_with '':'' [''DeregisterSubgrove'', subgrove_id, owner_did, dec (unat nonce)]"

definition deregister_subgrove ::
  "'z chain_lib_scheme \<Rightarrow> consensus_client \<Rightarrow> str \<Rightarrow> str \<Rightarrow> str \<Rightarrow> bytes
   \<Rightarrow> ('w con_world_scheme, str res) io" where
  "deregister_subgrove L C subgrove_id owner_did public_key_id key =
     submit_with_nonce L C owner_did (\<lambda>nonce. Inr (DeregisterSubgrove
       \<lparr>de_subgrove_id = subgrove_id, de_owner_did = owner_did,
        de_signature = key_sign L key (deregister_message subgrove_id owner_did nonce),
        de_public_key_id = public_key_id, de_nonce = nonce\<rparr>))"

section \<open>Following a transaction\<close>

definition tx_hash_to_base64 :: "'z lib_scheme \<Rightarrow> str \<Rightarrow> str res" where
  "tx_hash_to_base64 L tx_hash =
     (let bare = unwrap_or (strip_prefix ''0x'' tx_hash) tx_hash in
      rbind (map_err (\<lambda>e. Custom (Fmt ''Invalid tx hash hex: {}'' [Str e])) (hex_decode L bare)) (\<lambda>b.
      Inr (base64_encode L b)))"

definition tx_request :: "consensus_client \<Rightarrow> str \<Rightarrow> request" where
  "tx_request C hash =
     Post (consensus_rpc_url C) []
       (rpc_call ''tx'' [(''hash'', JString hash), (''prove'', JBool False)])"

definition parse_tx_outcome :: "jvalue \<Rightarrow> tx_outcome option" where
  "parse_tx_outcome body =
     (let result = jindex body ''result'';
          from_text = (case as_str (jindex result ''height'') of None \<Rightarrow> None | Some h \<Rightarrow> parse_signed 64 h);
          height = (case from_text of Some h \<Rightarrow> Some h | None \<Rightarrow> as_i64 (jindex result ''height''))
      in case height of
           None \<Rightarrow> None
         | Some h \<Rightarrow> Some
             \<lparr>to_height = h,
              to_code = ucast (zero_or_u64 (Some (jpath result [''tx_result'', ''code'']))),
              to_log = str_or_empty (jpath result [''tx_result'', ''log''])\<rparr>)"

definition poll_outcome ::
  "'z chain_lib_scheme \<Rightarrow> consensus_client \<Rightarrow> str \<Rightarrow> ('w world_scheme, tx_outcome option) io" where
  "poll_outcome L C hash = (\<lambda>s. case send (tx_request C hash) s of
       (Inl _, s) \<Rightarrow> (None, s)
     | (Inr response, s) \<Rightarrow>
         (case json (json_from_slice L) response TX of Inl _ \<Rightarrow> None | Inr body \<Rightarrow> parse_tx_outcome body, s))"

text \<open>A loop of \<open>0..max_attempts\<close> polls, two seconds apart.\<close>

definition POLL_PAUSE :: duration where
  "POLL_PAUSE = 2 * 10 ^ 9"

fun poll_loop :: "('w world_scheme, 'a option) io \<Rightarrow> nat \<Rightarrow> ('w world_scheme, 'a option) io" where
  "poll_loop poll 0 = ret None"
| "poll_loop poll (Suc n) =
     bind_io poll (\<lambda>r. case r of
       Some x \<Rightarrow> ret (Some x)
     | None \<Rightarrow> bind_io (sleep_io POLL_PAUSE) (\<lambda>_. poll_loop poll n))"

definition wait_for_tx_outcome ::
  "'z chain_lib_scheme \<Rightarrow> consensus_client \<Rightarrow> str \<Rightarrow> u32 \<Rightarrow> ('w world_scheme, tx_outcome option res) io" where
  "wait_for_tx_outcome L C tx_hash max_attempts =
     (case tx_hash_to_base64 L tx_hash of
        Inl e \<Rightarrow> ret (Inl e)
      | Inr hash \<Rightarrow> bind_io (poll_loop (poll_outcome L C hash) (unat max_attempts)) (\<lambda>r. ret (Inr r)))"

definition poll_included ::
  "'z chain_lib_scheme \<Rightarrow> consensus_client \<Rightarrow> str \<Rightarrow> ('w world_scheme, unit option) io" where
  "poll_included L C hash = (\<lambda>s. case send (tx_request C hash) s of
       (Inl _, s) \<Rightarrow> (None, s)
     | (Inr response, s) \<Rightarrow>
         (case read_text (utf8_lossy L) response TX of
            Inl _ \<Rightarrow> None
          | Inr t \<Rightarrow> (case decode_checked (json_from_slice L) (str_bytes t) Full of
              Inl _ \<Rightarrow> None
            | Inr v \<Rightarrow> (case jget v ''result'' of None \<Rightarrow> None | Some _ \<Rightarrow> Some ())), s))"

definition wait_for_transaction ::
  "'z chain_lib_scheme \<Rightarrow> consensus_client \<Rightarrow> str \<Rightarrow> u32 \<Rightarrow> ('w world_scheme, bool res) io" where
  "wait_for_transaction L C tx_hash max_attempts =
     (case tx_hash_to_base64 L tx_hash of
        Inl e \<Rightarrow> ret (Inl e)
      | Inr hash \<Rightarrow>
          bind_io (poll_loop (poll_included L C hash) (unat max_attempts)) (\<lambda>r. ret (Inr (r \<noteq> None))))"

definition transaction_result :: "jvalue \<Rightarrow> (u32 \<times> str) res" where
  "transaction_result v =
     (case (case jget v ''result'' of None \<Rightarrow> None | Some r \<Rightarrow> jget r ''tx_result'') of
        None \<Rightarrow> Inl (Custom (Fmt ''Transaction not found'' []))
      | Some t \<Rightarrow> Inr
          (ucast (unwrap_or (case jget t ''code'' of None \<Rightarrow> None | Some c \<Rightarrow> as_u64 c) 1),
           unwrap_or (case jget t ''log'' of None \<Rightarrow> None | Some l \<Rightarrow> as_str l) ''Unknown error''))"

definition get_transaction ::
  "'z chain_lib_scheme \<Rightarrow> consensus_client \<Rightarrow> str \<Rightarrow> ('w world_scheme, (u32 \<times> str) res) io" where
  "get_transaction L C tx_hash =
     (case tx_hash_to_base64 L tx_hash of
        Inl e \<Rightarrow> ret (Inl e)
      | Inr hash \<Rightarrow> bind_io (send (tx_request C hash)) (\<lambda>r. ret
          (case r of
             Inl e \<Rightarrow> Inl (from_reqwest e)
           | Inr response \<Rightarrow>
               rbind (read_text (utf8_lossy L) response TX) (\<lambda>t.
               rbind (decode_checked (json_from_slice L) (str_bytes t) Full) transaction_result))))"


section \<open>What the requests leave alone\<close>

lemma con_tracker_send: "send req s = (r, s') \<Longrightarrow> con_tracker s' = con_tracker s \<and> w_now s \<le> w_now s'"
  by (cases "w_answer s (w_calls s) req") (auto simp: send_def)

lemma con_tracker_abci:
  "abci_query_value L C path s = (r, s') \<Longrightarrow> con_tracker s' = con_tracker s \<and> w_now s \<le> w_now s'"
  by (auto simp: abci_query_value_def split: prod.splits sum.splits dest: con_tracker_send)

lemma con_tracker_base_nonce:
  "base_nonce L C did s = (r, s') \<Longrightarrow> con_tracker s' = con_tracker s \<and> w_now s \<le> w_now s'"
  by (auto simp: base_nonce_def base_nonce_from_api_def Let_def split: option.splits prod.splits sum.splits
      dest: con_tracker_send con_tracker_abci)

lemma con_tracker_account_state:
  assumes "Consensus.account_nonce_state L C did s = (r, s')"
  shows "con_tracker s' = con_tracker s \<and> w_now s \<le> w_now s'"
proof -
  obtain q s1 where q: "abci_query_value L C (''/store/account_nonce_state/'' @ did) s = (q, s1)"
    by (cases "abci_query_value L C (''/store/account_nonce_state/'' @ did) s")
  obtain b s2 where b: "base_nonce L C did s1 = (b, s2)" by (cases "base_nonce L C did s1")
  have "s' = s1 \<or> s' = s2"
    using assms q b by (auto simp: Consensus.account_nonce_state_def split: option.splits sum.splits)
  then show ?thesis using con_tracker_abci [OF q] con_tracker_base_nonce [OF b] by auto
qed

lemma tracker_io_simps [simp]:
  "tracker_io f s = ((), s\<lparr>con_tracker := f (con_tracker s) (w_now s)\<rparr>)"
  by (simp add: tracker_io_def)

lemmas tracker_op_defs = release_io_def hold_io_def settle_io_def

lemma send_bytes_cases:
  obtains s1 where "con_tracker s1 = con_tracker s" "w_now s \<le> w_now s1"
    "send_bytes L C b s = (read_broadcast L b (fst (send (broadcast_request L C b) s)), s1)"
proof -
  obtain r s1 where "send (broadcast_request L C b) s = (r, s1)"
    by (cases "send (broadcast_request L C b) s")
  with con_tracker_send [OF this] show thesis by (intro that [of s1]) (simp_all add: send_bytes_def)
qed

section \<open>When a nonce is given back\<close>

text \<open>Held at any time before 120 s after \<open>since\<close>.\<close>

definition kept :: "tracker \<Rightarrow> instant \<Rightarrow> str \<Rightarrow> u64 \<Rightarrow> bool" where
  "kept T since did nonce \<longleftrightarrow> (\<forall>t. t - since < NONCE_HOLD \<longrightarrow> busy T t did nonce)"

text \<open>What CometBFT answered the bytes, and when that answer shows that none of it can land.\<close>

definition answer_to ::
  "'z chain_lib_scheme \<Rightarrow> consensus_client \<Rightarrow> bytes \<Rightarrow> 'w world_scheme \<Rightarrow> submission res" where
  "answer_to L C tx_bytes s = read_broadcast L tx_bytes (fst (send (broadcast_request L C tx_bytes) s))"

definition cannot_land :: "u64 \<Rightarrow> submission res \<Rightarrow> bool" where
  "cannot_land nonce answer = (case answer of
       Inl _ \<Rightarrow> True
     | Inr (Sub_Refused code log) \<Rightarrow> refusal_outcome log nonce = Free
     | Inr _ \<Rightarrow> False)"

lemma kept_settle: "oc \<noteq> Free \<Longrightarrow> kept (settle T now did n oc) now did n"
  by (simp add: kept_def settle_busy)

lemma kept_hold: "kept (hold T now did n) now did n"
  by (simp add: kept_def hold_busy)

text \<open>A result that, where it reports an unknown outcome, carries this submission.\<close>

definition unknown_carries :: "str res \<Rightarrow> signed_submission \<Rightarrow> bool" where
  "unknown_carries r sub = (case r of Inl (SubmissionUnknown u m) \<Rightarrow> u = sub | _ \<Rightarrow> True)"

lemma submission_of_simps [simp]:
  "sub_did (submission_of L did n b) = did" "sub_nonce (submission_of L did n b) = n"
  "sub_tx_bytes (submission_of L did n b) = b"
  by (simp_all add: submission_of_def)

text \<open>Sending a new write and settling its nonce.\<close>

lemma send_signed_settles:
  assumes "send_signed L C sub True s = (r, s')"
  shows "if cannot_land (sub_nonce sub) (answer_to L C (sub_tx_bytes sub) s)
    then \<not> is_ok r \<and> con_tracker s' = release (con_tracker s) (sub_did sub) (sub_nonce sub)
    else kept (con_tracker s') (w_now s') (sub_did sub) (sub_nonce sub)
      \<and> unknown_carries r sub"
proof -
  obtain s1 where s1: "con_tracker s1 = con_tracker s"
    "send_bytes L C (sub_tx_bytes sub) s = (answer_to L C (sub_tx_bytes sub) s, s1)"
    by (rule send_bytes_cases [of s L C "sub_tx_bytes sub"]) (simp add: answer_to_def)
  show ?thesis
  proof (cases "answer_to L C (sub_tx_bytes sub) s")
    case (Inl e)
    then show ?thesis using assms s1 by (auto simp: send_signed_def cannot_land_def tracker_op_defs)
  next
    case (Inr answer)
    then show ?thesis using assms s1
      by (cases answer)
        (auto simp: send_signed_def settle_answer_def cannot_land_def tracker_op_defs Let_def
          kept_settle kept_hold refused_def unknown_carries_def)
  qed
qed


text \<open>C13: A rebroadcast never gives the nonce back unless the node refuses the transaction itself: when it
  cannot be sent, or the mempool takes none of it, the outcome stays unknown and the nonce stays
  held from when the rebroadcast began.\<close>

theorem rebroadcast_keeps_nonce:
  "case rebroadcast L C sub s of (r, s') \<Rightarrow>
     (case answer_to L C (sub_tx_bytes sub) s of
        Inl e \<Rightarrow> r = Inl (SubmissionUnknown sub (Fmt ''{}'' [Shown e]))
          \<and> kept (con_tracker s') (w_now s) (sub_did sub) (sub_nonce sub)
      | Inr answer \<Rightarrow>
          if cannot_land (sub_nonce sub) (Inr answer)
          then \<not> is_ok r
          else kept (con_tracker s') (w_now s') (sub_did sub) (sub_nonce sub))"
proof -
  let ?h = "hold (con_tracker s) (w_now s) (sub_did sub) (sub_nonce sub)"
  let ?s = "s\<lparr>con_tracker := ?h\<rparr>"
  have same: "answer_to L C b ?s = answer_to L C b s" for b
    by (cases "w_answer s (w_calls s) (broadcast_request L C b)") (simp add: answer_to_def send_def)
  obtain s1 where s1: "con_tracker s1 = ?h"
    "send_bytes L C (sub_tx_bytes sub) ?s = (answer_to L C (sub_tx_bytes sub) s, s1)"
    by (rule send_bytes_cases [of ?s L C "sub_tx_bytes sub"]) (simp add: answer_to_def [symmetric] same)
  have run: "rebroadcast L C sub s = (case answer_to L C (sub_tx_bytes sub) s of
       Inl e \<Rightarrow> (Inl (SubmissionUnknown sub (Fmt ''{}'' [Shown e])), s1)
     | Inr answer \<Rightarrow> settle_answer sub answer s1)"
    using s1(2) by (simp add: rebroadcast_def send_signed_def tracker_op_defs split: sum.splits)
  show ?thesis
  proof (cases "answer_to L C (sub_tx_bytes sub) s")
    case (Inl e)
    then show ?thesis using s1(1) kept_hold by (simp add: run)
  next
    case (Inr answer)
    then show ?thesis
      by (cases answer)
        (auto simp: run settle_answer_def cannot_land_def tracker_op_defs Let_def kept_settle kept_hold)
  qed
qed


section \<open>Other writes keep their nonces\<close>

lemma busy_earlier: "busy T t d m \<Longrightarrow> t0 \<le> t \<Longrightarrow> busy T t0 d m"
proof -
  assume a: "busy T t d m" "t0 \<le> t"
  have "t0 - at < NONCE_HOLD" if "t - at < NONCE_HOLD" for at using that a(2) by linarith
  then show ?thesis using a(1) by (auto simp: busy_def Let_def handed_live_iff)
qed

lemma base_hold: "acc_base (account_of (hold T now did n) d) = acc_base (account_of T d)"
  by (auto simp: hold_def account_of_def Let_def refresh_def)

lemma base_release: "acc_base (account_of (release T did n) d) = acc_base (account_of T d)"
  by (auto simp: release_def account_of_def split: option.splits)

lemma base_settle: "acc_base (account_of (settle T now did n oc) d) = acc_base (account_of T d)"
  by (cases oc) (simp_all add: base_hold base_release, simp add: mark_used_def account_of_def Let_def)

text \<open>What a submission under a nonce does to the tracker.\<close>

lemma submit_under_tracker:
  assumes "submit_under L C did n tx s = (r, s')"
  shows "w_now s \<le> w_now s' \<and> (con_tracker s' = release (con_tracker s) did n
    \<or> (\<exists>oc. con_tracker s' = settle (con_tracker s) (w_now s') did n oc))"
proof (cases "encode_tx L tx")
  case (Inl e)
  then show ?thesis using assms by (auto simp: submit_under_def tracker_op_defs)
next
  case (Inr b)
  obtain s1 where s1: "con_tracker s1 = con_tracker s" "w_now s \<le> w_now s1"
    "send_bytes L C b s = (answer_to L C b s, s1)"
    by (rule send_bytes_cases [of s L C b]) (simp add: answer_to_def)
  show ?thesis
  proof (cases "answer_to L C b s")
    case (Inl e)
    then show ?thesis using assms Inr s1
      by (auto simp: submit_under_def send_signed_def tracker_op_defs)
  next
    case (Inr answer)
    have "settle_answer (submission_of L did n b) answer s1 = (r, s')"
      using assms \<open>encode_tx L tx = Inr b\<close> s1 Inr by (simp add: submit_under_def send_signed_def)
    then have "\<exists>oc. s' = s1\<lparr>con_tracker := settle (con_tracker s1) (w_now s1) did n oc\<rparr>"
      unfolding settle_answer_def settle_io_def Let_def
      by (cases answer) (force simp del: settle.simps)+
    then show ?thesis using s1(1,2) by auto
  qed
qed

lemma submit_under_keeps_others:
  assumes "submit_under L C did n tx s = (r, s')" "busy (con_tracker s) t d m" "w_now s' \<le> t"
    "(d, m) \<noteq> (did, n)"
  shows "busy (con_tracker s') t d m"
  using submit_under_tracker [OF assms(1)] assms(2-4)
  by (auto intro: release_keeps_busy settle_keeps_busy)

lemma get_next_nonce_cases:
  assumes "get_next_nonce L C did s = (r, s1)"
  obtains (failed) e where "r = Inl e" "con_tracker s1 = con_tracker s" "w_now s \<le> w_now s1"
  | (taken) st T where "w_now s \<le> w_now s1" "take_nonce (con_tracker s) (w_now s1) did st = (T, r)"
      "con_tracker s1 = T"
proof -
  obtain q s0 where q: "Consensus.account_nonce_state L C did s = (q, s0)"
    by (cases "Consensus.account_nonce_state L C did s")
  note s0 = con_tracker_account_state [OF q]
  show thesis
  proof (cases q)
    case (Inl e)
    then show thesis using assms q s0 by (intro failed) (auto simp: get_next_nonce_def)
  next
    case (Inr st)
    obtain T r' where t: "take_nonce (con_tracker s0) (w_now s0) did st = (T, r')"
      by (cases "take_nonce (con_tracker s0) (w_now s0) did st")
    then have "r = r'" "s1 = s0\<lparr>con_tracker := T\<rparr>"
      using assms q Inr by (auto simp: get_next_nonce_def take_io_def)
    then show thesis using t s0 by (intro taken) auto
  qed
qed


section \<open>What is sent is what is signed\<close>

text \<open>The node checks a transaction's signature over the message it builds from the transaction it
  decoded. A transaction is properly signed under a nonce and a key when the message of exactly that
  transaction is signed in it.\<close>

definition properly_signed :: "'z node_scheme \<Rightarrow> signed_tx \<Rightarrow> bytes \<Rightarrow> bytes \<Rightarrow> bool" where
  "properly_signed L tx signature key = (case message_of L tx of
       Inl _ \<Rightarrow> False
     | Inr m \<Rightarrow> verify_ed25519 L (str_bytes m) signature (ed25519_public L key) = Inr True)"

lemma key_sign_verifies:
  "crypto_ok L \<Longrightarrow> length key = 32 \<Longrightarrow>
     verify_ed25519 L (str_bytes m) (key_sign L key m) (ed25519_public L key) = Inr True"
  by (simp add: verify_ed25519_def key_sign_def crypto_ok_def)


section \<open>Transfers\<close>

lemma last_line:
  assumes "s @ nl # ''Nonce: '' @ dec m = t @ nl # ''Nonce: '' @ dec n"
  shows "s = t \<and> m = n"
proof -
  have dw: "dropWhile (\<lambda>c. c \<noteq> nl) (rev (u @ nl # w)) = nl # rev u" if "nl \<notin> set w" for u w
    using that by (simp, subst dropWhile_append2) auto
  have no_nl: "nl \<notin> set (''Nonce: '' @ dec k)" for k
    using dec_no_nl [of k] by (simp, simp add: nl_def)
  have "nl # rev s = nl # rev t"
    using dw [OF no_nl, of s m, unfolded assms] dw [OF no_nl, of t n] by (rule trans [OF sym])
  then have "s = t" by simp
  with assms show ?thesis by simp
qed

lemma first_line:
  assumes "x @ nl # s = y @ nl # t" "nl \<notin> set x" "nl \<notin> set y"
  shows "x = y \<and> s = t"
proof -
  have "takeWhile (\<lambda>c. c \<noteq> nl) (x @ nl # s) = x" "takeWhile (\<lambda>c. c \<noteq> nl) (y @ nl # t) = y"
    using assms(2,3) by (auto simp: takeWhile_append)
  then have "x = y" using assms(1) by metis
  with assms(1) show ?thesis by simp
qed



section \<open>Following a transaction\<close>

lemma poll_loop_bounds:
  fixes poll :: "('w world_scheme, 'a option) io"
  assumes one: "\<And>s. w_calls (snd (poll s)) = w_calls s + 1 \<and> w_now s \<le> w_now (snd (poll s))
      \<and> w_answer (snd (poll s)) = w_answer s"
    and run: "poll_loop poll n s = (r, s')"
  shows "w_calls s' \<le> w_calls s + n
    \<and> (case r of
        None \<Rightarrow> w_calls s' = w_calls s + n \<and> w_now s + n * POLL_PAUSE \<le> w_now s'
      | Some x \<Rightarrow> (\<exists>s0. w_answer s0 = w_answer s \<and> w_calls s \<le> w_calls s0 \<and> w_calls s0 < w_calls s + n
          \<and> poll s0 = (Some x, s')))"
  using run
proof (induction n arbitrary: s)
  case 0
  then show ?case by simp
next
  case (Suc n)
  obtain q s1 where q: "poll s = (q, s1)" by (cases "poll s")
  have step: "w_calls s1 = w_calls s + 1" "w_now s \<le> w_now s1" "w_answer s1 = w_answer s"
    using one [of s] by (simp_all add: q)
  show ?case
  proof (cases q)
    case (Some x)
    then have "r = Some x" "s' = s1" using Suc.prems q by simp_all
    then show ?thesis using step q Some by (auto intro: exI [of _ s])
  next
    case None
    let ?s2 = "s1\<lparr>w_now := w_now s1 + POLL_PAUSE\<rparr>"
    have "poll_loop poll n ?s2 = (r, s')"
      using Suc.prems q None by (simp add: sleep_io_def)
    from Suc.IH [OF this] show ?thesis
      using step by (auto split: option.splits)
  qed
qed

lemma send_step: "send req s = (r, s') \<Longrightarrow>
    w_calls s' = w_calls s + 1 \<and> w_now s \<le> w_now s' \<and> w_answer s' = w_answer s
    \<and> r = snd (w_answer s (w_calls s) req)"
  by (cases "w_answer s (w_calls s) req") (auto simp: send_def)

lemma poll_outcome_step:
  "w_calls (snd (poll_outcome L C h s)) = w_calls s + 1 \<and> w_now s \<le> w_now (snd (poll_outcome L C h s))
     \<and> w_answer (snd (poll_outcome L C h s)) = w_answer s"
  by (auto simp: poll_outcome_def split: prod.splits sum.splits dest!: send_step)

lemma poll_outcome_Some:
  assumes "poll_outcome L C h s = (Some x, s')"
  obtains resp body where "snd (w_answer s (w_calls s) (tx_request C h)) = Inr resp"
    "json (json_from_slice L) resp TX = Inr body" "parse_tx_outcome body = Some x"
proof -
  obtain q s1 where q: "send (tx_request C h) s = (q, s1)" by (cases "send (tx_request C h) s")
  with assms obtain resp where "q = Inr resp" by (cases q) (auto simp: poll_outcome_def)
  with assms q obtain body where "json (json_from_slice L) resp TX = Inr body" "parse_tx_outcome body = Some x"
    by (auto simp: poll_outcome_def split: sum.splits)
  moreover have "snd (w_answer s (w_calls s) (tx_request C h)) = Inr resp"
    using send_step [OF q] \<open>q = Inr resp\<close> by simp
  ultimately show thesis by (intro that)
qed

lemma parse_tx_outcome_height:
  assumes "parse_tx_outcome body = Some x"
  shows "(\<exists>h. jpath body [''result'', ''height''] = JString h \<and> parse_signed 64 h = Some (to_height x))
    \<or> as_i64 (jpath body [''result'', ''height'']) = Some (to_height x)"
  using assms
  by (cases "jindex (jindex body ''result'') ''height''")
    (auto simp: parse_tx_outcome_def Let_def jpath_def split: option.splits)

text \<open>C35: Waiting for a transaction is bounded and reports only what a block said. At most
  \<open>max_attempts\<close> requests are sent; giving up means that all were sent, two seconds apart; an outcome
  is read from one of their answers, which names a height that parses; a bad hash sends nothing.\<close>

theorem wait_for_tx_outcome_bounded:
  "case wait_for_tx_outcome L C h k s of (r, s') \<Rightarrow>
     w_calls s' \<le> w_calls s + unat k
     \<and> (case r of
         Inl e \<Rightarrow> s' = s
       | Inr None \<Rightarrow> w_calls s' = w_calls s + unat k \<and> w_now s + unat k * POLL_PAUSE \<le> w_now s'
       | Inr (Some x) \<Rightarrow> (\<exists>hash i resp body. i < w_calls s + unat k
           \<and> snd (w_answer s i (tx_request C hash)) = Inr resp
           \<and> json (json_from_slice L) resp TX = Inr body
           \<and> parse_tx_outcome body = Some x
           \<and> ((\<exists>t. jpath body [''result'', ''height''] = JString t \<and> parse_signed 64 t = Some (to_height x))
             \<or> as_i64 (jpath body [''result'', ''height'']) = Some (to_height x))))"
proof (cases "tx_hash_to_base64 L h")
  case (Inl e)
  then show ?thesis by (simp add: wait_for_tx_outcome_def)
next
  case (Inr hash)
  obtain q s' where q: "poll_loop (poll_outcome L C hash) (unat k) s = (q, s')"
    by (cases "poll_loop (poll_outcome L C hash) (unat k) s")
  have run: "wait_for_tx_outcome L C h k s = (Inr q, s')" by (simp add: wait_for_tx_outcome_def Inr q)
  note b = poll_loop_bounds [of "poll_outcome L C hash", OF poll_outcome_step q]
  show ?thesis
  proof (cases q)
    case None
    then show ?thesis using b by (simp add: run)
  next
    case (Some x)
    then obtain s0 where s0: "w_answer s0 = w_answer s" "w_calls s0 < w_calls s + unat k"
      "poll_outcome L C hash s0 = (Some x, s')" using b by auto
    obtain resp body where "snd (w_answer s0 (w_calls s0) (tx_request C hash)) = Inr resp"
      "json (json_from_slice L) resp TX = Inr body" "parse_tx_outcome body = Some x"
      by (rule poll_outcome_Some [OF s0(3)])
    then show ?thesis
      unfolding run prod.case sum.case Some option.case
      using b s0(1,2) parse_tx_outcome_height
      by (intro conjI exI [of _ hash] exI [of _ "w_calls s0"] exI [of _ resp] exI [of _ body]) auto
  qed
qed

text \<open>\<open>wait_for_transaction\<close> takes any answer with a \<open>result\<close> member for an inclusion, a null one too,
  which \<open>parse_tx_outcome\<close> knows is how a pending transaction is answered.\<close>

lemma null_result_counts_as_included:
  assumes "snd (w_answer s (w_calls s) (tx_request C hash)) = Inr resp"
    "read_text (utf8_lossy L) resp TX = Inr t"
    "decode_checked (json_from_slice L) (str_bytes t) Full = Inr (JObject [(''result'', JNull)])"
  shows "fst (poll_included L C hash s) = Some ()" "parse_tx_outcome (JObject [(''result'', JNull)]) = None"
proof -
  obtain d where "w_answer s (w_calls s) (tx_request C hash) = (d, Inr resp)"
    using assms(1) by (cases "w_answer s (w_calls s) (tx_request C hash)") auto
  then show "fst (poll_included L C hash s) = Some ()"
    using assms(2,3) by (simp add: poll_included_def send_def)
  show "parse_tx_outcome (JObject [(''result'', JNull)]) = None"
    by (simp add: parse_tx_outcome_def jindex_def)
qed

section \<open>Anchors\<close>

text \<open>C37: An events commitment is returned only when the anchor the node answered names exactly the
  subgrove and block asked, and its text decodes to 32 bytes, which are the commitment.\<close>

theorem events_commitment_names_block:
  assumes "events_commitment L C subgrove block s = (Inr (Some c), s')"
  shows "length c = 32 \<and> (\<exists>b anchor. cl_anchor L b = Inr anchor
    \<and> ea_subgrove_id anchor = subgrove \<and> ea_block_number anchor = block
    \<and> hex_decode L (ea_events_commitment anchor) = Inr c)"
proof -
  obtain b where "check_anchor L subgrove block b = Inr c"
    using assms by (auto simp: events_commitment_def rbind_Inr_iff split: prod.splits sum.splits option.splits list.splits)
  then show ?thesis
    by (auto simp: check_anchor_def rbind_Inr_iff map_err_Inr_iff split: if_splits)
qed

text \<open>Two transfers of the same message that are not the same transfer, when a DID may hold a line
  break or the memo may be missing.\<close>

lemma missing_memo_signs_as_empty: "transfer_message f t a None n = transfer_message f t a (Some []) n"
  by (simp add: transfer_message_def unwrap_or_def)

lemma recipient_with_line_break_ambiguous:
  "transfer_message f (''b'' @ nl # ''Amount: '' @ dec 1 @ nl # ''Memo: '') 2 (Some ''m'') n
     = transfer_message f ''b'' 1 (Some (nl # ''Amount: '' @ dec 2 @ nl # ''Memo: m'')) n"
  by (simp add: transfer_message_def lines_of_def unwrap_or_def)

section \<open>Witnesses\<close>

text \<open>A node that answers every query with a JSON null, and whose CheckTx accepts every transaction.\<close>

definition sample_chain :: chain_lib where
  "sample_chain = node.extend sample_node
     \<lparr>cl_documents = \<lparr>dl_to_string = (\<lambda>d. Inr (doc_id d))\<rparr>,
      cl_document_from_slice = (\<lambda>_. Inr sample_document), cl_document_from_value = (\<lambda>_. Inr sample_document),
      cl_comet_response = (\<lambda>_. Inr \<lparr>cr_jsonrpc = ''2.0'', cr_id = 1, cr_result =
        Some \<lparr>br_code = 0, br_data = [], br_log = [], br_hash = ''AB''\<rparr>, cr_error = None\<rparr>),
      cl_anchor = (\<lambda>_. Inr \<lparr>ea_subgrove_id = ''sg'', ea_block_number = 5,
        ea_events_commitment = hex_text (replicate 32 7)\<rparr>),
      cl_did_tx_to_string = (\<lambda>_. Inr []), cl_transaction_from_str = (\<lambda>_. Inl ''unknown''),
      cl_bincode = (\<lambda>_. Inr [1])\<rparr>"

lemma sample_chain_simps [simp]:
  "hex_encode sample_chain = hex_text" "hex_decode sample_chain = hex_bytes"
  "base64_decode sample_chain = hex_bytes" "json_from_slice sample_chain = (\<lambda>_. Inr JNull)"
  "cl_anchor sample_chain b = Inr \<lparr>ea_subgrove_id = ''sg'', ea_block_number = 5,
        ea_events_commitment = hex_text (replicate 32 7)\<rparr>"
  "json_to_string sample_chain = (\<lambda>_. ''null'')"
  by (simp_all add: sample_chain_def node.defs sample_node_def lib.defs sample_lib_def)

lemma sample_chain_crypto: "crypto_ok sample_chain"
proof -
  have same: "ed25519_public sample_chain = ed25519_public sample_lib"
    "ed25519_key sample_chain = ed25519_key sample_lib" "ed25519_sign sample_chain = ed25519_sign sample_lib"
    "ed25519_verify sample_chain = ed25519_verify sample_lib" "keccak256 sample_chain = keccak256 sample_lib"
    "secp256k1_secret sample_chain = secp256k1_secret sample_lib"
    "secp256k1_public sample_chain = secp256k1_public sample_lib"
    "secp256k1_key sample_chain = secp256k1_key sample_lib"
    "secp256k1_serialize sample_chain = secp256k1_serialize sample_lib"
    "secp256k1_signature sample_chain = secp256k1_signature sample_lib"
    "secp256k1_sign sample_chain = secp256k1_sign sample_lib"
    "secp256k1_verify sample_chain = secp256k1_verify sample_lib"
    by (simp_all only: sample_chain_def node.defs sample_node_def lib.defs chain_lib.simps node.simps lib.simps)
  from sample_crypto show ?thesis unfolding crypto_ok_def same .
qed

definition sample_client :: consensus_client where
  "sample_client = \<lparr>consensus_rpc_url = ''http://n'', consensus_api_url = Some ''http://a''\<rparr>"

definition null_response :: response where
  "null_response = \<lparr>resp_status = 200, resp_content_length = None, resp_pieces = []\<rparr>"

definition sample_state :: con_world where
  "sample_state = \<lparr>w_now = 0, w_epoch = 0, w_calls = 0, w_answer = (\<lambda>_ _. (0, Inr null_response)),
     lc_headers = [], con_tracker = [''did:willow:b'' \<mapsto> \<lparr>acc_base = 9, acc_used = {}, acc_handed = Map.empty\<rparr>]\<rparr>"

lemma null_json: "json (\<lambda>_. Inr JNull) null_response SMALL = Inr JNull"
  by (simp add: json_def Http_Body.read_def null_response_def check_json_def check_json_within_def
      scan_units_def)

lemma sample_next_nonce:
  "get_next_nonce sample_chain sample_client ''did:willow:a'' sample_state
     = (Inr 1, sample_state\<lparr>w_calls := 2, con_tracker := (con_tracker sample_state)
          (''did:willow:a'' \<mapsto> \<lparr>acc_base = 0, acc_used = {}, acc_handed = [1 \<mapsto> 0]\<rparr>)\<rparr>)"
proof -
  have abci: "abci_query_value sample_chain sample_client path sample_state
      = (Inl (Network (Fmt ''abci_query {path}: no response'' [Str path])), sample_state\<lparr>w_calls := 1\<rparr>)" for path
    by (simp add: abci_query_value_def send_def sample_state_def null_json abci_value_def)
  have base: "base_nonce sample_chain sample_client ''did:willow:a'' (sample_state\<lparr>w_calls := Suc 0\<rparr>)
      = (Inr 0, sample_state\<lparr>w_calls := 2\<rparr>)"
    by (simp add: base_nonce_def sample_client_def base_nonce_from_api_def send_def sample_state_def
        null_json zero_or_u64_def)
  have st: "Consensus.account_nonce_state sample_chain sample_client ''did:willow:a'' sample_state
      = (Inr \<lparr>ans_base = 0, ans_used = 0\<rparr>, sample_state\<lparr>w_calls := 2\<rparr>)"
    unfolding Consensus.account_nonce_state_def bind_io_def abci
    by (simp add: state_of_answer_def base)
  have refr: "refresh new_account (Some \<lparr>ans_base = 0, ans_used = 0\<rparr>) 0
      = \<lparr>acc_base = 0, acc_used = {}, acc_handed = Map.empty\<rparr>"
    by (simp add: refresh_def merge_state_def drop_passed_def new_account_def used_nonces_def bit_set_def Let_def)
  have acc: "account_of (con_tracker sample_state) ''did:willow:a'' = new_account"
    by (simp add: account_of_def sample_state_def)
  have now: "w_now sample_state = 0" by (simp add: sample_state_def)
  have "take_nonce (con_tracker sample_state) 0 ''did:willow:a'' \<lparr>ans_base = 0, ans_used = 0\<rparr>
      = ((con_tracker sample_state)
          (''did:willow:a'' \<mapsto> \<lparr>acc_base = 0, acc_used = {}, acc_handed = [1 \<mapsto> 0]\<rparr>), Inr 1)"
    by (subst take_first_free [where b = 0]) (simp_all add: acc refr free_in_def Let_def saturating_zero_one)
  then show ?thesis by (simp add: get_next_nonce_def st take_io_def now)
qed




theorem events_commitment_names_block_witness:
  "length (replicate 32 (7 :: u8)) = 32 \<and> (\<exists>b anchor. cl_anchor sample_chain b = Inr anchor
    \<and> ea_subgrove_id anchor = ''sg'' \<and> ea_block_number anchor = 5
    \<and> hex_decode sample_chain (ea_events_commitment anchor) = Inr (replicate 32 7))"
proof -
  define L where "L = sample_chain\<lparr>json_from_slice := \<lambda>_. Inr (JObject [(''result'',
     JObject [(''response'', JObject [(''value'', JString ''00'')])])])\<rparr>"
  have L: "base64_decode L = hex_bytes" "hex_decode L = hex_bytes" "cl_anchor L = cl_anchor sample_chain"
    "json_from_slice L = (\<lambda>_. Inr (JObject [(''result'',
     JObject [(''response'', JObject [(''value'', JString ''00'')])])]))"
    by (simp_all add: L_def)
  have anchor: "check_anchor L ''sg'' 5 b = Inr (replicate 32 7)" for b
    by (simp only: check_anchor_def L sample_chain_simps) (simp add: hex_bytes_text)
  have zero: "hex_bytes ''00'' = Inr [0]" by (simp add: is_hex_char_def hex_value_def)
  let ?v = "JObject [(''result'', JObject [(''response'', JObject [(''value'', JString ''00'')])])]"
  have js: "json (\<lambda>_. Inr ?v) null_response SMALL = Inr ?v"
    by (simp add: json_def Http_Body.read_def null_response_def check_json_def check_json_within_def
      scan_units_def)
  have val: "abci_value L path ?v = Inr (Some [0])" for path
    by (simp add: abci_value_def zero_or_u64_def jindex_def str_or_empty_def L(1) zero del: hex_bytes.simps)
  have q: "abci_query_value L sample_client path sample_state = (Inr (Some [0]), sample_state\<lparr>w_calls := 1\<rparr>)" for path
    unfolding abci_query_value_def L(4) by (simp add: send_def sample_state_def js val)
  have "fst (events_commitment L sample_client ''sg'' 5 sample_state) = Inr (Some (replicate 32 7))"
    by (simp only: events_commitment_def bind_io_def ret_def q prod.case sum.case option.case list.case
        anchor rbind_simps fst_conv)
  then obtain s' where "events_commitment L sample_client ''sg'' 5 sample_state = (Inr (Some (replicate 32 7)), s')"
    by (metis prod.collapse)
  from events_commitment_names_block [OF this] show ?thesis by (simp add: L_def)
qed

end
