(* ===== verification/Client.thy ===== *)
theory Client
  imports Consensus
begin

text \<open>
  The client (\<open>src/src/client.rs\<close>) and its helpers (\<open>src/src/utils.rs\<close>): identities and request
  signing, the requests to the API with their retries, the light client made on first use, and
  the builder.

  A URL is its text; the functions of the \<open>url\<close> crate are parameters, as are the arithmetic of
  \<open>f64\<close> and what \<open>serde\<close> decodes. The request body is what \<open>serde_json::to_vec\<close> gave of it. A
  client's state is \<open>client_world\<close>: the consensus client's, the identity set on it, the light
  client made on first use (its headers are \<open>lc_headers\<close>), the state roots seen, and the random
  bytes drawn so far from an arbitrary stream.
\<close>

section \<open>Third-party functions of the client\<close>

type_synonym url = str
type_synonym f64 = "64 word"

datatype url_host = Domain str | Ipv4 u32 | Ipv6 "128 word"

record 't api_response =
  ar_success :: bool
  ar_data :: "'t option"
  ar_error :: "str option"

record client_lib = chain_lib +
  ul_parse :: "str \<Rightarrow> (str, url) result"
  ul_join :: "url \<Rightarrow> str \<Rightarrow> (str, url) result"
  ul_host :: "url \<Rightarrow> url_host option"
  ul_port :: "url \<Rightarrow> nat option"
  ul_path :: "url \<Rightarrow> str"
  ul_query :: "url \<Rightarrow> str option"
  ul_set_port :: "url \<Rightarrow> nat option \<Rightarrow> (unit, url) result"
  ul_set_path :: "url \<Rightarrow> str \<Rightarrow> url"
  ul_set_query :: "url \<Rightarrow> str option \<Rightarrow> url"
  ul_method :: "str \<Rightarrow> bool"
  ul_header_value :: "str \<Rightarrow> (str, unit) result"
  f64_of_nat :: "nat \<Rightarrow> f64"
  f64_powi :: "f64 \<Rightarrow> int \<Rightarrow> f64"
  f64_mul :: "f64 \<Rightarrow> f64 \<Rightarrow> f64"
  f64_min :: "f64 \<Rightarrow> f64 \<Rightarrow> f64"
  f64_to_u64 :: "f64 \<Rightarrow> u64"
  ul_api_error :: "str \<Rightarrow> (str, str option) result"
  ul_api_value :: "bytes \<Rightarrow> (str, jvalue api_response) result"

section \<open>Helpers\<close>

definition parse_api_url :: "'z client_lib_scheme \<Rightarrow> str \<Rightarrow> url res" where
  "parse_api_url L text =
     (let t = trim_end_matches (CHR ''/'') text;
          t = (if \<not> prefix ''http://'' t \<and> \<not> prefix ''https://'' t then ''http://'' @ t else t) in
      rbind (map_err (\<lambda>e. Config (Fmt ''Invalid API URL: {}'' [Str e])) (ul_parse L t)) (\<lambda>url.
      Inr (if \<not> suffix ''/'' (ul_path L url) then ul_set_path L url (ul_path L url @ ''/'') else url)))"

record retry_config =
  max_attempts :: u32
  initial_delay :: duration
  max_delay :: duration
  exponential_base :: f64

definition as_millis :: "duration \<Rightarrow> nat" where
  "as_millis d = d div 10 ^ 6"

definition default_retry_config :: "'z client_lib_scheme \<Rightarrow> retry_config" where
  "default_retry_config L = \<lparr>max_attempts = 3, initial_delay = 100 * 10 ^ 6, max_delay = secs 10,
     exponential_base = f64_of_nat L 2\<rparr>"

definition calculate_backoff :: "'z client_lib_scheme \<Rightarrow> u32 \<Rightarrow> retry_config \<Rightarrow> duration" where
  "calculate_backoff L attempt config =
     (let delay_ms = f64_mul L (f64_of_nat L (as_millis (initial_delay config)))
            (f64_powi L (exponential_base config) (sint attempt));
          delay_ms = f64_to_u64 L (f64_min L delay_ms (f64_of_nat L (as_millis (max_delay config)))) in
      unat delay_ms * 10 ^ 6)"

definition validate_did :: "str \<Rightarrow> bool" where
  "validate_did did \<longleftrightarrow> prefix ''did:willow:'' did \<and> length (split_on (CHR '':'') did) \<ge> 4"

definition validate_hex_string :: "'z lib_scheme \<Rightarrow> str \<Rightarrow> nat option \<Rightarrow> bool" where
  "validate_hex_string L hex_str expected_length = (case hex_decode L hex_str of
       Inr b \<Rightarrow> (case expected_length of Some len \<Rightarrow> length b = len | None \<Rightarrow> True)
     | Inl _ \<Rightarrow> False)"

section \<open>The client and its state\<close>

record client_identity =
  ci_did :: str
  ci_private_key_hex :: str
  ci_public_key_id :: str
  ci_algorithm :: signature_algorithm

datatype verify_mode = Strict | GroveDbOnly | Disabled

record seen_state_root =
  ss_state_root :: bytes
  ss_block_range :: "u64 \<times> u64"
  ss_checkpoint_id :: bytes
  ss_observed_at_unix_secs :: u64

record client_world = con_world +
  cw_identity :: "client_identity option"
  cw_light_client_once :: "light_client_config option"
  cw_state_root_cache :: "str \<rightharpoonup> seen_state_root"
  cw_verify_mode :: verify_mode
  cw_random :: "nat \<Rightarrow> bytes"
  cw_draws :: nat

record willow_client =
  wc_timeout :: duration
  wc_default_headers :: "(str \<times> str) list"
  wc_base_url :: url
  wc_indexer_url :: "url option"
  wc_retry_config :: retry_config
  wc_light_client :: "light_client_config option"
  wc_consensus_client :: "consensus_client option"

definition DEFAULT_TIMEOUT :: duration where
  "DEFAULT_TIMEOUT = secs 30"

text \<open>The identity.\<close>

definition set_identity_with_algorithm ::
  "str \<Rightarrow> str \<Rightarrow> str \<Rightarrow> signature_algorithm \<Rightarrow> ('w client_world_scheme, unit) io" where
  "set_identity_with_algorithm did private_key_hex key_id algorithm = (\<lambda>s.
     ((), s\<lparr>cw_identity := Some \<lparr>ci_did = did, ci_private_key_hex = private_key_hex,
        ci_public_key_id = key_id, ci_algorithm = algorithm\<rparr>\<rparr>))"

definition set_identity :: "str \<Rightarrow> str \<Rightarrow> str \<Rightarrow> ('w client_world_scheme, unit) io" where
  "set_identity did private_key_hex key_id =
     set_identity_with_algorithm did private_key_hex key_id (detect_algorithm_from_did did)"

definition set_identity_from_did_info ::
  "'z lib_scheme \<Rightarrow> did_info \<Rightarrow> ('w client_world_scheme, unit) io" where
  "set_identity_from_did_info L info =
     set_identity_with_algorithm (di_did info) (hex_encode L (di_private_key info))
       (di_public_key_id info) (di_algorithm info)"

definition clear_identity :: "('w client_world_scheme, unit) io" where
  "clear_identity = (\<lambda>s. ((), s\<lparr>cw_identity := None\<rparr>))"

definition has_identity :: "'w client_world_scheme \<Rightarrow> bool" where
  "has_identity s \<longleftrightarrow> cw_identity s \<noteq> None"

definition get_did :: "'w client_world_scheme \<Rightarrow> str option" where
  "get_did s = map_option ci_did (cw_identity s)"

definition require_auth :: "('w client_world_scheme, unit res) io" where
  "require_auth = (\<lambda>s. (if \<not> has_identity s then Inl NotAuthenticated else Inr (), s))"

definition require_indexer_url :: "willow_client \<Rightarrow> url res" where
  "require_indexer_url W = ok_or (wc_indexer_url W)
     (Config (Fmt ''this route is served by indexers only: set indexer_url on the client builder'' []))"

definition require_consensus :: "willow_client \<Rightarrow> str \<Rightarrow> consensus_client res" where
  "require_consensus W operation = ok_or (wc_consensus_client W)
     (Config (Fmt ''{operation} submits a transaction and needs a consensus URL; set consensus_url(..) on the builder''
       [Str operation]))"

definition queries_go_to_api :: "willow_client \<Rightarrow> bool" where
  "queries_go_to_api W \<longleftrightarrow> wc_indexer_url W = None"

definition indexer_base_url :: "willow_client \<Rightarrow> url" where
  "indexer_base_url W = unwrap_or (wc_indexer_url W) (wc_base_url W)"

definition set_verify_mode :: "verify_mode \<Rightarrow> ('w client_world_scheme, unit) io" where
  "set_verify_mode mode = (\<lambda>s. ((), s\<lparr>cw_verify_mode := mode\<rparr>))"

section \<open>Signing a request\<close>

definition api_target :: "'z client_lib_scheme \<Rightarrow> willow_client \<Rightarrow> url \<Rightarrow> str" where
  "api_target L W url =
     (let target = ul_path L url @ (case ul_query L url of None \<Rightarrow> [] | Some q \<Rightarrow> ''?'' @ q);
          base = trim_end_matches (CHR ''/'') (ul_path L (wc_base_url W)) in
      if base \<noteq> [] \<and> prefix (base @ ''/'') target then drop (length base) target else target)"

text \<open>The older form, without read rights. A failure to sign sends the request unsigned; a clock
  before 1970 panics.\<close>

definition sign_request ::
  "'z lib_scheme \<Rightarrow> str \<Rightarrow> str \<Rightarrow> ('w client_world_scheme, (str \<times> str) list option res) io" where
  "sign_request L method path = (\<lambda>s. (case cw_identity s of
       None \<Rightarrow> Inr None
     | Some identity \<Rightarrow>
         (let now = fst (utc_now_io s) in
          if now < 0 then Inl (Panicked ''SystemTimeError'')
          else
            (let timestamp = dec (nat now div 10 ^ 9) in
             case sign_request_message L (legacy_request_message method path timestamp)
                    (ci_private_key_hex identity) (ci_algorithm identity) of
               Inl _ \<Rightarrow> Inr None
             | Inr signature \<Rightarrow> Inr (Some [(''X-DID'', ci_did identity),
                 (''X-Public-Key-ID'', ci_public_key_id identity), (''X-Signature'', signature),
                 (''X-Timestamp'', timestamp)]))), s))"

definition draw :: "('w client_world_scheme, bytes) io" where
  "draw = (\<lambda>s. (cw_random s (cw_draws s), s\<lparr>cw_draws := cw_draws s + 1\<rparr>))"

definition client_sign_with_nonce ::
  "'z client_lib_scheme \<Rightarrow> willow_client \<Rightarrow> str \<Rightarrow> url \<Rightarrow> bytes
   \<Rightarrow> ('w client_world_scheme, (str \<times> str) list option res) io" where
  "client_sign_with_nonce L W method url body = (\<lambda>s. case cw_identity s of
       None \<Rightarrow> (Inr None, s)
     | Some identity \<Rightarrow>
         bind_io draw (\<lambda>random.
         try_io (sign_request_with_nonce L random (ci_did identity) (ci_public_key_id identity)
             (ci_private_key_hex identity) (ci_algorithm identity) method (api_target L W url) body)
           (\<lambda>headers. ret (Inr (Some headers)))) s)"

section \<open>Requests to the API\<close>

definition path_segments :: "str \<Rightarrow> str list" where
  "path_segments target =
     (let path = (case split_on (CHR ''?'') target of [] \<Rightarrow> target | p # _ \<Rightarrow> p) in
      split_on (CHR ''/'') (trim_start_matches (CHR ''/'') path))"

definition answer_limit :: "str \<Rightarrow> nat" where
  "answer_limit path = (let segments = path_segments path in
     if segments \<noteq> [] \<and> hd segments = ''proof'' then PROOF
     else if segments \<noteq> [] \<and> hd segments \<in> {''query'', ''historical'', ''sql'', ''graphql'', ''a2a''}
     then LARGE
     else if segments \<in> {[''subgroves''], [''subgroves'', ''indexed''], [''indexers''], [''validators'']}
     then LARGE
     else if length segments = 2 \<and> hd segments = ''key-grants'' then LARGE
     else if length segments = 3 \<and> hd segments = ''did'' \<and> segments ! 2 = ''permissions'' then LARGE
     else SMALL)"

definition carries_read_rights :: "str \<Rightarrow> str \<Rightarrow> bool" where
  "carries_read_rights method target = (let segments = path_segments target in
     method = ''GET'' \<and> length segments = 3 \<and> hd segments \<in> {''data'', ''proof''}
     \<or> method = ''POST'' \<and> length segments = 2 \<and> hd segments \<in> {''query'', ''sql'', ''graphql''}
     \<or> method = ''POST'' \<and> segments = [''a2a''])"

text \<open>A request as it is sent: the signature's headers, the content type of a body, and the
  headers of every request of the client.\<close>

definition build_request ::
  "'z client_lib_scheme \<Rightarrow> willow_client \<Rightarrow> str \<Rightarrow> str \<Rightarrow> (str, bytes) result option \<Rightarrow> bool
   \<Rightarrow> ('w client_world_scheme, request res) io" where
  "build_request L W method path body authenticated =
     try_io (ret (map_err from_url_error (ul_join L (wc_base_url W) (trim_start_matches (CHR ''/'') path))))
       (\<lambda>url.
     if \<not> ul_method L method then ret (Inl (Config (Fmt ''Invalid HTTP method: {}'' [Str method])))
     else
       try_io (ret (case body of None \<Rightarrow> Inr None
             | Some r \<Rightarrow> map_sum Serialization Some r)) (\<lambda>body_bytes.
       try_io (if carries_read_rights method (api_target L W url)
               then client_sign_with_nonce L W method url (unwrap_or body_bytes [])
               else sign_request L method (api_target L W url)) (\<lambda>headers.
       if headers = None \<and> authenticated then ret (Inl NotAuthenticated)
       else ret (Inr (Send method url
              (unwrap_or headers [] @ (if body_bytes = None then [] else [(''content-type'', ''application/json'')])
               @ wc_default_headers W)
              (unwrap_or body_bytes []))))))"

definition is_success :: "nat \<Rightarrow> bool" where
  "is_success status \<longleftrightarrow> 200 \<le> status \<and> status \<le> 299"

definition text_message :: "str \<Rightarrow> message" where
  "text_message t = Fmt ''{}'' [Str t]"

definition error_of_answer :: "'z client_lib_scheme \<Rightarrow> nat \<Rightarrow> str \<Rightarrow> willow_error" where
  "error_of_answer L status response_text =
     (case ul_api_error L response_text of
        Inr (Some error_msg) \<Rightarrow>
          (if status = 404 then NotFound (text_message error_msg)
           else if status = 401 then Authentication (text_message error_msg)
           else if status = 403 then PermissionDenied (text_message error_msg)
           else Http status (text_message error_msg))
      | Inr None \<Rightarrow> Http status (Fmt ''Unknown error'' [])
      | Inl _ \<Rightarrow> Http status (text_message response_text))"

definition read_answer ::
  "'z client_lib_scheme \<Rightarrow> (bytes \<Rightarrow> (str, 't) result) \<Rightarrow> str \<Rightarrow> response \<Rightarrow> 't res" where
  "read_answer L decode path resp =
     rbind (read_text (utf8_lossy L) resp (answer_limit path)) (\<lambda>response_text.
     if is_success (resp_status resp) then decode_checked decode (str_bytes response_text) Full
     else Inl (error_of_answer L (resp_status resp) response_text))"

definition make_request ::
  "'z client_lib_scheme \<Rightarrow> willow_client \<Rightarrow> (bytes \<Rightarrow> (str, 't) result) \<Rightarrow> str \<Rightarrow> str
   \<Rightarrow> (str, bytes) result option \<Rightarrow> bool \<Rightarrow> ('w client_world_scheme, 't res) io" where
  "make_request L W decode method path body authenticated =
     try_io (build_request L W method path body authenticated) (\<lambda>req s.
     case send req s of
       (Inl e, s) \<Rightarrow> (Inl (from_reqwest e), s)
     | (Inr resp, s) \<Rightarrow> (read_answer L decode path resp, s))"

text \<open>The attempts, from the one numbered \<open>attempt\<close> on with \<open>left\<close> to make. An answer too large, too
  complex or undecodable is not asked for again.\<close>

fun not_retried :: "willow_error \<Rightarrow> bool" where
  "not_retried (ResponseTooLarge _) = True"
| "not_retried (ResponseTooComplex _) = True"
| "not_retried (Serialization _) = True"
| "not_retried _ = False"

fun retry_from ::
  "'z client_lib_scheme \<Rightarrow> retry_config \<Rightarrow> ('w world_scheme, 't res) io \<Rightarrow> nat \<Rightarrow> nat \<Rightarrow> willow_error option
   \<Rightarrow> ('w world_scheme, 't res) io" where
  "retry_from L config attempt_io attempt 0 last_error =
     ret (Inl (unwrap_or last_error (Panicked ''called `Option::unwrap()` on a `None` value'')))"
| "retry_from L config attempt_io attempt (Suc left) last_error =
     bind_io attempt_io (\<lambda>r. case r of
       Inr result \<Rightarrow> ret (Inr result)
     | Inl e \<Rightarrow>
         if not_retried e then ret (Inl e)
         else
           bind_io (if attempt < unat (max_attempts config) - 1
                    then sleep_io (calculate_backoff L (of_nat attempt) config) else ret ())
             (\<lambda>_. retry_from L config attempt_io (attempt + 1) left (Some e)))"

definition client_request ::
  "'z client_lib_scheme \<Rightarrow> willow_client \<Rightarrow> (bytes \<Rightarrow> (str, 't) result) \<Rightarrow> str \<Rightarrow> str
   \<Rightarrow> (str, bytes) result option \<Rightarrow> bool \<Rightarrow> ('w client_world_scheme, 't res) io" where
  "client_request L W decode method path body authenticated =
     retry_from L (wc_retry_config W) (make_request L W decode method path body authenticated) 0
       (unat (max_attempts (wc_retry_config W))) None"

text \<open>\<open>get_root_hash\<close> and \<open>get_root_hash_local\<close>.\<close>

definition root_hash_at ::
  "'z client_lib_scheme \<Rightarrow> willow_client \<Rightarrow> str \<Rightarrow> ('w client_world_scheme, str res) io" where
  "root_hash_at L W path =
     try_io (client_request L W (ul_api_value L) ''GET'' path None False) (\<lambda>response.
     ret (ok_or (Option.bind (Option.bind (ar_data response) (\<lambda>data. jget data ''root_hash'')) as_str)
            (Custom (Fmt ''No root hash in response'' []))))"

definition get_root_hash ::
  "'z client_lib_scheme \<Rightarrow> willow_client \<Rightarrow> ('w client_world_scheme, str res) io" where
  "get_root_hash L W = root_hash_at L W ''/state/root-hash/verified''"

definition get_root_hash_local ::
  "'z client_lib_scheme \<Rightarrow> willow_client \<Rightarrow> ('w client_world_scheme, str res) io" where
  "get_root_hash_local L W = root_hash_at L W ''/state/root-hash''"

section \<open>The light client made on first use\<close>

definition is_loopback :: "url_host \<Rightarrow> bool" where
  "is_loopback host = (case host of
       Domain domain \<Rightarrow> map to_ascii_lower domain = ''localhost''
     | Ipv4 ip \<Rightarrow> ip = 0x7F000001
     | Ipv6 ip \<Rightarrow> ip = 1)"

definition local_consensus_rpc :: "'z client_lib_scheme \<Rightarrow> url \<Rightarrow> str option" where
  "local_consensus_rpc L api =
     Option.bind (ul_host L api) (\<lambda>host.
     if \<not> is_loopback host \<or> ul_port L api \<noteq> Some 3031 then None
     else (case ul_set_port L api (Some 26657) of
         Inl _ \<Rightarrow> None
       | Inr rpc \<Rightarrow> Some (trim_end_matches (CHR ''/'') (ul_set_query L (ul_set_path L rpc []) None))))"

definition first_use_endpoint :: "'z client_lib_scheme \<Rightarrow> willow_client \<Rightarrow> str res" where
  "first_use_endpoint L W = (case wc_consensus_client W of
       Some consensus \<Rightarrow> Inr (trim_end_matches (CHR ''/'') (consensus_rpc_url consensus))
     | None \<Rightarrow> ok_or (local_consensus_rpc L (wc_base_url W))
         (Config (Fmt ''a verified read checks its proof against the app hash a consensus node reports, and the SDK trusts that node: set consensus_url or light_client_config on the builder (only an API on a loopback host at port 3031 implies its local node at port 26657)'' [])))"

definition first_use_config :: "str \<Rightarrow> light_client_config" where
  "first_use_config rpc_endpoint = (config_builder ''willow-chain'')
     \<lparr>validator_endpoints := [rpc_endpoint], trust_threshold := (2, 3), trusting_period := secs 86400,
      max_clock_drift := secs 30, rpc_timeout := secs 30, auto_sync := False\<rparr>"

text \<open>A new light client holds no headers; it is kept only once it initialized.\<close>

definition create_light_client ::
  "'z client_lib_scheme \<Rightarrow> willow_client \<Rightarrow> ('w client_world_scheme, light_client_config res) io" where
  "create_light_client L W =
     try_io (ret (first_use_endpoint L W)) (\<lambda>rpc_endpoint.
     try_io (ret (new_light_client (lib.truncate L) (first_use_config rpc_endpoint))) (\<lambda>lc.
     try_io (\<lambda>s. initialize_with_trust_on_first_use (lib.truncate L) lc (s\<lparr>lc_headers := []\<rparr>)) (\<lambda>_ s.
     (Inr lc, s\<lparr>cw_light_client_once := Some lc\<rparr>))))"

definition get_or_create_light_client ::
  "'z client_lib_scheme \<Rightarrow> willow_client \<Rightarrow> ('w client_world_scheme, light_client_config res) io" where
  "get_or_create_light_client L W = (case wc_light_client W of
       Some lc \<Rightarrow> ret (Inr lc)
     | None \<Rightarrow> (\<lambda>s. case cw_light_client_once s of
           Some lc \<Rightarrow> (Inr lc, s)
         | None \<Rightarrow> create_light_client L W s))"

section \<open>The builder\<close>

record client_builder =
  cb_api_url :: "str option"
  cb_consensus_url :: "str option"
  cb_indexer_url :: "str option"
  cb_api_key :: "str option"
  cb_timeout :: duration
  cb_retry_config :: retry_config
  cb_light_client_config :: "light_client_config option"

definition client_builder :: "'z client_lib_scheme \<Rightarrow> client_builder" where
  "client_builder L = \<lparr>cb_api_url = None, cb_consensus_url = None, cb_indexer_url = None,
     cb_api_key = None, cb_timeout = DEFAULT_TIMEOUT, cb_retry_config = default_retry_config L,
     cb_light_client_config = None\<rparr>"

definition key_headers :: "'z client_lib_scheme \<Rightarrow> str option \<Rightarrow> (str \<times> str) list res" where
  "key_headers L api_key = (case api_key of
       None \<Rightarrow> Inr []
     | Some key \<Rightarrow>
         map_err (\<lambda>e. Config (Fmt ''invalid API key (non-ASCII header value): {}'' [Str e]))
           (map_sum id (\<lambda>_. [(''X-API-Key'', key)]) (ul_header_value L key)))"

definition build_client :: "'z client_lib_scheme \<Rightarrow> client_builder \<Rightarrow> willow_client res" where
  "build_client L B =
     rbind (parse_api_url L (unwrap_or (cb_api_url B) ''http://localhost:3031'')) (\<lambda>api.
     rbind (case cb_indexer_url B of None \<Rightarrow> Inr None
         | Some u \<Rightarrow> map_sum id Some (parse_api_url L u)) (\<lambda>indexer.
     rbind (key_headers L (cb_api_key B)) (\<lambda>headers.
     rbind (map_err (\<lambda>e. Config (Fmt ''Failed to build HTTP client: {}'' [Str e]))
              (http_client_build L (cb_timeout B))) (\<lambda>_.
     rbind (case cb_light_client_config B of None \<Rightarrow> Inr None
         | Some config \<Rightarrow> map_sum id Some (new_light_client (lib.truncate L) config)) (\<lambda>lc.
     Inr \<lparr>wc_timeout = cb_timeout B, wc_default_headers = headers, wc_base_url = api,
       wc_indexer_url = indexer, wc_retry_config = cb_retry_config B, wc_light_client = lc,
       wc_consensus_client = map_option (\<lambda>u. \<lparr>consensus_rpc_url = u, consensus_api_url = Some api\<rparr>)
         (cb_consensus_url B)\<rparr>)))))"


section \<open>Retries\<close>

text \<open>\<open>k\<close> attempts that failed, each one retried after its pause.\<close>

inductive retried ::
  "'z client_lib_scheme \<Rightarrow> retry_config \<Rightarrow> ('w world_scheme, 't res) io \<Rightarrow> nat
    \<Rightarrow> 'w world_scheme \<Rightarrow> 'w world_scheme \<Rightarrow> bool"
  for L config m where
  none: "retried L config m 0 s s"
| again: "\<lbrakk>retried L config m k s t; m t = (Inl e, u); \<not> not_retried e; k < unat (max_attempts config) - 1\<rbrakk>
    \<Longrightarrow> retried L config m (Suc k) s (snd (sleep_io (calculate_backoff L (of_nat k) config) u))"

lemma retry_from_exact:
  assumes "retry_from L config m k left last_error s = (r, s')" "retried L config m k s0 s"
    and "k + left = unat (max_attempts config)" "0 < left"
  shows "\<exists>j t. j < unat (max_attempts config) \<and> retried L config m j s0 t \<and> m t = (r, s')
      \<and> (case r of Inr _ \<Rightarrow> True | Inl e \<Rightarrow> not_retried e \<or> j = unat (max_attempts config) - 1)"
  using assms
proof (induction left arbitrary: k last_error s)
  case (Suc left)
  obtain x u where m: "m s = (x, u)" by fastforce
  show ?case
  proof (cases x)
    case (Inr y)
    with m Suc.prems show ?thesis by (intro exI [of _ k] exI [of _ s]) auto
  next
    case (Inl e)
    show ?thesis
    proof (cases "not_retried e")
      case True
      with m Inl Suc.prems show ?thesis by (intro exI [of _ k] exI [of _ s]) auto
    next
      case False
      show ?thesis
      proof (cases left)
        case 0
        with Suc.prems(3) have k: "k = unat (max_attempts config) - 1" by simp
        from Suc.prems(1) 0 m Inl False k have "r = Inl e" "s' = u" by (simp_all add: unwrap_or_def)
        with m Inl k Suc.prems(2,4) Suc.prems(3) show ?thesis by (intro exI [of _ k] exI [of _ s]) simp
      next
        case (Suc l)
        let ?t = "snd (sleep_io (calculate_backoff L (of_nat k) config) u)"
        have k: "k < unat (max_attempts config) - 1" using Suc Suc.prems by linarith
        have "retry_from L config m (k + 1) left (Some e) ?t = (r, s')"
          using Suc.prems(1) m Inl False k by (simp add: sleep_io_def)
        moreover have "retried L config m (k + 1) s0 ?t"
          using retried.again [OF Suc.prems(2)] m Inl False k by simp
        ultimately show ?thesis using Suc.IH Suc.prems Suc by simp
      qed
    qed
  qed
qed simp

text \<open>C39: a request to the API is what one attempt gave, the first that succeeded or failed with
  an error that is not asked for again, or else the last of the attempts allowed; every attempt
  before it failed and was followed by its pause.\<close>

theorem request_is_its_deciding_attempt:
  assumes "client_request L W decode method path body auth s = (r, s')"
    and "max_attempts (wc_retry_config W) \<noteq> 0"
  shows "\<exists>k t. k < unat (max_attempts (wc_retry_config W))
    \<and> retried L (wc_retry_config W) (make_request L W decode method path body auth) k s t
    \<and> make_request L W decode method path body auth t = (r, s')
    \<and> (case r of Inr _ \<Rightarrow> True
        | Inl e \<Rightarrow> not_retried e \<or> k = unat (max_attempts (wc_retry_config W)) - 1)"
  using retry_from_exact [OF assms(1) [unfolded client_request_def] retried.none] assms(2)
  by (simp add: word_greater_zero_iff unat_gt_0)

lemma no_attempts_panic:
  "max_attempts (wc_retry_config W) = 0 \<Longrightarrow> client_request L W decode method path body auth s
     = (Inl (Panicked ''called `Option::unwrap()` on a `None` value''), s)"
  by (simp add: client_request_def unwrap_or_def)

section \<open>What a signed request carries\<close>

lemma sign_request_with_nonce_headers:
  "sign_request_with_nonce L random did key_id (hex_encode L k) algorithm method target body s = (Inr hs, s')
   \<longleftrightarrow> s' = s \<and> 0 \<le> fst (utc_now_io s) \<and> (\<exists>sig. let ts = dec (nat (fst (utc_now_io s)) div 10 ^ 9) in
     sign_request_message L (signed_request_message L did key_id method target ts
         (new_request_nonce L random) body) (hex_encode L k) algorithm = Inr sig
     \<and> hs = [(''X-DID'', did), (''X-Public-Key-ID'', key_id), (''X-Signature'', sig),
           (''X-Timestamp'', ts), (''X-Nonce'', new_request_nonce L random)])"
  by (auto simp: sign_request_with_nonce_def sign_request_with_nonce_at_def utc_now_io_def Let_def rbind_Inr_iff)

lemma request_signature_verifies:
  assumes "hex_ok L" "crypto_ok L" "sign_request_message L m (hex_encode L k) algorithm = Inr r"
  shows "verify_signature L m r (hex_encode L (public_key_of L algorithm k)) algorithm = Inr True"
proof -
  obtain s where s: "sign_challenge L m (hex_encode L k) algorithm = Inr s"
    and r: "r = (case algorithm of Secp256k1_alg \<Rightarrow> ''0x'' @ s | Ed25519_alg \<Rightarrow> s)"
    using assms(3) by (auto simp: sign_request_message_def rbind_Inr_iff)
  from r have "r = s \<or> r = ''0x'' @ s" by (cases algorithm) simp_all
  then show ?thesis by (rule sign_verify [OF assms(1,2) s])
qed

lemma build_request_sends:
  assumes "build_request L W method path body auth s = (Inr req, s')"
  obtains url body_bytes hs where
    "(if carries_read_rights method (api_target L W url)
      then client_sign_with_nonce L W method url (unwrap_or body_bytes [])
      else sign_request L method (api_target L W url)) s = (Inr hs, s')"
    "req = Send method url (unwrap_or hs []
        @ (if body_bytes = None then [] else [(''content-type'', ''application/json'')])
        @ wc_default_headers W) (unwrap_or body_bytes [])"
    "hs = None \<Longrightarrow> \<not> auth"
proof -
  obtain url body_bytes hs t where
    headers: "(if carries_read_rights method (api_target L W url)
      then client_sign_with_nonce L W method url (unwrap_or body_bytes [])
      else sign_request L method (api_target L W url)) s = (Inr hs, t)"
    and last: "(if hs = None \<and> auth then ret (Inl NotAuthenticated)
       else ret (Inr (Send method url
              (unwrap_or hs [] @ (if body_bytes = None then [] else [(''content-type'', ''application/json'')])
               @ wc_default_headers W)
              (unwrap_or body_bytes [])))) t = (Inr req, s')"
  proof (cases "ul_method L method")
    case True
    with assms obtain url body_bytes hs t where
      "(if carries_read_rights method (api_target L W url)
        then client_sign_with_nonce L W method url (unwrap_or body_bytes [])
        else sign_request L method (api_target L W url)) s = (Inr hs, t)"
      "(if hs = None \<and> auth then ret (Inl NotAuthenticated)
        else ret (Inr (Send method url
              (unwrap_or hs [] @ (if body_bytes = None then [] else [(''content-type'', ''application/json'')])
               @ wc_default_headers W)
              (unwrap_or body_bytes [])))) t = (Inr req, s')"
      by (simp only: build_request_def try_ret_Inr_iff not_True_eq_False if_False)
        (simp only: try_io_Inr_iff, blast)
    then show thesis by (rule that)
  next
    case False
    with assms show thesis unfolding build_request_def try_ret_Inr_iff by simp
  qed
  have auth: "\<not> (hs = None \<and> auth)" using last by (cases "hs = None \<and> auth") simp_all
  have out: "t = s'"
    "req = Send method url (unwrap_or hs []
        @ (if body_bytes = None then [] else [(''content-type'', ''application/json'')])
        @ wc_default_headers W) (unwrap_or body_bytes [])"
    using last unfolding if_not_P [OF auth] ret_Inr_iff by simp_all
  show thesis
    by (rule that [OF headers [unfolded out(1)] out(2)]) (use auth in blast)
qed

text \<open>C38: A read of subgrove data, sent with an identity set, carries a signature over exactly what is
  sent: the method, the path and query as the API receives them, the body's bytes and the time,
  under a nonce of random bytes drawn for this request alone, and it verifies under the identity's
  public key.\<close>

theorem read_signed_over_what_is_sent:
  assumes "hex_ok L" "crypto_ok L" "cw_identity s = Some i"
    and "ci_private_key_hex i = hex_encode L k"
    and "build_request L W method path body auth s = (Inr req, s')"
    and "req = Send method' url headers sent" "carries_read_rights method (api_target L W url)"
  shows "method' = method \<and> cw_draws s' = cw_draws s + 1
    \<and> map_of headers ''X-DID'' = Some (ci_did i)
    \<and> map_of headers ''X-Nonce'' = Some (hex_encode L (cw_random s (cw_draws s)))
    \<and> (\<exists>sig ts. map_of headers ''X-Signature'' = Some sig \<and> map_of headers ''X-Timestamp'' = Some ts
        \<and> verify_signature L (signed_request_message L (ci_did i) (ci_public_key_id i) method
              (api_target L W url) ts (hex_encode L (cw_random s (cw_draws s))) sent)
            sig (hex_encode L (public_key_of L (ci_algorithm i) k)) (ci_algorithm i) = Inr True)"
proof -
  obtain body_bytes hs where
    sig: "client_sign_with_nonce L W method url (unwrap_or body_bytes []) s = (Inr hs, s')"
    and req: "method' = method" "sent = unwrap_or body_bytes []"
      "headers = unwrap_or hs [] @ (if body_bytes = None then [] else [(''content-type'', ''application/json'')])
               @ wc_default_headers W"
    by (rule build_request_sends [OF assms(5)]) (use assms(6,7) in auto)
  let ?random = "cw_random s (cw_draws s)"
  obtain h where hs: "hs = Some h" and run: "sign_request_with_nonce L ?random (ci_did i) (ci_public_key_id i)
     (hex_encode L k) (ci_algorithm i) method (api_target L W url) sent (s\<lparr>cw_draws := cw_draws s + 1\<rparr>) = (Inr h, s')"
    using sig assms(3,4) req(2)
    by (auto simp: client_sign_with_nonce_def draw_def split: prod.splits sum.splits)
  from run [unfolded sign_request_with_nonce_headers Let_def new_request_nonce_def]
  obtain sg where s': "s' = s\<lparr>cw_draws := cw_draws s + 1\<rparr>"
    and sg: "sign_request_message L (signed_request_message L (ci_did i) (ci_public_key_id i) method
        (api_target L W url) (dec (nat (fst (utc_now_io (s\<lparr>cw_draws := cw_draws s + 1\<rparr>))) div 10 ^ 9))
        (hex_encode L ?random) sent) (hex_encode L k) (ci_algorithm i) = Inr sg"
    and h: "h = [(''X-DID'', ci_did i), (''X-Public-Key-ID'', ci_public_key_id i), (''X-Signature'', sg),
       (''X-Timestamp'', dec (nat (fst (utc_now_io (s\<lparr>cw_draws := cw_draws s + 1\<rparr>))) div 10 ^ 9)),
       (''X-Nonce'', hex_encode L ?random)]"
    by blast
  show ?thesis
    using request_signature_verifies [OF assms(1,2) sg] by (simp add: req hs h s' unwrap_or_def)
qed

section \<open>Where the light client reads\<close>

text \<open>Every light client made on first use reads from the consensus node the caller configured or,
  when there is none, the one a loopback API implies.\<close>

definition first_use_ok ::
  "'z client_lib_scheme \<Rightarrow> willow_client \<Rightarrow> 'w client_world_scheme \<Rightarrow> bool" where
  "first_use_ok L W s \<longleftrightarrow> (\<forall>C. cw_light_client_once s = Some C
     \<longrightarrow> (\<exists>rpc. first_use_endpoint L W = Inr rpc \<and> C = first_use_config rpc))"

text \<open>What verified reads trust.\<close>

definition trusted_by_caller ::
  "'z client_lib_scheme \<Rightarrow> willow_client \<Rightarrow> light_client_config \<Rightarrow> bool" where
  "trusted_by_caller L W C \<longleftrightarrow> (case wc_light_client W of
       Some configured \<Rightarrow> C = configured
     | None \<Rightarrow> (case wc_consensus_client W of
         Some consensus \<Rightarrow> C = first_use_config (trim_end_matches (CHR ''/'') (consensus_rpc_url consensus))
       | None \<Rightarrow> (\<exists>host rpc. ul_host L (wc_base_url W) = Some host \<and> is_loopback host
           \<and> ul_port L (wc_base_url W) = Some 3031 \<and> local_consensus_rpc L (wc_base_url W) = Some rpc
           \<and> C = first_use_config rpc)))"

lemma map_sum_Inr: "map_sum f g r = Inr y \<Longrightarrow> \<exists>x. r = Inr x \<and> y = g x"
  by (cases r) auto

lemma new_light_client_Inr: "new_light_client L C = Inr C' \<Longrightarrow> C' = C"
  by (auto simp: new_light_client_def map_err_Inr_iff split: if_splits sum.splits
      dest!: map_sum_Inr)

lemma first_use_trusted:
  "wc_light_client W = None \<Longrightarrow> first_use_endpoint L W = Inr rpc \<Longrightarrow> trusted_by_caller L W (first_use_config rpc)"
  by (auto simp: trusted_by_caller_def first_use_endpoint_def ok_or_Inr_iff local_consensus_rpc_def
      split: option.splits if_splits bind_splits)

lemma create_light_client_once:
  assumes "create_light_client L W s = (r, s')" "cw_light_client_once s = None"
  shows "case r of Inr C \<Rightarrow> cw_light_client_once s' = Some C
        \<and> (\<exists>rpc. first_use_endpoint L W = Inr rpc \<and> C = first_use_config rpc)
   | Inl e \<Rightarrow> True"
proof (cases r)
  case (Inr C)
  with assms(1) obtain rpc lc where "first_use_endpoint L W = Inr rpc"
    "new_light_client (lib.truncate L) (first_use_config rpc) = Inr lc" "C = lc" "cw_light_client_once s' = Some lc"
    by (simp only: create_light_client_def try_ret_Inr_iff) (auto simp: try_io_Inr_iff simp del: try_io_simp)
  with Inr show ?thesis using new_light_client_Inr by fastforce
qed simp

lemma frame_fetch_block [frame_intros]: "frame (fetch_block_from L e endpoints height)"
  by (induction endpoints arbitrary: e)
    (simp_all only: fetch_block_from.simps fetch_block_from_endpoint_def Let_def, (intro frame_intros; simp)+)

lemma client_fields_of_more:
  assumes "world.more s' = world.more (s :: 'z client_world_scheme)"
  shows "cw_light_client_once s' = cw_light_client_once s" "cw_identity s' = cw_identity s"
    "cw_draws s' = cw_draws s" "cw_random s' = cw_random s" "con_tracker s' = con_tracker s"
    "lc_headers s' = lc_headers s" "cw_state_root_cache s' = cw_state_root_cache s"
    "cw_verify_mode s' = cw_verify_mode s"
  using assms by (cases s; cases s'; simp)+

lemma create_light_client_failed:
  assumes "create_light_client L W s = (Inl e, s')"
  shows "cw_light_client_once s' = cw_light_client_once s"
proof (cases "first_use_endpoint L W")
  case (Inr rpc)
  show ?thesis
  proof (cases "new_light_client (lib.truncate L) (first_use_config rpc)")
    case (Inr lc)
    with assms \<open>first_use_endpoint L W = Inr rpc\<close>
    have "initialize_with_trust_on_first_use (lib.truncate L) lc (s\<lparr>lc_headers := []\<rparr>) = (Inl e, s')"
      by (auto simp: create_light_client_def split: prod.splits sum.splits)
    then have "world.more s' = world.more (s\<lparr>lc_headers := []\<rparr>)"
      using frameD [OF frame_fetch_block]
      by (fastforce simp: initialize_with_trust_on_first_use_def fetch_block_at_height_def
          split: if_splits prod.splits sum.splits)
    from client_fields_of_more(1) [OF this] show ?thesis by simp
  qed (use assms Inr in \<open>simp add: create_light_client_def\<close>)
qed (use assms in \<open>simp add: create_light_client_def\<close>)

text \<open>The light client a verified read checks its proof with is the one configured, or reads from
  the consensus URL the caller set; with neither, only an API on a loopback host at port 3031
  has one, reading from the same host. A light client that failed to initialize is not kept.\<close>

lemma get_or_create_trusted:
  assumes "get_or_create_light_client L W s = (r, s')" "first_use_ok L W s"
  shows "first_use_ok L W s' \<and> (case r of
      Inr C \<Rightarrow> trusted_by_caller L W C
    | Inl e \<Rightarrow> wc_light_client W = None \<and> cw_light_client_once s' = None)"
proof (cases "wc_light_client W")
  case (Some lc)
  with assms show ?thesis by (auto simp: get_or_create_light_client_def trusted_by_caller_def)
next
  case None
  note configured = None
  show ?thesis
  proof (cases "cw_light_client_once s")
    case (Some lc)
    with assms obtain rpc where "first_use_endpoint L W = Inr rpc" "lc = first_use_config rpc"
      by (auto simp: first_use_ok_def)
    with first_use_trusted [OF configured] Some configured assms show ?thesis
      by (auto simp: get_or_create_light_client_def)
  next
    case None
    with assms configured have c: "create_light_client L W s = (r, s')"
      by (simp add: get_or_create_light_client_def)
    show ?thesis
    proof (cases r)
      case (Inl e)
      with create_light_client_failed [OF c [unfolded Inl]] None configured show ?thesis
        by (simp add: first_use_ok_def)
    next
      case (Inr C)
      with create_light_client_once [OF c None] obtain rpc where
        "cw_light_client_once s' = Some C" "first_use_endpoint L W = Inr rpc" "C = first_use_config rpc"
        by auto
      with first_use_trusted [OF configured] Inr show ?thesis by (simp add: first_use_ok_def)
    qed
  qed
qed

section \<open>What a request leaves alone\<close>

text \<open>A request changes the network, the clock and the random bytes drawn, nothing else of a client.\<close>

named_theorems keeps_intros \<open>operations that keep the client's own state\<close>

definition keeps_client :: "('z client_world_scheme, 'a) io \<Rightarrow> bool" where
  "keeps_client m \<longleftrightarrow> (\<forall>s. let s' = snd (m s) in
     cw_light_client_once s' = cw_light_client_once s \<and> lc_headers s' = lc_headers s
     \<and> cw_identity s' = cw_identity s \<and> cw_state_root_cache s' = cw_state_root_cache s
     \<and> cw_verify_mode s' = cw_verify_mode s \<and> con_tracker s' = con_tracker s)"

lemma keeps_clientD:
  assumes "keeps_client m" "m s = (r, s')"
  shows "cw_light_client_once s' = cw_light_client_once s" "lc_headers s' = lc_headers s"
    "cw_identity s' = cw_identity s" "cw_state_root_cache s' = cw_state_root_cache s"
    "cw_verify_mode s' = cw_verify_mode s" "con_tracker s' = con_tracker s"
  using assms by (auto simp: keeps_client_def Let_def dest: spec [where x = s])

lemma keeps_frame: "frame m \<Longrightarrow> keeps_client m"
  unfolding keeps_client_def Let_def by (metis client_fields_of_more frame_def)

lemmas keeps_frames [keeps_intros] = frame_intros [THEN keeps_frame]

lemma keeps_bind [keeps_intros]:
  assumes "keeps_client m" "\<And>x. keeps_client (f x)"
  shows "keeps_client (bind_io m f)"
proof -
  have "snd (bind_io m f s) = snd (f (fst (m s)) (snd (m s)))" for s by (simp add: case_prod_beta)
  then show ?thesis using assms unfolding keeps_client_def Let_def by simp
qed

lemma keeps_ret: "keeps_client (ret x)"
  by (simp add: keeps_client_def)

lemma try_io_bind: "try_io m f = bind_io m (\<lambda>r. case r of Inl e \<Rightarrow> ret (Inl e) | Inr x \<Rightarrow> f x)"
  by (rule ext) (auto split: prod.splits sum.splits)

lemma keeps_try [keeps_intros]:
  "keeps_client m \<Longrightarrow> (\<And>x. keeps_client (f x)) \<Longrightarrow> keeps_client (try_io m f)"
  unfolding try_io_bind by (rule keeps_bind) (auto simp: keeps_ret split: sum.split)

lemma keeps_draw [keeps_intros]: "keeps_client draw"
  by (simp add: keeps_client_def draw_def)

lemma keeps_sign_request [keeps_intros]: "keeps_client (sign_request L method path)"
  by (simp add: keeps_client_def sign_request_def)

lemma keeps_signed [keeps_intros]:
  "keeps_client (sign_request_with_nonce L random did key_id private_key algorithm method target body)"
  unfolding sign_request_with_nonce_def by (intro keeps_bind keeps_frame frame_intros)

lemma keeps_client_sign [keeps_intros]: "keeps_client (client_sign_with_nonce L W method url body)"
proof -
  have "keeps_client (bind_io draw (\<lambda>random.
         try_io (sign_request_with_nonce L random (ci_did i) (ci_public_key_id i)
             (ci_private_key_hex i) (ci_algorithm i) method (api_target L W url) body)
           (\<lambda>headers. ret (Inr (Some headers)))))" for i
    by (intro keeps_bind keeps_try keeps_draw keeps_signed keeps_ret)
  then show ?thesis
    unfolding keeps_client_def client_sign_with_nonce_def Let_def by (auto split: option.split)
qed

lemma keeps_send_read: "keeps_client (\<lambda>s. case send req s of (Inl e, t) \<Rightarrow> (f e, t) | (Inr resp, t) \<Rightarrow> (g resp, t))"
  by (rule keeps_frame) (rule frame_send_case)

lemma keeps_if: "keeps_client m \<Longrightarrow> keeps_client n \<Longrightarrow> keeps_client (if b then m else n)"
  by simp

lemma keeps_make_request [keeps_intros]: "keeps_client (make_request L W decode method path body auth)"
  unfolding make_request_def build_request_def
  by (intro keeps_try keeps_if keeps_ret keeps_client_sign keeps_sign_request keeps_send_read)

lemma keeps_retry: "keeps_client m \<Longrightarrow> keeps_client (retry_from L config m k left e)"
proof (induction left arbitrary: k e)
  case (Suc left)
  have "keeps_client (sleep_io d)" for d by (intro keeps_frame frame_intros)
  with Suc show ?case
    by (auto simp only: retry_from.simps intro!: keeps_bind keeps_ret keeps_if split: sum.split)
qed (simp add: keeps_ret)

lemma keeps_client_request [keeps_intros]: "keeps_client (client_request L W decode method path body auth)"
  unfolding client_request_def by (intro keeps_retry keeps_make_request)

lemma first_attempt_answers:
  assumes "make_request L W decode method path body auth s = (Inr x, s')"
    and "max_attempts (wc_retry_config W) \<noteq> 0"
  shows "client_request L W decode method path body auth s = (Inr x, s')"
proof -
  obtain n where "unat (max_attempts (wc_retry_config W)) = Suc n"
    using assms(2) by (metis not0_implies_Suc unat_eq_zero)
  with assms(1) show ?thesis by (simp add: client_request_def)
qed

section \<open>Witnesses\<close>

text \<open>A client of an API at \<open>http://h/\<close>, over a network that answers every request with a JSON null.\<close>

definition sample_client_lib :: client_lib where
  "sample_client_lib = chain_lib.extend sample_chain
     \<lparr>ul_parse = Inr, ul_join = (\<lambda>b p. Inr (b @ p)), ul_host = (\<lambda>_. Some (Domain ''localhost'')),
      ul_port = (\<lambda>_. Some 3031), ul_path = drop 8, ul_query = (\<lambda>_. None),
      ul_set_port = (\<lambda>u _. Inr u), ul_set_path = (\<lambda>u p. take 8 u @ p), ul_set_query = (\<lambda>u _. u),
      ul_method = (\<lambda>m. m \<in> {''GET'', ''POST''}), ul_header_value = (\<lambda>_. Inr ()),
      f64_of_nat = of_nat, f64_powi = (\<lambda>b n. b ^ nat n), f64_mul = (*), f64_min = min,
      f64_to_u64 = id, ul_api_error = (\<lambda>_. Inl ''e''), ul_api_value = (\<lambda>_. Inr
        \<lparr>ar_success = True, ar_data = Some (JString ''v''), ar_error = None\<rparr>)\<rparr>"

lemma sample_client_lib_chain:
  "hex_encode sample_client_lib = hex_text" "hex_decode sample_client_lib = hex_bytes"
  "lib.truncate sample_client_lib = lib.truncate sample_chain"
  by (simp_all only: sample_client_lib_def chain_lib.defs lib.truncate_def
      client_lib.simps chain_lib.simps node.simps lib.simps sample_chain_simps)

lemma sample_client_lib_simps [simp]:
  "ul_join sample_client_lib b p = Inr (b @ p)" "ul_host sample_client_lib u = Some (Domain ''localhost'')"
  "ul_port sample_client_lib u = Some 3031" "ul_path sample_client_lib u = drop 8 u"
  "ul_query sample_client_lib u = None" "ul_set_port sample_client_lib u q = Inr u"
  "ul_set_path sample_client_lib u t = take 8 u @ t" "ul_set_query sample_client_lib u v = u"
  "ul_method sample_client_lib m \<longleftrightarrow> m \<in> {''GET'', ''POST''}"
  "f64_of_nat sample_client_lib = of_nat" "f64_powi sample_client_lib = (\<lambda>b n. b ^ nat n)"
  "f64_mul sample_client_lib = (*)" "f64_min sample_client_lib = min" "f64_to_u64 sample_client_lib = id"
  "ul_api_error sample_client_lib t = Inl ''e''"
  "ul_api_value sample_client_lib body = Inr \<lparr>ar_success = True, ar_data = Some (JString ''v''), ar_error = None\<rparr>"
  by (simp_all only: sample_client_lib_def chain_lib.defs client_lib.simps)

lemma crypto_ok_truncate: "crypto_ok (lib.truncate L) = crypto_ok L"
  by (cases L) (simp add: crypto_ok_def lib.truncate_def)

lemma hex_ok_truncate: "hex_ok (lib.truncate L) = hex_ok L"
  by (cases L) (simp add: hex_ok_def lib.truncate_def)

lemma sample_client_lib_ok: "crypto_ok sample_client_lib" "hex_ok sample_client_lib"
proof -
  have "crypto_ok (lib.truncate sample_client_lib)"
    unfolding sample_client_lib_chain(3) crypto_ok_truncate by (rule sample_chain_crypto)
  then show "crypto_ok sample_client_lib" unfolding crypto_ok_truncate .
  show "hex_ok sample_client_lib" by (rule hex_ok_text [OF sample_client_lib_chain(1,2)])
qed

definition sample_willow :: willow_client where
  "sample_willow = \<lparr>wc_timeout = DEFAULT_TIMEOUT, wc_default_headers = [], wc_base_url = ''http://h/'',
     wc_indexer_url = None, wc_retry_config = default_retry_config sample_client_lib,
     wc_light_client = None, wc_consensus_client = None\<rparr>"

definition sample_identity :: client_identity where
  "sample_identity = \<lparr>ci_did = ''did:willow:a'', ci_private_key_hex = hex_text (replicate 32 3),
     ci_public_key_id = ''key'', ci_algorithm = Ed25519_alg\<rparr>"

definition sample_world :: client_world where
  "sample_world = \<lparr>w_now = 0, w_epoch = 0, w_calls = 0, w_answer = (\<lambda>_ _. (0, Inr null_response)),
     lc_headers = [], con_tracker = Map.empty, cw_identity = Some sample_identity,
     cw_light_client_once = None, cw_state_root_cache = Map.empty, cw_verify_mode = Strict,
     cw_random = (\<lambda>n. replicate 16 (of_nat n)), cw_draws = 7\<rparr>"

theorem request_is_its_deciding_attempt_witness:
  "let m = make_request sample_client_lib sample_willow (\<lambda>_. Inr ()) ''GET'' ''/health'' None False;
       (r, s') = client_request sample_client_lib sample_willow (\<lambda>_. Inr ()) ''GET'' ''/health'' None False sample_world
   in \<exists>k t. k < 3 \<and> retried sample_client_lib (wc_retry_config sample_willow) m k sample_world t
        \<and> m t = (r, s') \<and> (case r of Inr _ \<Rightarrow> True | Inl e \<Rightarrow> not_retried e \<or> k = 2)"
proof -
  have three: "max_attempts (wc_retry_config sample_willow) = 3"
    by (simp add: sample_willow_def default_retry_config_def)
  have two: "unat (3 :: u32) = 3" "(3 :: nat) - 1 = 2" by simp_all
  show ?thesis
    using request_is_its_deciding_attempt [of sample_client_lib sample_willow "\<lambda>_. Inr ()" "''GET''" "''/health''"
        None False sample_world, unfolded three two]
    by (cases "client_request sample_client_lib sample_willow (\<lambda>_. Inr ()) ''GET'' ''/health'' None False sample_world")
      (simp add: Let_def del: One_nat_def)
qed

lemma good_key_signs:
  "hex_ok L \<Longrightarrow> length k = 32 \<Longrightarrow> \<exists>r. sign_request_message L m (hex_encode L k) Ed25519_alg = Inr r"
  by (auto simp: sign_request_message_def hex_ok_def sign_challenge_def)

theorem read_signed_over_what_is_sent_witness:
  "\<exists>sig. verify_signature sample_client_lib (signed_request_message sample_client_lib ''did:willow:a'' ''key''
       ''GET'' ''/data/sg/k'' ''0'' (hex_text (replicate 16 7)) [])
     sig (hex_encode sample_client_lib (public_key_of sample_client_lib Ed25519_alg (replicate 32 3))) Ed25519_alg
     = Inr True"
proof -
  let ?L = sample_client_lib and ?k = "replicate 32 3 :: bytes" and ?url = "''http://h/data/sg/k''"
  have target: "api_target ?L sample_willow ?url = ''/data/sg/k''"
    by (simp add: api_target_def sample_willow_def trim_end_matches_def Let_def)
  have reads: "carries_read_rights ''GET'' ''/data/sg/k''"
    by (simp add: carries_read_rights_def path_segments_def trim_start_matches_def)
  have now: "fst (utc_now_io (sample_world\<lparr>cw_draws := x\<rparr>)) = 0" for x
    by (simp add: utc_now_io_def sample_world_def)
  have "sign_request_message ?L m (ci_private_key_hex sample_identity) Ed25519_alg
      = sign_request_message ?L m (hex_encode ?L ?k) Ed25519_alg" for m
    by (simp add: sample_identity_def sample_client_lib_chain)
  then obtain hs where hs: "sign_request_with_nonce ?L (replicate 16 7) ''did:willow:a'' ''key''
      (hex_encode ?L ?k) Ed25519_alg ''GET'' ''/data/sg/k'' [] (sample_world\<lparr>cw_draws := 8\<rparr>)
      = (Inr hs, sample_world\<lparr>cw_draws := 8\<rparr>)"
    using good_key_signs [OF sample_client_lib_ok(2), of ?k] now [of 8]
    unfolding sign_request_with_nonce_headers Let_def by fastforce
  have sample: "cw_identity sample_world = Some sample_identity" "cw_draws sample_world = 7"
    "cw_random sample_world = (\<lambda>n. replicate 16 (of_nat n))"
    by (simp_all add: sample_world_def)
  have key: "ci_private_key_hex sample_identity = hex_encode ?L ?k"
    "ci_did sample_identity = ''did:willow:a''" "ci_public_key_id sample_identity = ''key''"
    "ci_algorithm sample_identity = Ed25519_alg"
    by (simp_all add: sample_identity_def sample_client_lib_chain)
  have "client_sign_with_nonce ?L sample_willow ''GET'' ?url [] sample_world
      = (Inr (Some hs), sample_world\<lparr>cw_draws := 8\<rparr>)"
    by (simp add: client_sign_with_nonce_def sample key draw_def target hs)
  then have build: "build_request ?L sample_willow ''GET'' ''/data/sg/k'' None True sample_world
      = (Inr (Send ''GET'' ?url hs []), sample_world\<lparr>cw_draws := 8\<rparr>)"
    by (simp add: build_request_def target reads unwrap_or_def trim_start_matches_def)
      (simp add: sample_willow_def target [unfolded sample_willow_def] reads unwrap_or_def)
  from read_signed_over_what_is_sent [OF sample_client_lib_ok(2,1) sample(1) key(1) build refl, unfolded target, OF reads]
  obtain sig ts where "map_of hs ''X-Timestamp'' = Some ts" and v: "verify_signature ?L
      (signed_request_message ?L ''did:willow:a'' ''key'' ''GET'' ''/data/sg/k'' ts (hex_text (replicate 16 7)) [])
      sig (hex_encode ?L (public_key_of ?L Ed25519_alg ?k)) Ed25519_alg = Inr True"
    by (auto simp: sample key sample_client_lib_chain)
  moreover have "dec 0 = ''0''" by code_simp
  then have "map_of hs ''X-Timestamp'' = Some ''0''"
    using hs unfolding sign_request_with_nonce_headers Let_def now by auto
  ultimately show ?thesis by auto
qed

end
