(* ===== verification/Indexing.thy ===== *)
theory Indexing
  imports Client
begin

text \<open>
  Discovery of indexers (\<open>src/src/indexers.rs\<close>) and the routing of GraphQL and SQL queries between
  an indexer and the validator (\<open>src/src/indexing.rs\<close>).

  The discovery's cache is a field of the state, the list and the instant it was fetched at; a
  mutex guards each access of it, so an access is one step. What a caller decodes an answer to,
  directly or within the API's envelope, is the \<open>decoder\<close> it passes. The scores are \<open>f64\<close>, compared by
  a parameter; a JSON number is never \<open>NaN\<close>.

  The lemmas show which server a routed answer came from, and that a query routed automatically
  fails only when the validator failed it.
\<close>

section \<open>Types\<close>

datatype indexer_status = Active | Inactive | Slashed

record indexer_info =
  in_indexer_did :: str
  in_subgroves :: "str list"
  in_stake_amount :: nat
  in_endpoint :: str
  in_query_endpoint :: "str option"
  in_status :: indexer_status
  in_performance_score :: f64
  in_last_update :: u64

definition effective_query_endpoint :: "indexer_info \<Rightarrow> str" where
  "effective_query_endpoint i = unwrap_or (in_query_endpoint i) (in_endpoint i)"

datatype query_source = Source_Validator | Source_Indexer | Source_Auto

datatype served_by = By_Validator | By_Indexer

record 't routed_query_result =
  rq_result :: 't
  rq_source :: served_by
  rq_indexer_did :: "str option"
  rq_fallback :: bool

record 't decoder =
  dec_raw :: "bytes \<Rightarrow> (str, 't) result"
  dec_api :: "bytes \<Rightarrow> (str, 't api_response) result"

record indexing_lib = client_lib +
  ix_indexers :: "bytes \<Rightarrow> (str, indexer_info list api_response) result"
  f64_less :: "f64 \<Rightarrow> f64 \<Rightarrow> bool"

record indexing_world = client_world +
  ix_cache :: "(indexer_info list \<times> instant) option"

definition DEFAULT_CACHE_TTL :: duration where
  "DEFAULT_CACHE_TTL = secs 30"

section \<open>Discovery\<close>

definition synthetic_entry :: "'z client_lib_scheme \<Rightarrow> url \<Rightarrow> indexer_info" where
  "synthetic_entry L url = \<lparr>in_indexer_did = ''explicit-override'', in_subgroves = [], in_stake_amount = 0,
     in_endpoint = url, in_query_endpoint = Some url, in_status = Active,
     in_performance_score = f64_of_nat L 100, in_last_update = 0\<rparr>"

definition has_explicit_override :: "willow_client \<Rightarrow> bool" where
  "has_explicit_override W \<longleftrightarrow> wc_indexer_url W \<noteq> None"

definition invalidate :: "('w indexing_world_scheme, unit) io" where
  "invalidate = (\<lambda>s. ((), s\<lparr>ix_cache := None\<rparr>))"

definition evict :: "str \<Rightarrow> ('w indexing_world_scheme, unit) io" where
  "evict did = (\<lambda>s. ((), s\<lparr>ix_cache :=
     map_option (map_prod (filter (\<lambda>i. in_indexer_did i \<noteq> did)) id) (ix_cache s)\<rparr>))"

definition fetch_indexers ::
  "'z indexing_lib_scheme \<Rightarrow> willow_client \<Rightarrow> ('w world_scheme, indexer_info list res) io" where
  "fetch_indexers L W = (case ul_join L (wc_base_url W) ''indexers'' of
       Inl e \<Rightarrow> ret (Inl (Config (Fmt ''Invalid /indexers URL: {}'' [Str e])))
     | Inr url \<Rightarrow> (\<lambda>s. case send (Get url (wc_default_headers W)) s of
         (Inl e, s) \<Rightarrow> (Inl (from_reqwest e), s)
       | (Inr resp, s) \<Rightarrow>
           (rbind (read_text (utf8_lossy L) resp LARGE) (\<lambda>body.
            if \<not> is_success (resp_status resp) then Inl (Http (resp_status resp) (text_message body))
            else rbind (map_err Serialization (ix_indexers L (str_bytes body))) (\<lambda>api.
              Inr (unwrap_or (ar_data api) []))), s)))"

definition list_indexers ::
  "'z indexing_lib_scheme \<Rightarrow> willow_client \<Rightarrow> ('w indexing_world_scheme, indexer_info list res) io" where
  "list_indexers L W = (case wc_indexer_url W of
       Some url \<Rightarrow> ret (Inr [synthetic_entry L url])
     | None \<Rightarrow> (\<lambda>s. case ix_cache s of
         Some (entries, fetched_at) \<Rightarrow>
           if w_now s - fetched_at < DEFAULT_CACHE_TTL then (Inr entries, s)
           else try_io (fetch_indexers L W) (\<lambda>entries s. (Inr entries, s\<lparr>ix_cache := Some (entries, w_now s)\<rparr>)) s
       | None \<Rightarrow>
           try_io (fetch_indexers L W) (\<lambda>entries s. (Inr entries, s\<lparr>ix_cache := Some (entries, w_now s)\<rparr>)) s))"

text \<open>A stable sort by a comparison.\<close>

fun insert_by :: "('a \<Rightarrow> 'a \<Rightarrow> bool) \<Rightarrow> 'a \<Rightarrow> 'a list \<Rightarrow> 'a list" where
  "insert_by le x [] = [x]"
| "insert_by le x (y # ys) = (if le x y then x # y # ys else y # insert_by le x ys)"

definition sort_by :: "('a \<Rightarrow> 'a \<Rightarrow> bool) \<Rightarrow> 'a list \<Rightarrow> 'a list" where
  "sort_by le xs = foldr (insert_by le) xs []"

definition serves :: "str \<Rightarrow> indexer_info \<Rightarrow> bool" where
  "serves subgrove_id i \<longleftrightarrow> in_status i = Active \<and> subgrove_id \<in> set (in_subgroves i)"

definition for_subgrove ::
  "'z indexing_lib_scheme \<Rightarrow> willow_client \<Rightarrow> str \<Rightarrow> ('w indexing_world_scheme, indexer_info list res) io" where
  "for_subgrove L W subgrove_id = (case wc_indexer_url W of
       Some url \<Rightarrow> ret (Inr [synthetic_entry L url])
     | None \<Rightarrow>
         try_io (list_indexers L W) (\<lambda>entries.
         ret (Inr (sort_by (\<lambda>a b. \<not> f64_less L (in_performance_score a) (in_performance_score b))
           (filter (serves subgrove_id) entries)))))"

section \<open>Asking one server\<close>

definition post_json :: "willow_client \<Rightarrow> url \<Rightarrow> (str \<times> str) list \<Rightarrow> bytes \<Rightarrow> request" where
  "post_json W url headers body =
     Send ''POST'' url ((''content-type'', ''application/json'') # headers @ wc_default_headers W) body"

definition decode_either :: "str \<Rightarrow> 't decoder \<Rightarrow> bytes \<Rightarrow> 't res" where
  "decode_either empty_message D text_bytes = (case dec_raw D text_bytes of
       Inr direct \<Rightarrow> Inr direct
     | Inl _ \<Rightarrow> rbind (map_err Serialization (dec_api D text_bytes)) (\<lambda>api.
         ok_or (ar_data api) (Custom (Fmt empty_message []))))"

definition read_routed :: "'z lib_scheme \<Rightarrow> str \<Rightarrow> 't decoder \<Rightarrow> response \<Rightarrow> 't res" where
  "read_routed L empty_message D resp =
     rbind (read_text (utf8_lossy L) resp LARGE) (\<lambda>body.
     if \<not> is_success (resp_status resp) then Inl (Http (resp_status resp) (text_message body))
     else rbind (check_json (str_bytes body) UnderProof) (\<lambda>_.
       decode_either empty_message D (str_bytes body)))"

definition ask_server ::
  "'z lib_scheme \<Rightarrow> str \<Rightarrow> 't decoder \<Rightarrow> request \<Rightarrow> ('w world_scheme, 't res) io" where
  "ask_server L empty_message D req = (\<lambda>s. case send req s of
       (Inl e, s) \<Rightarrow> (Inl (from_reqwest e), s)
     | (Inr resp, s) \<Rightarrow> (read_routed L empty_message D resp, s))"

definition invalid_url :: "str \<Rightarrow> willow_error" where
  "invalid_url e = Config (Fmt ''Invalid URL: {}'' [Str e])"

definition call_validator ::
  "'z indexing_lib_scheme \<Rightarrow> willow_client \<Rightarrow> 't decoder \<Rightarrow> str \<Rightarrow> bytes
   \<Rightarrow> ('w indexing_world_scheme, 't res) io" where
  "call_validator L W D path body =
     try_io (ret (map_err invalid_url (ul_join L (wc_base_url W) path))) (\<lambda>url.
     try_io (client_sign_with_nonce L W ''POST'' url body) (\<lambda>headers.
     ask_server L ''empty data in response'' D (post_json W url (unwrap_or headers []) body)))"

definition call_indexer ::
  "'z indexing_lib_scheme \<Rightarrow> willow_client \<Rightarrow> 't decoder \<Rightarrow> indexer_info \<Rightarrow> str \<Rightarrow> bytes
   \<Rightarrow> ('w indexing_world_scheme, 't res) io" where
  "call_indexer L W D info path body =
     (let url_str = trim_end_matches (CHR ''/'') (effective_query_endpoint info) @ ''/'' @ path in
      try_io (ret (map_err (\<lambda>e. Config (Fmt ''Invalid indexer URL {}: {}'' [Str url_str, Str e]))
                (ul_parse L url_str))) (\<lambda>url.
      try_io (sign_request L ''POST'' (''/'' @ path)) (\<lambda>headers.
      ask_server L ''empty data in response'' D (post_json W url (unwrap_or headers []) body))))"

section \<open>Routing\<close>

definition evict_failing :: "indexer_info \<Rightarrow> willow_error \<Rightarrow> ('w indexing_world_scheme, unit) io" where
  "evict_failing info e = (case e of
       Http status _ \<Rightarrow> if status \<ge> 500 then evict (in_indexer_did info) else ret ()
     | _ \<Rightarrow> ret ())"

fun try_indexers ::
  "'z indexing_lib_scheme \<Rightarrow> willow_client \<Rightarrow> 't decoder \<Rightarrow> str \<Rightarrow> bytes \<Rightarrow> arg list \<Rightarrow> indexer_info list
   \<Rightarrow> ('w indexing_world_scheme, arg list + 't \<times> str) io" where
  "try_indexers L W D path body errs [] = ret (Inl errs)"
| "try_indexers L W D path body errs (info # infos) =
     bind_io (call_indexer L W D info path body) (\<lambda>r. case r of
       Inr result \<Rightarrow> ret (Inr (result, in_indexer_did info))
     | Inl e \<Rightarrow>
         bind_io (evict_failing info e) (\<lambda>_.
         try_indexers L W D path body (errs @ [Str (in_indexer_did info), Shown e]) infos))"

definition from_indexer :: "'t \<times> str \<Rightarrow> 't routed_query_result" where
  "from_indexer r = \<lparr>rq_result = fst r, rq_source = By_Indexer, rq_indexer_did = Some (snd r), rq_fallback = False\<rparr>"

definition from_validator :: "bool \<Rightarrow> 't \<Rightarrow> 't routed_query_result" where
  "from_validator fallback r = \<lparr>rq_result = r, rq_source = By_Validator, rq_indexer_did = None, rq_fallback = fallback\<rparr>"

definition route ::
  "'z indexing_lib_scheme \<Rightarrow> willow_client \<Rightarrow> 't decoder \<Rightarrow> str \<Rightarrow> str \<Rightarrow> bytes \<Rightarrow> query_source
   \<Rightarrow> ('w indexing_world_scheme, 't routed_query_result res) io" where
  "route L W D path_prefix subgrove_id body source =
     (let path = path_prefix @ ''/'' @ subgrove_id in
      case source of
        Source_Validator \<Rightarrow>
          try_io (call_validator L W D path body) (\<lambda>result. ret (Inr (from_validator False result)))
      | Source_Indexer \<Rightarrow>
          try_io (for_subgrove L W subgrove_id) (\<lambda>candidates.
          if candidates = [] then ret (Inl (Custom (Fmt ''No indexer serves subgrove {}'' [Str subgrove_id])))
          else bind_io (try_indexers L W D path body [] candidates) (\<lambda>r. ret (case r of
              Inr result \<Rightarrow> Inr (from_indexer result)
            | Inl errs \<Rightarrow> Inl (Custom (Fmt ''No indexer could serve subgrove {}: {}'' (Str subgrove_id # errs))))))
      | Source_Auto \<Rightarrow>
          bind_io (for_subgrove L W subgrove_id) (\<lambda>found.
          let candidates = (case found of Inl _ \<Rightarrow> [] | Inr c \<Rightarrow> c) in
          bind_io (try_indexers L W D path body [] candidates) (\<lambda>r. case r of
              Inr result \<Rightarrow> ret (Inr (from_indexer result))
            | Inl _ \<Rightarrow>
                try_io (call_validator L W D path body) (\<lambda>result.
                ret (Inr (from_validator (candidates \<noteq> []) result))))))"

section \<open>Queries\<close>

text \<open>The bodies of \<open>GraphQLRequest\<close> and \<open>SqlRequest\<close>, with proofs opted out of.\<close>

definition graphql_body :: "'z lib_scheme \<Rightarrow> str \<Rightarrow> jvalue option \<Rightarrow> bytes" where
  "graphql_body L query variables = str_bytes (json_to_string L (JObject ((''query'', JString query)
     # (case variables of None \<Rightarrow> [] | Some v \<Rightarrow> [(''variables'', v)]) @ [(''include_proof'', JBool False)])))"

definition sql_body :: "'z lib_scheme \<Rightarrow> str \<Rightarrow> bytes" where
  "sql_body L query =
     str_bytes (json_to_string L (JObject [(''query'', JString query), (''include_proof'', JBool False)]))"

definition graphql_query_with_source ::
  "'z indexing_lib_scheme \<Rightarrow> willow_client \<Rightarrow> 't decoder \<Rightarrow> str \<Rightarrow> str \<Rightarrow> jvalue option \<Rightarrow> query_source
   \<Rightarrow> ('w indexing_world_scheme, 't routed_query_result res) io" where
  "graphql_query_with_source L W D subgrove_id query variables source =
     route L W D ''graphql'' subgrove_id (graphql_body L query variables) source"

definition graphql_query ::
  "'z indexing_lib_scheme \<Rightarrow> willow_client \<Rightarrow> 't decoder \<Rightarrow> str \<Rightarrow> str \<Rightarrow> jvalue option
   \<Rightarrow> ('w indexing_world_scheme, 't res) io" where
  "graphql_query L W D subgrove_id query variables =
     (let path = ''graphql/'' @ subgrove_id; body = graphql_body L query variables in
      try_io (ret (map_err invalid_url (ul_join L (indexer_base_url W) path))) (\<lambda>url.
      try_io (if queries_go_to_api W then client_sign_with_nonce L W ''POST'' url body
              else sign_request L ''POST'' (''/'' @ path)) (\<lambda>headers.
      ask_server L ''No data in GraphQL response'' D (post_json W url (unwrap_or headers []) body))))"

text \<open>The API's lists and lookups: what the answer's \<open>data\<close> holds, or the caller's error.\<close>

definition api_get ::
  "'z client_lib_scheme \<Rightarrow> willow_client \<Rightarrow> (bytes \<Rightarrow> (str, 't api_response) result) \<Rightarrow> str \<Rightarrow> willow_error
   \<Rightarrow> ('w client_world_scheme, 't res) io" where
  "api_get L W decode path missing =
     try_io (client_request L W decode ''GET'' path None False) (\<lambda>response.
     ret (ok_or (ar_data response) missing))"

definition api_list ::
  "'z client_lib_scheme \<Rightarrow> willow_client \<Rightarrow> (bytes \<Rightarrow> (str, 't list api_response) result) \<Rightarrow> str
   \<Rightarrow> ('w client_world_scheme, 't list res) io" where
  "api_list L W decode path =
     try_io (client_request L W decode ''GET'' path None False) (\<lambda>response.
     ret (Inr (unwrap_or (ar_data response) [])))"

definition list_subgroves ::
  "'z client_lib_scheme \<Rightarrow> willow_client \<Rightarrow> (bytes \<Rightarrow> (str, 't list api_response) result)
   \<Rightarrow> ('w client_world_scheme, 't list res) io" where
  "list_subgroves L W decode = api_list L W decode ''/subgroves''"

definition get_subgrove ::
  "'z client_lib_scheme \<Rightarrow> willow_client \<Rightarrow> (bytes \<Rightarrow> (str, 't api_response) result) \<Rightarrow> str
   \<Rightarrow> ('w client_world_scheme, 't res) io" where
  "get_subgrove L W decode subgrove_id = api_get L W decode (''/subgroves/'' @ subgrove_id)
     (NotFound (Fmt ''Subgrove not found: {}'' [Str subgrove_id]))"

definition get_subgrove_status ::
  "'z client_lib_scheme \<Rightarrow> willow_client \<Rightarrow> (bytes \<Rightarrow> (str, 't api_response) result) \<Rightarrow> str
   \<Rightarrow> ('w client_world_scheme, 't res) io" where
  "get_subgrove_status L W decode subgrove_id =
     api_get L W decode (''/subgroves/'' @ subgrove_id @ ''/status'')
       (NotFound (Fmt ''Subgrove not found: {}'' [Str subgrove_id]))"

definition list_registered_indexers ::
  "'z indexing_lib_scheme \<Rightarrow> willow_client \<Rightarrow> ('w client_world_scheme, indexer_info list res) io" where
  "list_registered_indexers L W = api_list L W (ix_indexers L) ''/indexers''"

definition get_indexer ::
  "'z client_lib_scheme \<Rightarrow> willow_client \<Rightarrow> (bytes \<Rightarrow> (str, indexer_info api_response) result) \<Rightarrow> str
   \<Rightarrow> ('w client_world_scheme, indexer_info res) io" where
  "get_indexer L W decode did = api_get L W decode (''/indexers/'' @ did)
     (NotFound (Fmt ''Indexer not found: {}'' [Str did]))"

definition get_verification_stats ::
  "'z client_lib_scheme \<Rightarrow> willow_client \<Rightarrow> (bytes \<Rightarrow> (str, 't api_response) result)
   \<Rightarrow> ('w client_world_scheme, 't res) io" where
  "get_verification_stats L W decode = api_get L W decode ''/verification/stats''
     (Custom (Fmt ''No verification stats available'' []))"

section \<open>Who served a routed answer\<close>

text \<open>The indexers a query may go to.\<close>

definition offered :: "'z indexing_lib_scheme \<Rightarrow> willow_client \<Rightarrow> str \<Rightarrow> indexer_info \<Rightarrow> bool" where
  "offered L W subgrove_id info \<longleftrightarrow> (case wc_indexer_url W of
       Some url \<Rightarrow> info = synthetic_entry L url
     | None \<Rightarrow> serves subgrove_id info)"

lemma set_insert_by: "set (insert_by le x xs) = insert x (set xs)"
  by (induction xs) auto

lemma set_sort_by [simp]: "set (sort_by le xs) = set xs"
  by (induction xs) (auto simp: sort_by_def set_insert_by)

lemma for_subgrove_offered:
  "for_subgrove L W subgrove_id s = (Inr candidates, s') \<Longrightarrow> list_all (offered L W subgrove_id) candidates"
  by (auto simp: for_subgrove_def offered_def list_all_iff split: option.splits prod.splits sum.splits)

lemma try_indexers_Inr:
  "try_indexers L W D path body errs infos s = (Inr (result, did), s') \<Longrightarrow>
     \<exists>info t. info \<in> set infos \<and> did = in_indexer_did info
       \<and> call_indexer L W D info path body t = (Inr result, s')"
proof (induction infos arbitrary: errs s)
  case (Cons info infos)
  obtain r u where c: "call_indexer L W D info path body s = (r, u)" by fastforce
  show ?case
  proof (cases r)
    case (Inl e)
    with c Cons.prems obtain errs' v where "try_indexers L W D path body errs' infos v = (Inr (result, did), s')"
      by (auto split: prod.splits)
    from Cons.IH [OF this] show ?thesis by auto
  next
    case (Inr x)
    with c Cons.prems show ?thesis by auto
  qed
qed simp


text \<open>C40: A routed answer names the server it came from: an indexer's is the answer of an active indexer
  that serves the subgrove (or of the one configured), under its DID and never a fallback; the
  validator's is the validator's answer, and a fallback only of an automatic query. A query sent to
  the validator, or automatically, fails only when the validator's own answer failed.\<close>

theorem routed_answer_names_its_server:
  "case route L W D path_prefix subgrove_id body source s of
     (Inr r, s') \<Rightarrow> (case rq_source r of
         By_Indexer \<Rightarrow> source \<noteq> Source_Validator \<and> \<not> rq_fallback r
           \<and> (\<exists>info t. offered L W subgrove_id info \<and> rq_indexer_did r = Some (in_indexer_did info)
                \<and> call_indexer L W D info (path_prefix @ ''/'' @ subgrove_id) body t = (Inr (rq_result r), s'))
       | By_Validator \<Rightarrow> source \<noteq> Source_Indexer \<and> rq_indexer_did r = None
           \<and> (if rq_fallback r then source = Source_Auto else True)
           \<and> (\<exists>t. call_validator L W D (path_prefix @ ''/'' @ subgrove_id) body t = (Inr (rq_result r), s')))
   | (Inl e, s') \<Rightarrow> source = Source_Indexer
       \<or> (\<exists>t. call_validator L W D (path_prefix @ ''/'' @ subgrove_id) body t = (Inl e, s'))"
proof -
  let ?path = "path_prefix @ ''/'' @ subgrove_id"
  have asked: "\<exists>info t. offered L W subgrove_id info \<and> did = in_indexer_did info
      \<and> call_indexer L W D info ?path body t = (Inr result, s')"
    if "list_all (offered L W subgrove_id) candidates"
      "try_indexers L W D ?path body [] candidates u = (Inr (result, did), s')" for candidates u result did s'
    using try_indexers_Inr [OF that(2)] that(1) by (auto simp: list_all_iff)
  show ?thesis
  proof (cases source)
    case Source_Validator
    then show ?thesis
      by (auto simp: route_def from_validator_def split: prod.splits sum.splits)
  next
    case Source_Indexer
    show ?thesis
    proof (cases "route L W D path_prefix subgrove_id body source s")
      case (Pair x s')
      show ?thesis
      proof (cases x)
        case (Inr r)
        with Pair Source_Indexer obtain candidates u result did where
          "for_subgrove L W subgrove_id s = (Inr candidates, u)"
          "try_indexers L W D ?path body [] candidates u = (Inr (result, did), s')"
          "r = from_indexer (result, did)"
          by (auto simp: route_def split: prod.splits sum.splits if_splits)
        with asked [OF for_subgrove_offered] Pair Inr Source_Indexer show ?thesis
          by (fastforce simp: from_indexer_def)
      qed (use Pair Source_Indexer in simp)
    qed
  next
    case Source_Auto
    obtain found u where f: "for_subgrove L W subgrove_id s = (found, u)" by fastforce
    define candidates where "candidates = (case found of Inl _ \<Rightarrow> [] | Inr c \<Rightarrow> c)"
    have off: "list_all (offered L W subgrove_id) candidates"
      using for_subgrove_offered f by (cases found) (auto simp: candidates_def)
    obtain r v where t: "try_indexers L W D ?path body [] candidates u = (r, v)" by fastforce
    have run: "route L W D path_prefix subgrove_id body source s = (case r of
              Inr result \<Rightarrow> ret (Inr (from_indexer result))
            | Inl _ \<Rightarrow>
                try_io (call_validator L W D ?path body) (\<lambda>result.
                ret (Inr (from_validator (candidates \<noteq> []) result)))) v"
      by (simp only: route_def Let_def Source_Auto query_source.case bind_io_def f prod.case
          candidates_def [symmetric] t)
    show ?thesis
    proof (cases r)
      case (Inr x)
      with asked [OF off, of u "fst x" "snd x" v] t run Source_Auto show ?thesis
        by (simp add: from_indexer_def)
    next
      case (Inl errs)
      obtain y w where "call_validator L W D ?path body v = (y, w)" by fastforce
      with run Inl Source_Auto show ?thesis
        by (cases y) (auto simp: from_validator_def)
    qed
  qed
qed

text \<open>Within its time to live, and until it is invalidated or an indexer evicted, a list that was
  fetched is given again and nothing is sent.\<close>

lemma cached_list_is_reused:
  assumes "ix_cache s = Some (entries, fetched_at)" "wc_indexer_url W = None"
    and "w_now s < fetched_at + DEFAULT_CACHE_TTL"
  shows "list_indexers L W s = (Inr entries, s)"
  using assms by (auto simp: list_indexers_def DEFAULT_CACHE_TTL_def secs_def)

lemma fetched_list_is_cached:
  assumes "list_indexers L W s = (Inr entries, s')" "wc_indexer_url W = None"
  shows "\<exists>fetched_at. ix_cache s' = Some (entries, fetched_at) \<and> w_now s' - fetched_at < DEFAULT_CACHE_TTL"
  using assms by (auto simp: list_indexers_def DEFAULT_CACHE_TTL_def secs_def
      split: option.splits prod.splits sum.splits if_splits)

lemma evicted_not_listed:
  "ix_cache (snd (evict did s)) = Some (entries, t) \<Longrightarrow> \<forall>i \<in> set entries. in_indexer_did i \<noteq> did"
  by (cases "ix_cache s") (auto simp: evict_def)

text \<open>The indexers asked are in the order of their scores, highest first, when the comparison orders
  them.\<close>

lemma insert_by_sorted:
  assumes "\<And>a b. le a b \<or> le b a" "\<And>a b c. le a b \<Longrightarrow> le b c \<Longrightarrow> le a c"
  shows "sorted_wrt le xs \<Longrightarrow> sorted_wrt le (insert_by le x xs)"
proof (induction xs)
  case (Cons y ys)
  show ?case
  proof (cases "le x y")
    case True
    with Cons.prems assms(2) show ?thesis by auto
  next
    case False
    with assms(1) have "le y x" by blast
    with Cons False show ?thesis by (auto simp: set_insert_by)
  qed
qed simp

lemma sort_by_sorted:
  assumes "\<And>a b. le a b \<or> le b a" "\<And>a b c. le a b \<Longrightarrow> le b c \<Longrightarrow> le a c"
  shows "sorted_wrt le (sort_by le xs)"
  by (induction xs) (simp_all add: sort_by_def insert_by_sorted [OF assms])

end
