(* ===== verification/Data_Ops.thy ===== *)
theory Data_Ops
  imports Indexing
begin

text \<open>
  Reads of a subgrove's data (\<open>src/src/data.rs\<close>), with the light client on. A verified read is the
  composition of the client's signed requests, the GroveDB envelope's check and the light client's.

  A \<open>jvalue\<close> a JSON text decodes to is in \<open>serde_json\<close>'s form, an object's members by key and a number
  by its canonical text, so that equality here is equality there. The shapes of the other answers
  are decoded by parameters, as \<open>serde\<close> generates them.
\<close>

record query_response =
  qr_documents :: "jvalue list"
  qr_total :: "nat option"
  qr_offset :: "nat option"
  qr_limit :: "nat option"
  qr_proof :: "str option"
  qr_verified_root_hash :: "str option"

record checkpoint_info =
  cp_checkpoint_id :: str
  cp_subgrove_id :: str
  cp_state_root :: str
  cp_block_range :: "u64 \<times> u64"
  cp_is_trusted :: bool

record historical_query_response =
  hq_success :: bool
  hq_provider_did :: "str option"
  hq_provider_endpoint :: "str option"
  hq_state_root :: str
  hq_block_range :: "u64 \<times> u64"
  hq_data :: jvalue
  hq_proof :: "str option"
  hq_can_reindex :: "bool option"
  hq_error :: "str option"

record verified_value =
  vv_value :: jvalue
  vv_height :: u64

record data_lib = indexing_lib +
  da_query :: "bytes \<Rightarrow> (str, query_response api_response) result"
  da_checkpoint :: "bytes \<Rightarrow> (str, checkpoint_info api_response) result"
  da_historical :: "bytes \<Rightarrow> (str, historical_query_response) result"

section \<open>A verified read\<close>

definition served_value :: "'z lib_scheme \<Rightarrow> bytes \<Rightarrow> jvalue" where
  "served_value L b = (case json_from_slice L b of
       Inr v \<Rightarrow> v
     | Inl _ \<Rightarrow> JObject [(''hex'', JString (hex_encode L b))])"

definition key_not_found :: "str \<Rightarrow> willow_error" where
  "key_not_found key = NotFound (Fmt ''Key not found: {}'' [Str key])"

definition data_path :: "str \<Rightarrow> str \<Rightarrow> str \<Rightarrow> str" where
  "data_path area subgrove_id key = ''/'' @ area @ ''/'' @ subgrove_id @ ''/'' @ key"

definition served_height :: "jvalue \<Rightarrow> u64 option" where
  "served_height proof_data = (case Option.bind (jget proof_data ''height'') as_u64 of
       Some h \<Rightarrow> if h > 0 then Some h else None
     | None \<Rightarrow> None)"

text \<open>What the API's two answers prove: the item's value, the root computed and the proof's height.\<close>

definition check_served_proof ::
  "'z lib_scheme \<Rightarrow> str \<Rightarrow> str \<Rightarrow> jvalue \<Rightarrow> jvalue option \<Rightarrow> (bytes \<times> u64 \<times> jvalue) res" where
  "check_served_proof L subgrove_id key data proof_response =
     rbind (ok_or proof_response (proof_error
       ''no proof served for key {key:?}, so the value can't be verified (use get_unverified to read it unverified)''
       [Str key])) (\<lambda>proof_data.
     rbind (ok_or (Option.bind (jget proof_data ''proof'') as_str)
       (proof_error ''the proof served for key {key:?} has no proof bytes'' [Str key])) (\<lambda>proof_hex.
     rbind (ok_or (served_height proof_data) (proof_error
       ''the proof served for key {key:?} names no block height, so its root can't be checked against the chain's''
       [Str key])) (\<lambda>height.
     if length proof_hex > 2 * MAX_PROOF_BYTES then
       Inl (proof_error ''the proof served for key {key:?} is {} hex characters; at most {max_hex} are accepted''
         [Str key, Num (length proof_hex), Num (2 * MAX_PROOF_BYTES)])
     else
       rbind (map_err (\<lambda>e. proof_error ''Invalid proof hex: {e}'' [Str e]) (hex_decode L proof_hex)) (\<lambda>proof.
       rbind (verify_item_at_path (lib_grovedb L) proof (subgrove_data_path subgrove_id) (str_bytes key))
         (\<lambda>(root, item).
       if served_value L item \<noteq> data then
         Inl (proof_error ''the value served for key {key:?} is not the value its proof proves'' [Str key])
       else Inr (root, height, served_value L item))))))"

definition get_verified ::
  "'z indexing_lib_scheme \<Rightarrow> willow_client \<Rightarrow> str \<Rightarrow> str \<Rightarrow> ('w client_world_scheme, verified_value res) io" where
  "get_verified L W subgrove_id key =
     try_io require_auth (\<lambda>_.
     try_io (client_request L W (ul_api_value L) ''GET'' (data_path ''data'' subgrove_id key) None True)
       (\<lambda>data_response.
     try_io (ret (ok_or (ar_data data_response) (key_not_found key))) (\<lambda>data.
     try_io (client_request L W (ul_api_value L) ''GET'' (data_path ''proof'' subgrove_id key) None True)
       (\<lambda>proof_response.
     try_io (ret (check_served_proof L subgrove_id key data (ar_data proof_response))) (\<lambda>(root, height, proven).
     try_io (get_or_create_light_client L W) (\<lambda>light_client.
     try_io (verify_root_after (lib.truncate L) light_client root height) (\<lambda>height.
     ret (Inr \<lparr>vv_value = proven, vv_height = height\<rparr>))))))))"

definition get_value_at ::
  "'z indexing_lib_scheme \<Rightarrow> willow_client \<Rightarrow> str \<Rightarrow> str \<Rightarrow> ('w client_world_scheme, jvalue res) io" where
  "get_value_at L W subgrove_id key =
     try_io (get_verified L W subgrove_id key) (\<lambda>verified. ret (Inr (vv_value verified)))"

definition get_unverified ::
  "'z indexing_lib_scheme \<Rightarrow> willow_client \<Rightarrow> str \<Rightarrow> str \<Rightarrow> ('w client_world_scheme, jvalue res) io" where
  "get_unverified L W subgrove_id key =
     try_io require_auth (\<lambda>_.
     try_io (client_request L W (ul_api_value L) ''GET'' (data_path ''data'' subgrove_id key) None True)
       (\<lambda>response. ret (ok_or (ar_data response) (key_not_found key))))"

section \<open>Queries\<close>

definition query_verified :: "str \<Rightarrow> jvalue \<Rightarrow> ('w client_world_scheme, query_response res) io" where
  "query_verified subgrove_id q =
     try_io require_auth (\<lambda>_. ret (Inl (Unsupported (Fmt
       ''a query's documents can't be verified: the API serves them without their keys, and nothing binds them to the proof or to the query's selection; use query_unverified, or get for a verified value by key'' []))))"

definition sql ::
  "'z indexing_lib_scheme \<Rightarrow> willow_client \<Rightarrow> (bytes \<Rightarrow> (str, 't) result) \<Rightarrow> str \<Rightarrow> str
   \<Rightarrow> ('w client_world_scheme, 't res) io" where
  "sql L W decode subgrove_id q =
     try_io require_auth (\<lambda>_.
     try_io (ret (map_err invalid_url (ul_join L (indexer_base_url W) (''sql/'' @ subgrove_id)))) (\<lambda>url.
     try_io (if queries_go_to_api W then client_sign_with_nonce L W ''POST'' url (sql_body L q)
             else ret (Inr None)) (\<lambda>headers s.
     case send (post_json W url (unwrap_or headers []) (sql_body L q)) s of
       (Inl e, s) \<Rightarrow> (Inl (from_reqwest e), s)
     | (Inr resp, s) \<Rightarrow>
         (rbind (read_text (utf8_lossy L) resp LARGE) (\<lambda>body.
          if is_success (resp_status resp) then decode_checked decode (str_bytes body) UnderProof
          else Inl (Http (resp_status resp) (text_message body))), s))))"

definition sql_with_source ::
  "'z indexing_lib_scheme \<Rightarrow> willow_client \<Rightarrow> 't decoder \<Rightarrow> str \<Rightarrow> str \<Rightarrow> query_source
   \<Rightarrow> ('w indexing_world_scheme, 't routed_query_result res) io" where
  "sql_with_source L W D subgrove_id q source =
     try_io require_auth (\<lambda>_. route L W D ''sql'' subgrove_id (sql_body L q) source)"

text \<open>\<open>Map::insert\<close> of a member, which \<open>serde_json\<close> keeps in the order of the keys.\<close>

fun insert_member :: "(str \<times> jvalue) list \<Rightarrow> str \<Rightarrow> jvalue \<Rightarrow> (str \<times> jvalue) list" where
  "insert_member [] k v = [(k, v)]"
| "insert_member ((k', v') # kvs) k v =
     (if k = k' then (k, v) # kvs
      else if lexordp (\<lambda>a b. (of_char a :: nat) < of_char b) k k' then (k, v) # (k', v') # kvs
      else (k', v') # insert_member kvs k v)"

definition without_proof :: "jvalue \<Rightarrow> jvalue" where
  "without_proof q = (case q of
       JObject kvs \<Rightarrow> JObject (insert_member kvs ''include_proof'' (JBool False))
     | _ \<Rightarrow> q)"

definition query_unverified ::
  "'z data_lib_scheme \<Rightarrow> willow_client \<Rightarrow> str \<Rightarrow> jvalue \<Rightarrow> ('w client_world_scheme, query_response res) io" where
  "query_unverified L W subgrove_id q =
     try_io require_auth (\<lambda>_.
     try_io (client_request L W (da_query L) ''POST'' (''/query/'' @ subgrove_id)
         (Some (Inr (str_bytes (json_to_string L (without_proof q))))) True) (\<lambda>response.
     ret (ok_or (ar_data response) (Custom (Fmt ''No data in query response'' [])))))"

section \<open>Checkpoints\<close>

definition get_checkpoint_state_root ::
  "'z data_lib_scheme \<Rightarrow> willow_client \<Rightarrow> str \<Rightarrow> str \<Rightarrow> ('w client_world_scheme, checkpoint_info res) io" where
  "get_checkpoint_state_root L W subgrove_id checkpoint_id =
     api_get L W (da_checkpoint L)
       (''/checkpoints/'' @ subgrove_id @ ''/'' @ checkpoint_id @ ''/state-root'')
       (NotFound (Fmt ''Checkpoint not found'' []))"

definition check_historical ::
  "checkpoint_info \<Rightarrow> historical_query_response \<Rightarrow> historical_query_response res" where
  "check_historical checkpoint response =
     (if \<not> hq_success response then
        (let error_msg = (case hq_error response of Some e \<Rightarrow> text_message e
                          | None \<Rightarrow> Fmt ''Historical query failed'' []) in
         if hq_can_reindex response = Some True then Inl (HistoricalDataUnavailable error_msg True)
         else Inl (Custom error_msg))
      else if hq_state_root response \<noteq> cp_state_root checkpoint then
        Inl (proof_error ''State root mismatch: query response does not match checkpoint'' [])
      else Inr response)"

text \<open>\<open>query_body\<close> is what \<open>serde_json::to_vec\<close> gives of the \<open>HistoricalQueryRequest\<close>.\<close>

definition query_historical ::
  "'z data_lib_scheme \<Rightarrow> willow_client \<Rightarrow> str \<Rightarrow> str \<Rightarrow> (str, bytes) result
   \<Rightarrow> ('w client_world_scheme, historical_query_response res) io" where
  "query_historical L W subgrove_id checkpoint_id query_body =
     try_io (get_checkpoint_state_root L W subgrove_id checkpoint_id) (\<lambda>checkpoint.
     try_io (client_request L W (da_historical L) ''POST''
         (''/historical/query/'' @ subgrove_id @ ''/'' @ checkpoint_id) (Some query_body) False) (\<lambda>response.
     ret (check_historical checkpoint response)))"

definition query_historical_verified :: "str \<Rightarrow> str \<Rightarrow> historical_query_response res" where
  "query_historical_verified subgrove_id checkpoint_id =
     Inl (Unsupported (Fmt ''a historical answer can't be verified: the API passes the provider's proof through without checking it against the checkpoint, and nothing requires the checkpoint's state root to commit to the provider's store; use query_historical for it unverified'' []))"

section \<open>What a verified read returns\<close>

lemma check_served_proof_Inr:
  "check_served_proof L subgrove_id key data response = Inr (root, height, proven) \<longleftrightarrow>
     (\<exists>proof_data proof_hex proof item. response = Some proof_data
        \<and> Option.bind (jget proof_data ''proof'') as_str = Some proof_hex
        \<and> served_height proof_data = Some height
        \<and> length proof_hex \<le> 2 * MAX_PROOF_BYTES \<and> hex_decode L proof_hex = Inr proof
        \<and> verify_item_at_path (lib_grovedb L) proof (subgrove_data_path subgrove_id) (str_bytes key) = Inr (root, item)
        \<and> proven = served_value L item \<and> proven = data)"
  by (auto simp: check_served_proof_def result_simps)

lemma get_verified_proven:
  fixes s :: "'w client_world_scheme"
  assumes "get_verified L W subgrove_id key s = (Inr v, s')" "first_use_ok L W s"
  shows "\<exists>proof root item height lc (t :: 'w client_world_scheme) latest t'.
      verify_item_at_path (lib_grovedb L) proof (subgrove_data_path subgrove_id) (str_bytes key) = Inr (root, item)
      \<and> vv_value v = served_value L item
      \<and> trusted_by_caller L W lc
      \<and> served_for (lib.truncate L) lc t (height + 1) root \<and> served_for (lib.truncate L) lc t (vv_height v) root
      \<and> latest_chain_height (lib.truncate L) lc t = (Inr latest, t')
      \<and> unat latest + 1 \<le> unat (vv_height v) + unat (max_proof_lag_blocks lc) \<and> height < vv_height v"
proof -
  obtain data_response s1 where d: "client_request L W (ul_api_value L) ''GET'' (data_path ''data'' subgrove_id key)
      None True s = (Inr data_response, s1)"
    and r1: "try_io (ret (ok_or (ar_data data_response) (key_not_found key))) (\<lambda>data.
     try_io (client_request L W (ul_api_value L) ''GET'' (data_path ''proof'' subgrove_id key) None True)
       (\<lambda>proof_response.
     try_io (ret (check_served_proof L subgrove_id key data (ar_data proof_response))) (\<lambda>(root, height, proven).
     try_io (get_or_create_light_client L W) (\<lambda>light_client.
     try_io (verify_root_after (lib.truncate L) light_client root height) (\<lambda>height.
     ret (Inr \<lparr>vv_value = proven, vv_height = height\<rparr>)))))) s1 = (Inr v, s')"
    using assms(1) unfolding get_verified_def try_io_Inr_iff [of require_auth]
    by (auto simp: require_auth_def try_io_Inr_iff [of "client_request _ _ _ _ _ _ _"] simp del: try_io_simp split: if_splits)
  from r1 obtain data proof_response s2 root height proven where
    p: "client_request L W (ul_api_value L) ''GET'' (data_path ''proof'' subgrove_id key) None True s1
        = (Inr proof_response, s2)"
    and c: "check_served_proof L subgrove_id key data (ar_data proof_response) = Inr (root, height, proven)"
    and r2: "try_io (get_or_create_light_client L W) (\<lambda>light_client.
     try_io (verify_root_after (lib.truncate L) light_client root height) (\<lambda>height.
     ret (Inr \<lparr>vv_value = proven, vv_height = height\<rparr>))) s2 = (Inr v, s')"
    unfolding try_ret_Inr_iff try_io_Inr_iff [of "client_request _ _ _ _ _ _ _"] by auto
  from r2 obtain lc s3 h where lc: "get_or_create_light_client L W s2 = (Inr lc, s3)"
    and root: "verify_root_after (lib.truncate L) lc root height s3 = (Inr h, s')"
    and v: "v = \<lparr>vv_value = proven, vv_height = h\<rparr>"
    unfolding try_io_Inr_iff by auto
  have "cw_light_client_once s2 = cw_light_client_once s"
    using keeps_clientD(1) [OF keeps_client_request d] keeps_clientD(1) [OF keeps_client_request p] by simp
  with assms(2) have "first_use_ok L W s2" by (simp add: first_use_ok_def)
  from get_or_create_trusted [OF lc this] have "trusted_by_caller L W lc" by simp
  moreover from c obtain pf item where
    "verify_item_at_path (lib_grovedb L) pf (subgrove_data_path subgrove_id) (str_bytes key) = Inr (root, item)"
    "proven = served_value L item"
    unfolding check_served_proof_Inr by blast
  moreover obtain latest t' where "latest_chain_height (lib.truncate L) lc s3 = (Inr latest, t')"
    "served_for (lib.truncate L) lc s3 (height + 1) root" "served_for (lib.truncate L) lc s3 h root"
    "unat latest + 1 \<le> unat h + unat (max_proof_lag_blocks lc)" "height < h"
    using verify_root_after_source [OF root] by blast
  ultimately show ?thesis
    unfolding v verified_value.simps
    by - (rule exI [of _ pf], rule exI [of _ root], rule exI [of _ item], rule exI [of _ height],
        rule exI [of _ lc], rule exI [of _ s3], rule exI [of _ latest], rule exI [of _ t'], intro conjI)
qed


section \<open>A verified read at a concrete input\<close>

text \<open>The key \<open>k\<close> of the subgrove \<open>sg\<close>, whose item is the byte 5, and a chain whose header 7 has the
  root of its proof.\<close>

definition read_proof :: bytes where
  "read_proof = chain_proof (subgrove_data_path ''sg'')"

definition read_grovedb :: grovedb where
  "read_grovedb = chain_grovedb (subgrove_data_path ''sg'') (str_bytes ''k'')"

lemma read_verifies:
  "verify_item_at_path read_grovedb read_proof (subgrove_data_path ''sg'') (str_bytes ''k'')
     = Inr (replicate 32 0, [5])"
  unfolding read_grovedb_def read_proof_def
  by (rule chain_verifies(1)) (simp_all add: subgrove_data_path_def chain_proof_def str_bytes_def MAX_LAYERS_def
      MAX_LAYER_DEPTH_def MAX_PROOF_BYTES_def)

definition read_lib :: indexing_lib where
  "read_lib = client_lib.extend (sample_client_lib
       \<lparr>json_from_slice := (\<lambda>b. Inr (if b = [5] then JString ''v'' else example_status)),
        lib_grovedb := read_grovedb,
        ul_api_value := (\<lambda>b. Inr \<lparr>ar_success = True, ar_data = Some (if b = [1] then JString ''v''
          else JObject [(''proof'', JString (hex_text read_proof)), (''height'', JNumber ''6'')]), ar_error = None\<rparr>)\<rparr>)
     \<lparr>ix_indexers = (\<lambda>_. Inl ''e''), f64_less = (<)\<rparr>"

definition read_client :: willow_client where
  "read_client = sample_willow\<lparr>wc_light_client := Some example_config\<rparr>"

definition read_response :: "u8 \<Rightarrow> response" where
  "read_response b = \<lparr>resp_status = 200, resp_content_length = None, resp_pieces = [Inr [b]]\<rparr>"

definition read_world :: client_world where
  "read_world = sample_world\<lparr>w_answer := (\<lambda>n req. (0, Inr (if n = 0 then read_response 1
     else if n = 1 then read_response 2 else null_response))), lc_headers := [(7, example_block 7 7)]\<rparr>"

lemma read_lib_simps [simp]:
  "hex_encode read_lib = hex_text" "hex_decode read_lib = hex_bytes" "lib_grovedb read_lib = read_grovedb"
  "json_from_slice read_lib b = Inr (if b = [5] then JString ''v'' else example_status)"
  "utf8_lossy read_lib = map (\<lambda>b. char_of (unat b))"
  "ul_api_value read_lib b = Inr \<lparr>ar_success = True, ar_data = Some (if b = [1] then JString ''v''
          else JObject [(''proof'', JString (hex_text read_proof)), (''height'', JNumber ''6'')]), ar_error = None\<rparr>"
  "ul_join read_lib u p = Inr (u @ p)" "ul_method read_lib m \<longleftrightarrow> m \<in> {''GET'', ''POST''}"
  "ul_path read_lib u = drop 8 u" "ul_query read_lib u = None"
  by (simp_all add: read_lib_def client_lib.defs sample_client_lib_chain)
    (simp_all add: sample_client_lib_def chain_lib.defs sample_chain_def node.defs sample_node_def lib.defs sample_lib_def)

lemma truncate_fields:
  "json_from_slice (lib.truncate L) = json_from_slice L" "lib_grovedb (lib.truncate L) = lib_grovedb L"
  "hex_decode (lib.truncate L) = hex_decode L" "base64_decode (lib.truncate L) = base64_decode L"
  by (simp_all add: lib.truncate_def)

lemma good_key_signs_requests:
  assumes "hex_ok L" "cw_identity s = Some i" "ci_private_key_hex i = hex_encode L k" "length k = 32"
    and "ci_algorithm i = Ed25519_alg" "0 \<le> fst (utc_now_io s)"
  shows "\<exists>hs. client_sign_with_nonce L W method url body s = (Inr (Some hs), s\<lparr>cw_draws := cw_draws s + 1\<rparr>)"
proof -
  have now: "fst (utc_now_io (s\<lparr>cw_draws := cw_draws s + 1\<rparr>)) = fst (utc_now_io s)"
    by (simp add: utc_now_io_def)
  obtain hs where "sign_request_with_nonce L (cw_random s (cw_draws s)) (ci_did i) (ci_public_key_id i)
      (hex_encode L k) Ed25519_alg method (api_target L W url) body (s\<lparr>cw_draws := cw_draws s + 1\<rparr>)
      = (Inr hs, s\<lparr>cw_draws := cw_draws s + 1\<rparr>)"
    using good_key_signs [OF assms(1,4)] assms(6) now
    unfolding sign_request_with_nonce_headers Let_def by fastforce
  with assms show ?thesis by (simp add: client_sign_with_nonce_def draw_def)
qed

lemma byte_char: "(of_char (char_of (unat b) :: char) :: u8) = b"
proof -
  have "unat b < 256" using unat_lt2p [of b] by simp
  then have "of_char (char_of (unat b) :: char) = unat b" by (simp add: of_char_of)
  then have "of_nat (of_char (char_of (unat b) :: char)) = b" by simp
  then show ?thesis by (simp only: of_nat_of_char)
qed

lemma read_answers:
  assumes "cw_identity s = Some sample_identity" "w_epoch s = 0" "w_answer s = w_answer read_world"
    and "w_calls s < 2" "area \<in> {''data'', ''proof''}"
  shows "client_request read_lib read_client (ul_api_value read_lib) ''GET'' (data_path area ''sg'' ''k'') None True s
    = (Inr \<lparr>ar_success = True, ar_data = Some (if w_calls s = 0 then JString ''v''
          else JObject [(''proof'', JString (hex_text read_proof)), (''height'', JNumber ''6'')]), ar_error = None\<rparr>,
       s\<lparr>cw_draws := cw_draws s + 1, w_calls := w_calls s + 1\<rparr>)"
proof -
  let ?url = "''http://h/'' @ area @ ''/sg/k''"
  have ok: "hex_ok read_lib" by (rule hex_ok_text) simp_all
  obtain hs where signed: "client_sign_with_nonce read_lib read_client ''GET'' ?url [] s
      = (Inr (Some hs), s\<lparr>cw_draws := cw_draws s + 1\<rparr>)"
    using good_key_signs_requests [OF ok assms(1), of "replicate 32 3" read_client "''GET''" ?url "[]"] assms(2)
    by (auto simp: sample_identity_def utc_now_io_def)
  have target: "api_target read_lib read_client ?url = ''/'' @ area @ ''/sg/k''"
    by (simp add: api_target_def read_client_def sample_willow_def trim_end_matches_def Let_def)
  have reads: "carries_read_rights ''GET'' (''/'' @ area @ ''/sg/k'')"
    using assms(5) by (auto simp: carries_read_rights_def path_segments_def trim_start_matches_def)
  have client: "wc_base_url read_client = ''http://h/''" "wc_default_headers read_client = []"
    "wc_retry_config read_client = default_retry_config sample_client_lib"
    by (simp_all add: read_client_def sample_willow_def)
  have trim: "trim_start_matches (CHR ''/'') (data_path area ''sg'' ''k'') = area @ ''/sg/k''"
    using assms(5) by (auto simp: trim_start_matches_def data_path_def)
  have build: "build_request read_lib read_client ''GET'' (data_path area ''sg'' ''k'') None True s
      = (Inr (Send ''GET'' ?url hs []), s\<lparr>cw_draws := cw_draws s + 1\<rparr>)"
    using signed target reads by (simp add: build_request_def trim client unwrap_or_def)
  have limit: "answer_limit (data_path area ''sg'' ''k'') \<ge> 1"
    using assms(5) by (auto simp: answer_limit_def PROOF_def SMALL_def LARGE_def Let_def)
  have answer: "read_answer read_lib (ul_api_value read_lib) (data_path area ''sg'' ''k'') (read_response b)
      = Inr \<lparr>ar_success = True, ar_data = Some (if b = 1 then JString ''v''
          else JObject [(''proof'', JString (hex_text read_proof)), (''height'', JNumber ''6'')]), ar_error = None\<rparr>"
    if "b = 1 \<or> b = 2" for b
  proof -
    have shown: "read_text (utf8_lossy read_lib) (read_response b) n = Inr [char_of (unat b)]" if "1 \<le> n" for n
      using that by (simp add: read_text_def Http_Body.read_def read_response_def)
    have bytes: "str_bytes [char_of (unat b)] = [b]" by (simp add: str_bytes_def byte_char)
    have scan: "check_json [b] Full = Inr ()"
      using that by (auto simp: check_json_def check_json_within_def scan_units_def scan_byte_def quote_def
          is_digit_def is_lower_def scan_start_def MAX_VALUES_def CONTAINER_COST_def)
    show ?thesis
      unfolding read_answer_def shown [OF limit] rbind_simps bytes decode_checked_def scan
      using that by (auto simp: is_success_def read_response_def)
  qed
  have "make_request read_lib read_client (ul_api_value read_lib) ''GET'' (data_path area ''sg'' ''k'') None True s
      = (Inr \<lparr>ar_success = True, ar_data = Some (if w_calls s = 0 then JString ''v''
          else JObject [(''proof'', JString (hex_text read_proof)), (''height'', JNumber ''6'')]), ar_error = None\<rparr>,
         s\<lparr>cw_draws := cw_draws s + 1, w_calls := w_calls s + 1\<rparr>)"
    using assms(3,4) answer [of 1] answer [of 2]
    by (auto simp: make_request_def build send_def read_world_def)
  then show ?thesis
    by (rule first_attempt_answers) (simp add: client default_retry_config_def)
qed

lemma read_runs:
  "get_verified read_lib read_client ''sg'' ''k'' read_world
     = (Inr \<lparr>vv_value = JString ''v'', vv_height = 7\<rparr>, read_world\<lparr>cw_draws := 9, w_calls := 3\<rparr>)"
proof -
  let ?L = "lib.truncate read_lib"
  define s2 where "s2 = read_world\<lparr>cw_draws := 9, w_calls := 2\<rparr>"
  have null: "json (json_from_slice ?L) null_response SMALL = Inr example_status"
    by (simp add: json_def Http_Body.read_def null_response_def check_json_def check_json_within_def
        scan_units_def truncate_fields)
  have "get_value ?L url s2 = (Inr example_status, s2\<lparr>w_calls := 3\<rparr>)" for url
    by (simp add: get_value_def send_def s2_def read_world_def null)
  then have "status_heights ?L [''http://v''] s2 = ([7], s2\<lparr>w_calls := 3\<rparr>)"
    by (simp add: fetch_status_height_def example_status_def jpath_def jindex_def u64_member_def parse_seven)
  then have latest: "latest_chain_height ?L example_config s2 = (Inr 7, s2\<lparr>w_calls := 3\<rparr>)"
    by (simp add: latest_chain_height_def example_config_def config_builder_def reached_height_def
        get_latest_header_def bt_last_def s2_def read_world_def example_block_def)
  have "get_header_by_height (s2\<lparr>w_calls := 3\<rparr>) 7 = Some (example_block 7 7)"
    by (simp add: get_header_by_height_def bt_get_def s2_def read_world_def)
  then have "app_hash_after ?L example_config 6 (s2\<lparr>w_calls := 3\<rparr>) = (Inr (replicate 32 0), s2\<lparr>w_calls := 3\<rparr>)"
    by (simp add: app_hash_after_def checked_add_def example_block_def)
  then have root: "verify_root_after ?L example_config (replicate 32 0) 6 s2 = (Inr 7, s2\<lparr>w_calls := 3\<rparr>)"
    by (simp add: verify_root_after_def Let_def latest checked_add_def saturating_sub_def example_lag)
  have six: "parse_u64 ''6'' = Some 6"
    by (simp add: parse_u64_def parse_unsigned_def undec_def is_digit_char_def)
  have short: "length (hex_text read_proof) \<le> 2 * MAX_PROOF_BYTES"
    by (simp add: read_proof_def chain_proof_def subgrove_data_path_def str_bytes_def MAX_PROOF_BYTES_def)
  have proven: "check_served_proof read_lib ''sg'' ''k'' (JString ''v'')
      (Some (JObject [(''proof'', JString (hex_text read_proof)), (''height'', JNumber ''6'')]))
      = Inr (replicate 32 0, 6, JString ''v'')"
    unfolding check_served_proof_Inr
    by (intro exI [of _ "JObject [(''proof'', JString (hex_text read_proof)), (''height'', JNumber ''6'')]"]
        exI [of _ "hex_text read_proof"] exI [of _ read_proof] exI [of _ "[5]"])
      (simp add: served_height_def six short hex_bytes_text read_verifies served_value_def)
  have start: "cw_identity read_world = Some sample_identity" "w_epoch read_world = 0" "w_calls read_world = 0"
    "cw_draws read_world = 7"
    by (simp_all add: read_world_def sample_world_def)
  show ?thesis
    using root unfolding s2_def
    by (simp add: get_verified_def require_auth_def has_identity_def read_answers start proven
        get_or_create_light_client_def read_client_def [THEN arg_cong [where f = wc_light_client]]
        del: One_nat_def)
qed


end
