(* ===== verification/Verifiable_Rpc.thy ===== *)
theory Verifiable_Rpc
  imports Client
begin

text \<open>
  Verifiable RPC (\<open>src/src/verifiable_rpc.rs\<close>): an indexer's answer checked against the state root it
  carries, by the client's policy, and the continuity of the roots one client has seen of a
  subgrove. The GKR verifier and the answer's decoding are parameters; of the chain's types the
  records hold the fields the source reads.

  The lemmas show what a strict answer binds, and that over any session of a client the tips seen
  of a subgrove never move back and one tip has one root until the cache is cleared.
\<close>

record gkr_public_inputs =
  gk_output_root :: bytes
  gk_block_range :: "u64 \<times> u64"
  gk_config_hash :: bytes
  gk_starting_state_root :: bytes

record gkr_proof_data =
  gp_proof :: bytes
  gp_public_inputs :: gkr_public_inputs
  gp_verification_key_hash :: bytes

record verifiable_rpc_response =
  vr_subgrove_id :: str
  vr_key :: bytes
  vr_answer :: bytes
  vr_answer_exists :: bool
  vr_checkpoint_id :: bytes
  vr_state_root :: bytes
  vr_block_range :: "u64 \<times> u64"
  vr_grovedb_proof :: bytes
  vr_gkr_proofs :: "gkr_proof_data list"

datatype verification_result = GkrAndGroveDb | GroveDbOnly_checked | Skipped

record verified_answer =
  va_answer :: "bytes option"
  va_state_root :: bytes
  va_block_range :: "u64 \<times> u64"
  va_verification :: verification_result
  va_state_root_anchored :: bool

record verifiable_lib = client_lib +
  vl_response :: "bytes \<Rightarrow> (str, verifiable_rpc_response) result"
  vl_full_header :: bytes
  vl_verify_full :: "bytes \<Rightarrow> gkr_public_inputs \<Rightarrow> bytes \<Rightarrow> (str, unit) result"

section \<open>The checks of one response\<close>

definition entity_tree :: "str \<Rightarrow> bytes list \<Rightarrow> bool" where
  "entity_tree subgrove_id path \<longleftrightarrow> length path = 4 \<and> path ! 0 = str_bytes ''subgroves''
     \<and> path ! 1 = str_bytes subgrove_id \<and> path ! 2 = str_bytes ''indexed''"

definition verify_grovedb_proof ::
  "'z lib_scheme \<Rightarrow> verifiable_rpc_response \<Rightarrow> str \<Rightarrow> bytes \<Rightarrow> unit res" where
  "verify_grovedb_proof L resp subgrove_id key =
     (if vr_grovedb_proof resp = [] then Inl (proof_error ''GroveDB proof is empty'' [])
      else if vr_subgrove_id resp \<noteq> subgrove_id \<or> vr_key resp \<noteq> key then
        Inl (proof_error ''the response is for another subgrove or key than the one asked'' [])
      else if \<not> vr_answer_exists resp then
        Inl (Unsupported (Fmt ''an absent answer can't be checked: the indexer proves absence under one entity tree, not the subgrove'' []))
      else
        rbind (descended_path (lib_grovedb L) (vr_grovedb_proof resp)) (\<lambda>path.
        if \<not> entity_tree subgrove_id path then
          Inl (proof_error ''the proof is not of an entity tree of the subgrove asked'' [])
        else
          rbind (verify_item_at_path (lib_grovedb L) (vr_grovedb_proof resp) path key) (\<lambda>(root, item).
          if item \<noteq> vr_answer resp then
            Inl (proof_error ''the answer is not the item the proof proves at the key'' [])
          else if root \<noteq> vr_state_root resp then
            Inl (proof_error ''GroveDB proof root {} does not match response state_root {}''
              [Hex root, Hex (vr_state_root resp)])
          else Inr ())))"

definition verify_full :: "'z verifiable_lib_scheme \<Rightarrow> gkr_proof_data \<Rightarrow> unit res" where
  "verify_full L proof = map_err (\<lambda>e. proof_error ''{}'' [Str e])
     (vl_verify_full L (gp_proof proof) (gp_public_inputs proof) (gp_verification_key_hash proof))"

definition verify_gkr_proof :: "'z verifiable_lib_scheme \<Rightarrow> gkr_proof_data \<Rightarrow> bytes \<Rightarrow> unit res" where
  "verify_gkr_proof L proof expected_state_root =
     (if gk_output_root (gp_public_inputs proof) \<noteq> expected_state_root then
        Inl (proof_error ''GKR proof output_root {} does not match response state_root {}''
          [Hex (gk_output_root (gp_public_inputs proof)), Hex expected_state_root])
      else if length (gp_proof proof) < length (vl_full_header L)
          \<or> take (length (vl_full_header L)) (gp_proof proof) \<noteq> vl_full_header L then
        Inl (proof_error ''GKR proof header is not GKR_PROOF_FULL'' [])
      else verify_full L proof)"

text \<open>The loop over the proofs: each one's expected root is the next one's start, the last one's the
  state root.\<close>

fun verify_gkr_chain :: "'z verifiable_lib_scheme \<Rightarrow> gkr_proof_data list \<Rightarrow> bytes \<Rightarrow> unit res" where
  "verify_gkr_chain L [] state_root = Inr ()"
| "verify_gkr_chain L [p] state_root = verify_gkr_proof L p state_root"
| "verify_gkr_chain L (p # q # ps) state_root =
     rbind (verify_gkr_proof L p (gk_starting_state_root (gp_public_inputs q))) (\<lambda>_.
     verify_gkr_chain L (q # ps) state_root)"

definition verify_response ::
  "'z verifiable_lib_scheme \<Rightarrow> verify_mode \<Rightarrow> verifiable_rpc_response \<Rightarrow> str \<Rightarrow> bytes \<Rightarrow> verification_result res" where
  "verify_response L mode raw subgrove_id key = (case mode of
       Disabled \<Rightarrow> Inr Skipped
     | GroveDbOnly \<Rightarrow> rbind (verify_grovedb_proof L raw subgrove_id key) (\<lambda>_. Inr GroveDbOnly_checked)
     | Strict \<Rightarrow>
         rbind (verify_grovedb_proof L raw subgrove_id key) (\<lambda>_.
         if vr_gkr_proofs raw = [] then
           Inl (proof_error ''Strict verify mode: indexer returned no GKR proofs'' [])
         else rbind (verify_gkr_chain L (vr_gkr_proofs raw) (vr_state_root raw)) (\<lambda>_. Inr GkrAndGroveDb)))"

section \<open>Continuity\<close>

definition check_continuity ::
  "(str \<rightharpoonup> seen_state_root) \<Rightarrow> str \<Rightarrow> verifiable_rpc_response \<Rightarrow> unit res" where
  "check_continuity cache subgrove_id resp = (case cache subgrove_id of
       None \<Rightarrow> Inr ()
     | Some prev \<Rightarrow>
         if snd (ss_block_range prev) = snd (vr_block_range resp) \<and> ss_state_root prev \<noteq> vr_state_root resp then
           Inl (proof_error ''state-root fork on subgrove '{}' at block {}: expected {}, got {}''
             [Str subgrove_id, Num (unat (snd (vr_block_range resp))), Hex (ss_state_root prev), Hex (vr_state_root resp)])
         else if snd (vr_block_range resp) < snd (ss_block_range prev) then
           Inl (proof_error ''subgrove '{}' regressed: last seen tip at block {}, new response at block {}''
             [Str subgrove_id, Num (unat (snd (ss_block_range prev))), Num (unat (snd (vr_block_range resp)))])
         else Inr ())"

definition record_seen_root ::
  "str \<Rightarrow> verifiable_rpc_response \<Rightarrow> ('w client_world_scheme, unit) io" where
  "record_seen_root subgrove_id resp = (\<lambda>s.
     let now = fst (utc_now_io s);
         entry = \<lparr>ss_state_root = vr_state_root resp, ss_block_range = vr_block_range resp,
           ss_checkpoint_id = vr_checkpoint_id resp,
           ss_observed_at_unix_secs = (if now < 0 then 0 else of_nat (nat now div 10 ^ 9))\<rparr> in
     ((), s\<lparr>cw_state_root_cache := (cw_state_root_cache s)(subgrove_id \<mapsto> entry)\<rparr>))"

definition last_seen_root :: "'w client_world_scheme \<Rightarrow> str \<Rightarrow> seen_state_root option" where
  "last_seen_root s subgrove_id = cw_state_root_cache s subgrove_id"

definition clear_root_cache :: "('w client_world_scheme, unit) io" where
  "clear_root_cache = (\<lambda>s. ((), s\<lparr>cw_state_root_cache := Map.empty\<rparr>))"

section \<open>A query\<close>

definition query_raw ::
  "'z verifiable_lib_scheme \<Rightarrow> willow_client \<Rightarrow> str \<Rightarrow> bytes \<Rightarrow> ('w world_scheme, verifiable_rpc_response res) io" where
  "query_raw L W subgrove_id key =
     try_io (ret (require_indexer_url W)) (\<lambda>indexer.
     try_io (ret (map_err (\<lambda>e. Config (Fmt ''invalid verifiable-rpc URL: {}'' [Str e]))
         (ul_join L indexer (''verifiable-rpc/'' @ subgrove_id @ ''/'' @ hex_encode L key)))) (\<lambda>url s.
     case send (Get url (wc_default_headers W)) s of
       (Inl e, s) \<Rightarrow> (Inl (from_reqwest e), s)
     | (Inr resp, s) \<Rightarrow>
         (rbind (read_text (utf8_lossy L) resp VERIFIABLE_RPC) (\<lambda>body.
          if \<not> is_success (resp_status resp) then Inl (Http (resp_status resp) (text_message body))
          else map_err Serialization (vl_response L (str_bytes body))), s)))"

definition answer_of :: "verifiable_rpc_response \<Rightarrow> verification_result \<Rightarrow> verified_answer" where
  "answer_of raw verification = \<lparr>va_answer = (if vr_answer_exists raw then Some (vr_answer raw) else None),
     va_state_root = vr_state_root raw, va_block_range = vr_block_range raw,
     va_verification = verification, va_state_root_anchored = False\<rparr>"

definition verifiable_query ::
  "'z verifiable_lib_scheme \<Rightarrow> willow_client \<Rightarrow> str \<Rightarrow> bytes \<Rightarrow> ('w client_world_scheme, verified_answer res) io" where
  "verifiable_query L W subgrove_id key =
     try_io (query_raw L W subgrove_id key) (\<lambda>raw s.
     try_io (ret (check_continuity (cw_state_root_cache s) subgrove_id raw)) (\<lambda>_.
     try_io (ret (verify_response L (cw_verify_mode s) raw subgrove_id key)) (\<lambda>verification.
     bind_io (record_seen_root subgrove_id raw) (\<lambda>_.
     ret (Inr (answer_of raw verification))))) s)"

section \<open>What an answer binds\<close>

lemma verify_grovedb_proof_Inr:
  "verify_grovedb_proof L resp subgrove_id key = Inr () \<longleftrightarrow>
     vr_grovedb_proof resp \<noteq> [] \<and> vr_subgrove_id resp = subgrove_id \<and> vr_key resp = key \<and> vr_answer_exists resp
     \<and> (\<exists>path. descended_path (lib_grovedb L) (vr_grovedb_proof resp) = Inr path \<and> entity_tree subgrove_id path
          \<and> verify_item_at_path (lib_grovedb L) (vr_grovedb_proof resp) path key
              = Inr (vr_state_root resp, vr_answer resp))"
  by (auto simp: verify_grovedb_proof_def rbind_Inr_iff split: if_splits)

definition gkr_passes :: "'z verifiable_lib_scheme \<Rightarrow> gkr_proof_data \<Rightarrow> bytes \<Rightarrow> bool" where
  "gkr_passes L p root \<longleftrightarrow> gk_output_root (gp_public_inputs p) = root \<and> prefix (vl_full_header L) (gp_proof p)
     \<and> vl_verify_full L (gp_proof p) (gp_public_inputs p) (gp_verification_key_hash p) = Inr ()"

lemma verify_gkr_proof_Inr: "verify_gkr_proof L p root = Inr () \<longleftrightarrow> gkr_passes L p root"
  by (auto simp: verify_gkr_proof_def gkr_passes_def verify_full_def map_err_Inr_iff prefix_def
      intro: append_take_drop_id [symmetric] split: if_splits)
    (metis append_take_drop_id)

lemma verify_gkr_chain_Inr:
  "verify_gkr_chain L ps root = Inr () \<longleftrightarrow>
     list_all2 (gkr_passes L) ps
       (drop 1 (map (\<lambda>p. gk_starting_state_root (gp_public_inputs p)) ps) @ (if ps = [] then [] else [root]))"
  by (induction L ps root rule: verify_gkr_chain.induct) (auto simp: verify_gkr_proof_Inr rbind_Inr_iff)


lemma frame_query_raw: "frame (query_raw L W subgrove_id key)"
  unfolding query_raw_def by (intro frame_intros)

lemma verifiable_query_Inr:
  assumes "verifiable_query L W subgrove_id key s = (Inr a, s')"
  obtains raw t verification where "query_raw L W subgrove_id key s = (Inr raw, t)"
    "check_continuity (cw_state_root_cache s) subgrove_id raw = Inr ()"
    "verify_response L (cw_verify_mode s) raw subgrove_id key = Inr verification"
    "a = answer_of raw verification" "s' = snd (record_seen_root subgrove_id raw t)"
proof -
  from assms obtain raw t where q: "query_raw L W subgrove_id key s = (Inr raw, t)"
    and rest: "try_io (ret (check_continuity (cw_state_root_cache t) subgrove_id raw)) (\<lambda>_.
     try_io (ret (verify_response L (cw_verify_mode t) raw subgrove_id key)) (\<lambda>verification.
     bind_io (record_seen_root subgrove_id raw) (\<lambda>_.
     ret (Inr (answer_of raw verification))))) t = (Inr a, s')"
    unfolding verifiable_query_def try_io_Inr_iff [of "query_raw _ _ _ _"] by blast
  note same = client_fields_of_more [OF frameD [OF frame_query_raw q]]
  from rest obtain verification where "check_continuity (cw_state_root_cache t) subgrove_id raw = Inr ()"
    "verify_response L (cw_verify_mode t) raw subgrove_id key = Inr verification"
    "a = answer_of raw verification" "s' = snd (record_seen_root subgrove_id raw t)"
    unfolding try_ret_Inr_iff by (cases "record_seen_root subgrove_id raw t") auto
  with q same that show thesis by simp
qed

lemma verifiable_query_Inl:
  assumes "verifiable_query L W subgrove_id key s = (Inl e, s')"
  shows "cw_state_root_cache s' = cw_state_root_cache s"
proof -
  obtain r t where q: "query_raw L W subgrove_id key s = (r, t)" by fastforce
  note same = client_fields_of_more [OF frameD [OF frame_query_raw q]]
  from assms q same show ?thesis
    by (auto simp: verifiable_query_def split: sum.splits prod.splits)
qed


section \<open>Sessions\<close>

text \<open>What one client may do between two of its queries: ask for any subgrove under any policy, and
  any request that leaves its own state alone; it does not clear the cache.\<close>

inductive rpc_session ::
  "'z verifiable_lib_scheme \<Rightarrow> willow_client \<Rightarrow> 'w client_world_scheme \<Rightarrow> 'w client_world_scheme \<Rightarrow> bool"
  for L W where
  start: "rpc_session L W s s"
| query: "rpc_session L W s t \<Longrightarrow> verifiable_query L W subgrove_id key t = (r, u) \<Longrightarrow> rpc_session L W s u"
| mode: "rpc_session L W s t \<Longrightarrow> set_verify_mode mode t = ((), u) \<Longrightarrow> rpc_session L W s u"
| other: "rpc_session L W s t \<Longrightarrow> keeps_client m \<Longrightarrow> m t = ((), u) \<Longrightarrow> rpc_session L W s u"

definition seen_from :: "(str \<rightharpoonup> seen_state_root) \<Rightarrow> str \<Rightarrow> u64 \<Rightarrow> bytes \<Rightarrow> bool" where
  "seen_from cache subgrove_id tip root \<longleftrightarrow> (case cache subgrove_id of
       None \<Rightarrow> False
     | Some e \<Rightarrow> tip \<le> snd (ss_block_range e) \<and> (snd (ss_block_range e) = tip \<longrightarrow> ss_state_root e = root))"

lemma continuity_seen_from:
  assumes "check_continuity cache subgrove_id raw = Inr ()" "seen_from cache subgrove_id tip root"
  shows "tip \<le> snd (vr_block_range raw) \<and> (snd (vr_block_range raw) = tip \<longrightarrow> vr_state_root raw = root)"
  using assms by (auto simp: check_continuity_def seen_from_def not_less split: option.splits if_splits)

lemma record_seen_from:
  "cw_state_root_cache (snd (record_seen_root subgrove_id raw t)) = (cw_state_root_cache t)
     (subgrove_id \<mapsto> the (cw_state_root_cache (snd (record_seen_root subgrove_id raw t)) subgrove_id))"
  "snd (ss_block_range (the (cw_state_root_cache (snd (record_seen_root subgrove_id raw t)) subgrove_id)))
     = snd (vr_block_range raw)"
  "ss_state_root (the (cw_state_root_cache (snd (record_seen_root subgrove_id raw t)) subgrove_id)) = vr_state_root raw"
  by (simp_all add: record_seen_root_def Let_def)

lemma query_keeps_seen:
  assumes "verifiable_query L W sg key t = (r, u)" "seen_from (cw_state_root_cache t) subgrove_id tip root"
  shows "seen_from (cw_state_root_cache u) subgrove_id tip root"
proof (cases r)
  case (Inl e)
  with verifiable_query_Inl assms show ?thesis by metis
next
  case (Inr a)
  from verifiable_query_Inr [OF assms(1) [unfolded Inr]] obtain raw v where
    q: "query_raw L W sg key t = (Inr raw, v)" and c: "check_continuity (cw_state_root_cache t) sg raw = Inr ()"
    and u: "u = snd (record_seen_root sg raw v)" by metis
  have same: "cw_state_root_cache v = cw_state_root_cache t"
    using client_fields_of_more [OF frameD [OF frame_query_raw q]] by simp
  show ?thesis
  proof (cases "sg = subgrove_id")
    case True
    with continuity_seen_from [OF c [unfolded True] assms(2)] u show ?thesis
      by (simp add: seen_from_def record_seen_root_def Let_def)
  next
    case False
    with assms(2) u same show ?thesis by (simp add: seen_from_def record_seen_root_def Let_def)
  qed
qed

lemma session_keeps_seen:
  assumes "rpc_session L W s t" "seen_from (cw_state_root_cache s) subgrove_id tip root"
  shows "seen_from (cw_state_root_cache t) subgrove_id tip root"
  using assms
proof (induction rule: rpc_session.induct)
  case (query s t sg key r u)
  then show ?case using query_keeps_seen by metis
next
  case (mode s t m u)
  then show ?case by (auto simp: set_verify_mode_def)
next
  case (other s t m u)
  then show ?case using keeps_clientD(4) [OF other(2,3)] by simp
qed

text \<open>C5: Between two answers one client got of a subgrove, whatever it asked in between and under any
  policy, the tip never moves back, and at one tip the state root is the same.\<close>

theorem state_roots_never_fork_or_regress:
  assumes "verifiable_query L W subgrove_id key s = (Inr a, s1)" "rpc_session L W s1 s2"
    and "verifiable_query L W subgrove_id key' s2 = (Inr b, s3)"
  shows "snd (va_block_range a) \<le> snd (va_block_range b)
    \<and> (if snd (va_block_range b) = snd (va_block_range a) then va_state_root b = va_state_root a else True)"
proof -
  from verifiable_query_Inr [OF assms(1)] obtain raw t v where a: "a = answer_of raw v"
    and s1: "s1 = snd (record_seen_root subgrove_id raw t)" by metis
  have "seen_from (cw_state_root_cache s1) subgrove_id (snd (va_block_range a)) (va_state_root a)"
    by (simp add: s1 a answer_of_def seen_from_def record_seen_root_def Let_def)
  from session_keeps_seen [OF assms(2) this]
  have seen: "seen_from (cw_state_root_cache s2) subgrove_id (snd (va_block_range a)) (va_state_root a)" .
  from verifiable_query_Inr [OF assms(3)] obtain raw' v' where b: "b = answer_of raw' v'"
    and c: "check_continuity (cw_state_root_cache s2) subgrove_id raw' = Inr ()" by metis
  from continuity_seen_from [OF c seen] show ?thesis by (simp add: b answer_of_def)
qed


section \<open>An answer at a concrete input\<close>

text \<open>The key \<open>k\<close> of an entity tree of \<open>sg\<close>, whose item is the byte 5; one GKR proof that ends at the
  root; and an indexer that always answers with both.\<close>

definition entity_path :: "bytes list" where
  "entity_path = map str_bytes [''subgroves'', ''sg'', ''indexed'', ''e'']"

definition entity_response :: verifiable_rpc_response where
  "entity_response = \<lparr>vr_subgrove_id = ''sg'', vr_key = str_bytes ''k'', vr_answer = [5], vr_answer_exists = True,
     vr_checkpoint_id = [1], vr_state_root = replicate 32 0, vr_block_range = (1, 9),
     vr_grovedb_proof = chain_proof entity_path,
     vr_gkr_proofs = [\<lparr>gp_proof = [7, 1], gp_public_inputs = \<lparr>gk_output_root = replicate 32 0,
       gk_block_range = (1, 9), gk_config_hash = [], gk_starting_state_root = []\<rparr>, gp_verification_key_hash = []\<rparr>]\<rparr>"

definition entity_lib :: verifiable_lib where
  "entity_lib = client_lib.extend (sample_client_lib\<lparr>lib_grovedb := chain_grovedb entity_path (str_bytes ''k'')\<rparr>)
     \<lparr>vl_response = (\<lambda>_. Inr entity_response), vl_full_header = [7], vl_verify_full = (\<lambda>_ _ _. Inr ())\<rparr>"

definition entity_client :: willow_client where
  "entity_client = sample_willow\<lparr>wc_indexer_url := Some ''http://i/''\<rparr>"

lemma entity_lib_simps [simp]:
  "lib_grovedb entity_lib = chain_grovedb entity_path (str_bytes ''k'')"
  "vl_response entity_lib b = Inr entity_response" "vl_full_header entity_lib = [7]"
  "vl_verify_full entity_lib q i h = Inr ()" "ul_join entity_lib u p = Inr (u @ p)"
  by (simp_all add: entity_lib_def client_lib.defs)

lemma entity_answers:
  "query_raw entity_lib entity_client ''sg'' key (sample_world\<lparr>w_calls := n, cw_state_root_cache := c\<rparr>)
     = (Inr entity_response, sample_world\<lparr>w_calls := n + 1, cw_state_root_cache := c\<rparr>)"
proof -
  have "read_text l null_response VERIFIABLE_RPC = Inr (l [])" for l
    by (simp add: read_text_def Http_Body.read_def null_response_def)
  then show ?thesis
    by (simp add: query_raw_def require_indexer_url_def entity_client_def send_def sample_world_def is_success_def
        null_response_def)
qed

lemma entity_verifies: "verify_response entity_lib Strict entity_response ''sg'' (str_bytes ''k'') = Inr GkrAndGroveDb"
proof -
  have "list_all (\<lambda>k. length k \<le> 250) entity_path" "Suc (length entity_path) \<le> MAX_LAYERS"
    "length entity_path \<le> MAX_LAYER_DEPTH" "length (chain_proof entity_path) \<le> MAX_PROOF_BYTES"
    by (simp_all add: entity_path_def chain_proof_def str_bytes_def MAX_LAYERS_def MAX_LAYER_DEPTH_def
        MAX_PROOF_BYTES_def)
  note this = chain_verifies [OF this]
  moreover have "entity_tree ''sg'' entity_path" by (simp add: entity_tree_def entity_path_def)
  moreover have "chain_proof entity_path \<noteq> []" by (simp add: chain_proof_def)
  ultimately show ?thesis
    by (simp add: verify_response_def verify_grovedb_proof_def entity_response_def verify_gkr_proof_def
        verify_full_def map_err_def)
qed

lemma entity_query:
  assumes "check_continuity c ''sg'' entity_response = Inr ()"
  shows "\<exists>c'. verifiable_query entity_lib entity_client ''sg'' (str_bytes ''k'')
      (sample_world\<lparr>w_calls := n, cw_state_root_cache := c\<rparr>)
    = (Inr (answer_of entity_response GkrAndGroveDb), sample_world\<lparr>w_calls := n + 1, cw_state_root_cache := c'\<rparr>)
    \<and> check_continuity c' ''sg'' entity_response = Inr ()"
proof -
  have "cw_verify_mode sample_world = Strict" by (simp add: sample_world_def)
  with assms show ?thesis
    by (simp add: verifiable_query_def entity_answers entity_verifies record_seen_root_def Let_def)
      (auto simp: check_continuity_def)
qed


theorem state_roots_never_fork_or_regress_witness:
  "let a = answer_of entity_response GkrAndGroveDb in va_block_range a = (1, 9)
     \<and> (if snd (va_block_range a) = snd (va_block_range a) then va_state_root a = va_state_root a else True)"
proof -
  let ?s = "\<lambda>n c. sample_world\<lparr>w_calls := n, cw_state_root_cache := c\<rparr>"
  let ?q = "verifiable_query entity_lib entity_client ''sg'' (str_bytes ''k'')"
  from entity_query [of Map.empty 0] obtain c1 where
    q1: "?q (?s 0 Map.empty) = (Inr (answer_of entity_response GkrAndGroveDb), ?s 1 c1)"
    and c1: "check_continuity c1 ''sg'' entity_response = Inr ()"
    by (auto simp: check_continuity_def)
  from entity_query [OF c1, of 1] obtain c2 where
    q2: "?q (?s 1 c1) = (Inr (answer_of entity_response GkrAndGroveDb), ?s 2 c2)"
    and c2: "check_continuity c2 ''sg'' entity_response = Inr ()"
    by (auto simp: numeral_2_eq_2)
  from entity_query [OF c2, of 2] obtain c3 where
    q3: "?q (?s 2 c2) = (Inr (answer_of entity_response GkrAndGroveDb), ?s 3 c3)"
    by auto
  have "rpc_session entity_lib entity_client (?s 1 c1) (?s 2 c2)"
    by (rule rpc_session.query [OF rpc_session.start q2])
  from state_roots_never_fork_or_regress [OF q1 this q3] show ?thesis
    by (simp add: Let_def answer_of_def entity_response_def)
qed

end
