(* ===== verification/Client_Session.thy ===== *)
theory Client_Session
  imports Data_Ops Verifiable_Rpc
begin

text \<open>
  A client over its life: the builders' settings (\<open>src/src/client.rs\<close>, \<open>src/src/light_client.rs\<close>),
  and what one client may do after it was built, in any order. Reading a configuration file is given
  by its result, and its decoding is a parameter; so is the text of a random UUID.

  The lemmas show which settings a built client has, that its requests, queries and routed queries
  leave its own state alone, and that in every session the light client its verified reads use is
  the one its builder named.
\<close>

section \<open>Settings\<close>

definition builder_api_url :: "str \<Rightarrow> client_builder \<Rightarrow> client_builder" where
  "builder_api_url u B = B\<lparr>cb_api_url := Some u\<rparr>"

definition builder_consensus_url :: "str \<Rightarrow> client_builder \<Rightarrow> client_builder" where
  "builder_consensus_url u B = B\<lparr>cb_consensus_url := Some u\<rparr>"

definition builder_indexer_url :: "str \<Rightarrow> client_builder \<Rightarrow> client_builder" where
  "builder_indexer_url u B = B\<lparr>cb_indexer_url := Some u\<rparr>"

definition builder_api_key :: "str \<Rightarrow> client_builder \<Rightarrow> client_builder" where
  "builder_api_key key B = B\<lparr>cb_api_key := Some key\<rparr>"

definition builder_timeout :: "duration \<Rightarrow> client_builder \<Rightarrow> client_builder" where
  "builder_timeout t B = B\<lparr>cb_timeout := t\<rparr>"

definition builder_retry_config :: "retry_config \<Rightarrow> client_builder \<Rightarrow> client_builder" where
  "builder_retry_config c B = B\<lparr>cb_retry_config := c\<rparr>"

definition builder_light_client_config :: "light_client_config \<Rightarrow> client_builder \<Rightarrow> client_builder" where
  "builder_light_client_config c B = B\<lparr>cb_light_client_config := Some c\<rparr>"

definition builder_light_client_config_file ::
  "(bytes \<Rightarrow> (str, light_client_config) result) \<Rightarrow> (str, str) result \<Rightarrow> client_builder \<Rightarrow> client_builder res" where
  "builder_light_client_config_file decode contents B =
     rbind (map_err (\<lambda>e. Config (Fmt ''Failed to read light client config: {}'' [Str e])) contents) (\<lambda>config_str.
     rbind (map_err (\<lambda>e. Config (Fmt ''Invalid light client config: {}'' [Str e])) (decode (str_bytes config_str)))
       (\<lambda>config. Inr (builder_light_client_config config B)))"

text \<open>The light client's builder.\<close>

definition with_validator_endpoints :: "str list \<Rightarrow> light_client_config \<Rightarrow> light_client_config" where
  "with_validator_endpoints endpoints C = C\<lparr>validator_endpoints := endpoints\<rparr>"

definition with_min_validators :: "nat \<Rightarrow> light_client_config \<Rightarrow> light_client_config" where
  "with_min_validators n C = C\<lparr>min_validators_for_consensus := n\<rparr>"

definition with_trust_threshold :: "u64 \<Rightarrow> u64 \<Rightarrow> light_client_config \<Rightarrow> light_client_config" where
  "with_trust_threshold numerator denominator C = C\<lparr>trust_threshold := (numerator, denominator)\<rparr>"

definition with_trusting_period :: "duration \<Rightarrow> light_client_config \<Rightarrow> light_client_config" where
  "with_trusting_period period C = C\<lparr>trusting_period := period\<rparr>"

definition with_max_clock_drift :: "duration \<Rightarrow> light_client_config \<Rightarrow> light_client_config" where
  "with_max_clock_drift drift C = C\<lparr>max_clock_drift := drift\<rparr>"

definition with_rpc_timeout :: "duration \<Rightarrow> light_client_config \<Rightarrow> light_client_config" where
  "with_rpc_timeout t C = C\<lparr>rpc_timeout := t\<rparr>"

definition with_auto_sync :: "bool \<Rightarrow> light_client_config \<Rightarrow> light_client_config" where
  "with_auto_sync b C = C\<lparr>auto_sync := b\<rparr>"

definition with_max_proof_lag_blocks :: "u64 \<Rightarrow> light_client_config \<Rightarrow> light_client_config" where
  "with_max_proof_lag_blocks n C = C\<lparr>max_proof_lag_blocks := n\<rparr>"

section \<open>The rest of a client's operations\<close>

definition health ::
  "'z client_lib_scheme \<Rightarrow> willow_client \<Rightarrow> (bytes \<Rightarrow> (str, 't) result) \<Rightarrow> ('w client_world_scheme, 't res) io" where
  "health L W decode = client_request L W decode ''GET'' ''/health'' None False"

definition consensus :: "willow_client \<Rightarrow> consensus_client res" where
  "consensus W = ok_or (wc_consensus_client W)
     (Panicked ''Consensus client not configured. Use WillowClientBuilder::consensus_url() to configure.'')"

definition generate_id :: "str \<Rightarrow> str option \<Rightarrow> str" where
  "generate_id uuid prefix_opt =
     (let i = take 12 (filter (\<lambda>c. c \<noteq> CHR ''-'') uuid) in
      case prefix_opt of Some p \<Rightarrow> p @ ''_'' @ i | None \<Rightarrow> i)"

section \<open>What a built client has\<close>

lemma build_client_Inr:
  assumes "build_client L B = Inr W"
  shows "wc_light_client W = cb_light_client_config B"
    and "wc_consensus_client W = map_option (\<lambda>u. \<lparr>consensus_rpc_url = u, consensus_api_url = Some (wc_base_url W)\<rparr>)
           (cb_consensus_url B)"
    and "parse_api_url L (unwrap_or (cb_api_url B) ''http://localhost:3031'') = Inr (wc_base_url W)"
    and "wc_timeout W = cb_timeout B" "wc_retry_config W = cb_retry_config B"
proof -
  from assms obtain api indexer headers lc where
    api: "parse_api_url L (unwrap_or (cb_api_url B) ''http://localhost:3031'') = Inr api"
    and lc: "(case cb_light_client_config B of None \<Rightarrow> Inr None
         | Some config \<Rightarrow> map_sum id Some (new_light_client (lib.truncate L) config)) = Inr lc"
    and W: "W = \<lparr>wc_timeout = cb_timeout B, wc_default_headers = headers, wc_base_url = api,
       wc_indexer_url = indexer, wc_retry_config = cb_retry_config B, wc_light_client = lc,
       wc_consensus_client = map_option (\<lambda>u. \<lparr>consensus_rpc_url = u, consensus_api_url = Some api\<rparr>)
         (cb_consensus_url B)\<rparr>"
    unfolding build_client_def rbind_Inr_iff by (metis (no_types, lifting) sum.inject(2))
  from lc have "lc = cb_light_client_config B"
    by (auto dest!: map_sum_Inr new_light_client_Inr split: option.splits)
  with api W show "wc_light_client W = cb_light_client_config B"
    "wc_consensus_client W = map_option (\<lambda>u. \<lparr>consensus_rpc_url = u, consensus_api_url = Some (wc_base_url W)\<rparr>)
           (cb_consensus_url B)"
    "parse_api_url L (unwrap_or (cb_api_url B) ''http://localhost:3031'') = Inr (wc_base_url W)"
    "wc_timeout W = cb_timeout B" "wc_retry_config W = cb_retry_config B"
    by simp_all
qed

text \<open>The light client that a builder's settings name.\<close>

definition named_by_builder ::
  "'z client_lib_scheme \<Rightarrow> client_builder \<Rightarrow> light_client_config \<Rightarrow> bool" where
  "named_by_builder L B lc \<longleftrightarrow> (case cb_light_client_config B of
       Some configured \<Rightarrow> lc = configured
     | None \<Rightarrow> (case cb_consensus_url B of
         Some u \<Rightarrow> lc = first_use_config (trim_end_matches (CHR ''/'') u)
       | None \<Rightarrow> (\<exists>api host rpc. parse_api_url L (unwrap_or (cb_api_url B) ''http://localhost:3031'') = Inr api
           \<and> ul_host L api = Some host \<and> is_loopback host \<and> ul_port L api = Some 3031
           \<and> local_consensus_rpc L api = Some rpc \<and> lc = first_use_config rpc)))"

lemma trusted_is_named:
  assumes "build_client L B = Inr W" "trusted_by_caller L W lc"
  shows "named_by_builder L B lc"
  using assms(2) build_client_Inr [OF assms(1)]
  by (auto simp: trusted_by_caller_def named_by_builder_def split: option.splits)

section \<open>What leaves a client's own state alone\<close>

lemma keeps_ix_cache: "keeps_client (\<lambda>s. (x, s\<lparr>ix_cache := c s\<rparr>))"
  by (simp add: keeps_client_def)

lemma keeps_case_option:
  "keeps_client m \<Longrightarrow> (\<And>x. keeps_client (f x)) \<Longrightarrow> keeps_client (case y of None \<Rightarrow> m | Some x \<Rightarrow> f x)"
  by (cases y) simp_all

lemma keeps_case_sum:
  "(\<And>x. keeps_client (f x)) \<Longrightarrow> (\<And>x. keeps_client (g x)) \<Longrightarrow> keeps_client (case r of Inl x \<Rightarrow> f x | Inr x \<Rightarrow> g x)"
  by (cases r) simp_all

lemma keeps_fetch_indexers: "keeps_client (fetch_indexers L W)"
  unfolding fetch_indexers_def by (intro keeps_frame frame_intros)

lemma keeps_list_indexers [keeps_intros]: "keeps_client (list_indexers L W)"
proof -
  have "keeps_client (try_io (fetch_indexers L W) (\<lambda>entries s. (Inr entries, s\<lparr>ix_cache := Some (entries, w_now s)\<rparr>)))"
    by (intro keeps_try keeps_fetch_indexers keeps_ix_cache)
  then show ?thesis
    unfolding keeps_client_def Let_def list_indexers_def
    by (auto simp del: try_io_simp split: option.split)
qed

lemma keeps_for_subgrove [keeps_intros]: "keeps_client (for_subgrove L W subgrove_id)"
  unfolding for_subgrove_def by (intro keeps_case_option keeps_try keeps_list_indexers keeps_ret)

lemma keeps_ask_server [keeps_intros]: "keeps_client (ask_server L m D req)"
  unfolding ask_server_def by (rule keeps_send_read)

lemma keeps_call_validator [keeps_intros]: "keeps_client (call_validator L W D path body)"
  unfolding call_validator_def by (intro keeps_try keeps_ret keeps_client_sign keeps_ask_server)

lemma keeps_call_indexer [keeps_intros]: "keeps_client (call_indexer L W D info path body)"
  unfolding call_indexer_def Let_def by (intro keeps_try keeps_ret keeps_sign_request keeps_ask_server)

lemma keeps_evict [keeps_intros]: "keeps_client (evict_failing info e)" "keeps_client invalidate"
  by (auto simp: evict_failing_def evict_def invalidate_def keeps_ix_cache keeps_ret split: willow_error.split)

lemma keeps_try_indexers [keeps_intros]: "keeps_client (try_indexers L W D path body errs infos)"
  by (induction infos arbitrary: errs)
    (simp_all only: try_indexers.simps, (intro keeps_ret keeps_bind keeps_case_sum keeps_call_indexer keeps_evict; assumption?)+)

text \<open>A routed query changes the discovery's cache, and of the client's own state nothing.\<close>

lemma keeps_route [keeps_intros]: "keeps_client (route L W D path_prefix subgrove_id body source)"
  unfolding route_def Let_def
  by (cases source) (simp_all only: query_source.case,
    (intro keeps_try keeps_bind keeps_ret keeps_if keeps_case_sum keeps_for_subgrove keeps_try_indexers keeps_call_validator)+)

section \<open>Sessions\<close>

text \<open>The state \<open>build\<close> gives a client.\<close>

definition fresh_client :: "'w client_world_scheme \<Rightarrow> bool" where
  "fresh_client s \<longleftrightarrow> cw_identity s = None \<and> cw_light_client_once s = None
     \<and> cw_state_root_cache s = Map.empty \<and> cw_verify_mode s = Strict"

text \<open>One client's operations, in any order. \<open>other\<close> is every operation that leaves the client's
  own state alone, \<open>wrote\<close> a write of the consensus client's, of which only the nonces matter here,
  and \<open>synced\<close> any change of the headers a light client holds.\<close>

inductive client_session ::
  "'z indexing_lib_scheme \<Rightarrow> 'v verifiable_lib_scheme \<Rightarrow> willow_client \<Rightarrow> 'w client_world_scheme \<Rightarrow> bool"
  for L R W where
  start: "fresh_client s \<Longrightarrow> client_session L R W s"
| identity: "client_session L R W s \<Longrightarrow> set_identity_with_algorithm did private_key_hex key_id algorithm s = ((), t)
     \<Longrightarrow> client_session L R W t"
| no_identity: "client_session L R W s \<Longrightarrow> clear_identity s = ((), t) \<Longrightarrow> client_session L R W t"
| mode: "client_session L R W s \<Longrightarrow> set_verify_mode m s = ((), t) \<Longrightarrow> client_session L R W t"
| verified_read: "client_session L R W s \<Longrightarrow> get_verified L W subgrove_id key s = (r, t) \<Longrightarrow> client_session L R W t"
| light_client: "client_session L R W s \<Longrightarrow> get_or_create_light_client L W s = (lc, t) \<Longrightarrow> client_session L R W t"
| entity_read: "client_session L R W s \<Longrightarrow> verifiable_query R W subgrove_id ek s = (er, t) \<Longrightarrow> client_session L R W t"
| forgot: "client_session L R W s \<Longrightarrow> clear_root_cache s = ((), t) \<Longrightarrow> client_session L R W t"
| other: "client_session L R W s \<Longrightarrow> keeps_client op \<Longrightarrow> op s = ((), t) \<Longrightarrow> client_session L R W t"
| wrote: "client_session L R W s \<Longrightarrow> client_session L R W (s\<lparr>con_tracker := T\<rparr>)"
| synced: "client_session L R W s \<Longrightarrow> client_session L R W (s\<lparr>lc_headers := hs\<rparr>)"

lemma first_use_ok_cong:
  "cw_light_client_once t = cw_light_client_once s \<Longrightarrow> first_use_ok L W t = first_use_ok L W s"
  by (simp add: first_use_ok_def)

definition keeps_first_use ::
  "'z client_lib_scheme \<Rightarrow> willow_client \<Rightarrow> ('w client_world_scheme, 'a) io \<Rightarrow> bool" where
  "keeps_first_use L W m \<longleftrightarrow> (\<forall>s. first_use_ok L W s \<longrightarrow> first_use_ok L W (snd (m s)))"

lemma keeps_first_use_client: "keeps_client m \<Longrightarrow> keeps_first_use L W m"
  unfolding keeps_first_use_def keeps_client_def Let_def by (metis first_use_ok_cong)

lemma keeps_first_use_get: "keeps_first_use L W (get_or_create_light_client L W)"
  unfolding keeps_first_use_def by (metis get_or_create_trusted prod.collapse)

lemma keeps_first_use_try:
  fixes m :: "('w client_world_scheme, 'a res) io"
  assumes "keeps_first_use L W m" "\<And>x. keeps_first_use L W (f x)"
  shows "keeps_first_use L W (try_io m f)"
  unfolding keeps_first_use_def
proof (intro allI impI)
  fix s :: "'w client_world_scheme" assume "first_use_ok L W s"
  with assms(1) have "first_use_ok L W (snd (m s))" by (simp add: keeps_first_use_def)
  with assms(2) show "first_use_ok L W (snd (try_io m f s))"
    by (cases "m s") (auto simp: keeps_first_use_def split: sum.split)
qed

lemma keeps_first_use_prod:
  "(\<And>x y. keeps_first_use L W (f x y)) \<Longrightarrow> keeps_first_use L W (case p of (x, y) \<Rightarrow> f x y)"
  by (cases p) simp

lemma keeps_auth: "keeps_client require_auth"
  by (simp add: keeps_client_def require_auth_def)

lemma get_verified_first_use: "keeps_first_use L W (get_verified L W subgrove_id key)"
  unfolding get_verified_def
  by (intro keeps_first_use_try keeps_first_use_prod)
    (auto simp del: try_io_simp ret_simp intro: keeps_first_use_get keeps_first_use_client keeps_client_request
      keeps_auth keeps_ret keeps_frame [OF frame_verify_root_after])

lemma verifiable_query_once:
  assumes "verifiable_query R W subgrove_id key s = (r, t)"
  shows "cw_light_client_once t = cw_light_client_once s"
proof -
  obtain q u where q: "query_raw R W subgrove_id key s = (q, u)" by fastforce
  note same = client_fields_of_more [OF frameD [OF frame_query_raw q]]
  from assms q same show ?thesis
    by (auto simp: verifiable_query_def record_seen_root_def Let_def split: sum.splits prod.splits)
qed

lemma session_first_use: "client_session L R W s \<Longrightarrow> first_use_ok L W s"
proof (induction rule: client_session.induct)
  case (start s)
  then show ?case by (simp add: fresh_client_def first_use_ok_def)
next
  case (verified_read s subgrove_id key r t)
  then show ?case using get_verified_first_use [of L W subgrove_id key] unfolding keeps_first_use_def by (metis snd_conv)
next
  case (light_client s lc t)
  then show ?case using get_or_create_trusted by blast
next
  case (entity_read s subgrove_id ek er t)
  then show ?case using verifiable_query_once first_use_ok_cong by metis
next
  case (other s op t)
  then show ?case using keeps_clientD(1) first_use_ok_cong by metis
qed (auto simp: set_identity_with_algorithm_def clear_identity_def set_verify_mode_def clear_root_cache_def first_use_ok_def)

section \<open>A built client at a concrete input\<close>

definition read_builder :: client_builder where
  "read_builder = builder_light_client_config example_config (builder_api_url ''http://h'' (client_builder read_lib))"

lemma read_lib_more:
  "ul_parse read_lib = Inr" "ul_set_path read_lib u p = take 8 u @ p" "http_client_build read_lib t = Inr ()"
  "f64_of_nat read_lib = of_nat" "http_client_build (lib.truncate read_lib) t = Inr ()"
  by (simp_all add: read_lib_def client_lib.defs sample_client_lib_chain lib.truncate_def)
    (simp_all add: sample_client_lib_def chain_lib.defs sample_chain_def node.defs sample_node_def lib.defs sample_lib_def)

lemma read_client_built: "build_client read_lib read_builder = Inr read_client"
proof -
  have "new_light_client (lib.truncate read_lib) example_config = Inr example_config"
    by (simp add: new_light_client_def example_config_def config_builder_def read_lib_more)
  moreover have "parse_api_url read_lib ''http://h'' = Inr ''http://h/''"
    by (simp add: parse_api_url_def trim_end_matches_def read_lib_more Let_def)
  ultimately show ?thesis
    by (simp add: build_client_def read_builder_def builder_light_client_config_def builder_api_url_def
        client_builder_def unwrap_or_def key_headers_def read_lib_more read_client_def sample_willow_def default_retry_config_def)
qed

lemma read_session: "client_session read_lib entity_lib read_client read_world"
proof -
  have "fresh_client (read_world\<lparr>cw_identity := None\<rparr>)"
    by (simp add: fresh_client_def read_world_def sample_world_def)
  then have "client_session read_lib entity_lib read_client (read_world\<lparr>cw_identity := None\<rparr>)" by (rule client_session.start)
  moreover have "set_identity_with_algorithm ''did:willow:a'' (hex_text (replicate 32 3)) ''key'' Ed25519_alg
      (read_world\<lparr>cw_identity := None\<rparr>) = ((), read_world)"
    by (simp add: set_identity_with_algorithm_def read_world_def sample_world_def sample_identity_def)
  ultimately show ?thesis by (rule client_session.identity)
qed

end
