(* ===== verification/Completeness.thy ===== *)
theory Completeness
  imports Client
begin

text \<open>
  Completeness of a block's events (\<open>src/src/completeness.rs\<close>): the hash of a set of matched logs,
  and its comparison with the commitment the chain holds for the block. An address is 20 bytes and a
  topic 32, which the source has in their types and \<open>log_ok\<close> states. A length is written as a u32,
  so one over \<open>2 ^ 32\<close> would wrap.

  The lemmas show that the preimage determines the block and the logs, so that two sets that pass
  against one commitment are the same set or a collision of the hash.
\<close>

section \<open>The hash of an event set\<close>

definition DOMAIN_TAG :: bytes where
  "DOMAIN_TAG = str_bytes ''WILLOW_CRYPTO_EVENTS_V1''"

record log =
  lg_address :: bytes
  lg_topics :: "bytes list"
  lg_data :: bytes

definition log_preimage :: "log \<Rightarrow> bytes" where
  "log_preimage l = lg_address l @ be_bytes 4 (length (lg_topics l) mod 2 ^ 32) @ concat (lg_topics l)
     @ be_bytes 4 (length (lg_data l) mod 2 ^ 32) @ lg_data l"

definition event_set_preimage :: "u64 \<Rightarrow> log list \<Rightarrow> bytes" where
  "event_set_preimage block_number matched_logs =
     DOMAIN_TAG @ be_bytes 8 (unat block_number) @ be_bytes 8 (length matched_logs)
       @ concat (map log_preimage matched_logs)"

definition canonical_event_set_hash :: "'z lib_scheme \<Rightarrow> u64 \<Rightarrow> log list \<Rightarrow> bytes" where
  "canonical_event_set_hash L block_number matched_logs = keccak256 L (event_set_preimage block_number matched_logs)"

definition verify_served_events :: "'z lib_scheme \<Rightarrow> bytes \<Rightarrow> u64 \<Rightarrow> log list \<Rightarrow> bool" where
  "verify_served_events L commitment block_number matched_logs \<longleftrightarrow>
     canonical_event_set_hash L block_number matched_logs = commitment"

section \<open>The logs an indexer serves\<close>

record served_log =
  sl_address :: str
  sl_topics :: "str list"
  sl_data :: str

record completeness_lib = client_lib +
  co_matched_logs :: "bytes \<Rightarrow> (str, served_log list) result"

definition decode_0x :: "'z lib_scheme \<Rightarrow> str \<Rightarrow> bytes res" where
  "decode_0x L s = map_err from_hex_error (hex_decode L (unwrap_or (strip_prefix ''0x'' s) s))"

definition hex_fixed :: "'z lib_scheme \<Rightarrow> nat \<Rightarrow> str \<Rightarrow> str \<Rightarrow> bytes res" where
  "hex_fixed L n s name = rbind (decode_0x L s) (\<lambda>b.
     if length b \<noteq> n then Inl (Validation (Fmt ''{field} is {} bytes, expected {N}'' [Str name, Num (length b), Num n]))
     else Inr b)"

definition into_log :: "'z lib_scheme \<Rightarrow> served_log \<Rightarrow> log res" where
  "into_log L l =
     rbind (hex_fixed L 20 (sl_address l) ''log address'') (\<lambda>address.
     rbind (collect_results (\<lambda>t. hex_fixed L 32 t ''log topic'') (sl_topics l)) (\<lambda>topics.
     rbind (decode_0x L (sl_data l)) (\<lambda>data.
     Inr \<lparr>lg_address = address, lg_topics = topics, lg_data = data\<rparr>)))"

definition parse_matched_logs :: "'z completeness_lib_scheme \<Rightarrow> bytes \<Rightarrow> log list res" where
  "parse_matched_logs L body =
     rbind (map_err Serialization (co_matched_logs L body)) (\<lambda>parsed. collect_results (into_log L) parsed)"

section \<open>The check against the chain\<close>

definition matched_logs_path :: "str \<Rightarrow> u64 \<Rightarrow> str" where
  "matched_logs_path subgrove_id block_number =
     ''completeness/'' @ subgrove_id @ ''/'' @ dec (unat block_number) @ ''/matched-logs''"

definition read_matched_logs ::
  "'z completeness_lib_scheme \<Rightarrow> str \<Rightarrow> u64 \<Rightarrow> response \<Rightarrow> log list res" where
  "read_matched_logs L subgrove_id block_number resp =
     rbind (Http_Body.read resp LARGE) (\<lambda>body.
     if \<not> is_success (resp_status resp) then
       Inl (NotFound (Fmt ''indexer returned {status} for {subgrove_id} block {block_number} matched-logs''
         [Num (resp_status resp), Str subgrove_id, Num (unat block_number)]))
     else parse_matched_logs L body)"

definition verify_block_completeness ::
  "'z completeness_lib_scheme \<Rightarrow> willow_client \<Rightarrow> str \<Rightarrow> u64 \<Rightarrow> ('w world_scheme, bool res) io" where
  "verify_block_completeness L W subgrove_id block_number =
     try_io (ret (ok_or (wc_consensus_client W) (Config (Fmt
         ''verify_block_completeness needs a consensus URL; set consensus_url(..) on the builder'' []))))
       (\<lambda>consensus.
     try_io (events_commitment L consensus subgrove_id block_number) (\<lambda>found.
     try_io (ret (ok_or found (NotFound (Fmt ''no on-chain events_commitment for {subgrove_id} block {block_number}''
         [Str subgrove_id, Num (unat block_number)])))) (\<lambda>commitment.
     try_io (ret (require_indexer_url W)) (\<lambda>indexer.
     try_io (ret (map_err from_url_error (ul_join L indexer (matched_logs_path subgrove_id block_number)))) (\<lambda>url s.
     case send (Get url (wc_default_headers W)) s of
       (Inl e, s) \<Rightarrow> (Inl (from_reqwest e), s)
     | (Inr resp, s) \<Rightarrow>
         (rbind (read_matched_logs L subgrove_id block_number resp) (\<lambda>logs.
            Inr (verify_served_events L commitment block_number logs)), s))))))"

section \<open>The preimage determines the set\<close>

definition log_ok :: "log \<Rightarrow> bool" where
  "log_ok l \<longleftrightarrow> length (lg_address l) = 20 \<and> list_all (\<lambda>t. length t = 32) (lg_topics l)
     \<and> length (lg_topics l) < 2 ^ 32 \<and> length (lg_data l) < 2 ^ 32"

text \<open>Fields of fixed length, one after the other, are read off a text again.\<close>

lemma concat_fixed_inject:
  "list_all (\<lambda>t. length t = n) ts \<Longrightarrow> list_all (\<lambda>t. length t = n) us \<Longrightarrow> length ts = length us \<Longrightarrow>
     concat ts @ a = concat us @ b \<longleftrightarrow> ts = us \<and> a = b"
proof (induction ts arbitrary: us)
  case (Cons t ts)
  then show ?case by (cases us) auto
qed simp

lemma log_preimage_inject:
  assumes "log_ok l" "log_ok m"
  shows "log_preimage l @ a = log_preimage m @ b \<longleftrightarrow> l = m \<and> a = b"
proof
  assume eq: "log_preimage l @ a = log_preimage m @ b"
  from eq assms have addr: "lg_address l = lg_address m"
    and "be_bytes 4 (length (lg_topics l)) @ concat (lg_topics l) @ be_bytes 4 (length (lg_data l)) @ lg_data l @ a
      = be_bytes 4 (length (lg_topics m)) @ concat (lg_topics m) @ be_bytes 4 (length (lg_data m)) @ lg_data m @ b"
    by (auto simp: log_preimage_def log_ok_def)
  then have "be_bytes 4 (length (lg_topics l)) = be_bytes 4 (length (lg_topics m))"
    and rest: "concat (lg_topics l) @ be_bytes 4 (length (lg_data l)) @ lg_data l @ a
      = concat (lg_topics m) @ be_bytes 4 (length (lg_data m)) @ lg_data m @ b"
    by simp_all
  from this(1) assms have topics: "length (lg_topics l) = length (lg_topics m)"
    by (intro be_bytes_inject [of 4]) (simp_all add: log_ok_def)
  from rest concat_fixed_inject [OF _ _ topics, of 32] assms
  have t: "lg_topics l = lg_topics m"
    and rest: "be_bytes 4 (length (lg_data l)) @ lg_data l @ a = be_bytes 4 (length (lg_data m)) @ lg_data m @ b"
    by (simp_all add: log_ok_def)
  from rest have "be_bytes 4 (length (lg_data l)) = be_bytes 4 (length (lg_data m))"
    and data: "lg_data l @ a = lg_data m @ b" by simp_all
  from this(1) assms have "length (lg_data l) = length (lg_data m)"
    by (intro be_bytes_inject [of 4]) (simp_all add: log_ok_def)
  with data have "lg_data l = lg_data m" "a = b" by simp_all
  with addr t show "l = m \<and> a = b" by simp
qed simp

lemma logs_inject:
  "list_all log_ok ls \<Longrightarrow> list_all log_ok ms \<Longrightarrow> length ls = length ms \<Longrightarrow>
     concat (map log_preimage ls) = concat (map log_preimage ms) \<longleftrightarrow> ls = ms"
proof (induction ls arbitrary: ms)
  case (Cons l ls)
  then obtain m ms' where "ms = m # ms'" by (cases ms) auto
  with Cons log_preimage_inject [of l m] show ?case by auto
qed simp

definition set_ok :: "log list \<Rightarrow> bool" where
  "set_ok ls \<longleftrightarrow> list_all log_ok ls \<and> length ls < 2 ^ 64"

lemma event_set_preimage_inject:
  assumes "set_ok ls" "set_ok ms"
  shows "event_set_preimage n ls = event_set_preimage m ms \<longleftrightarrow> n = m \<and> ls = ms"
proof
  assume "event_set_preimage n ls = event_set_preimage m ms"
  then have n: "be_bytes 8 (unat n) = be_bytes 8 (unat m)" and c: "be_bytes 8 (length ls) = be_bytes 8 (length ms)"
    and rest: "concat (map log_preimage ls) = concat (map log_preimage ms)"
    by (simp_all add: event_set_preimage_def)
  have "unat n = unat m"
    using n unat_lt2p [of n] unat_lt2p [of m] by (intro be_bytes_inject [of 8]) simp_all
  moreover have "length ls = length ms"
    using c assms by (intro be_bytes_inject [of 8]) (simp_all add: set_ok_def)
  ultimately show "n = m \<and> ls = ms"
    using rest logs_inject [of ls ms] assms by (simp add: set_ok_def word_unat_eq_iff)
qed simp

text \<open>A collision: two different event sets with one hash.\<close>

definition collision :: "'z lib_scheme \<Rightarrow> u64 \<times> log list \<Rightarrow> u64 \<times> log list \<Rightarrow> bool" where
  "collision L x y \<longleftrightarrow> event_set_preimage (fst x) (snd x) \<noteq> event_set_preimage (fst y) (snd y)
     \<and> keccak256 L (event_set_preimage (fst x) (snd x)) = keccak256 L (event_set_preimage (fst y) (snd y))"

lemma served_events_determined:
  assumes "verify_served_events L c n ls" "verify_served_events L c m ms" "set_ok ls" "set_ok ms"
  shows "(n, ls) = (m, ms) \<or> collision L (n, ls) (m, ms)"
  using assms event_set_preimage_inject [OF assms(3,4), of n m]
  by (auto simp: verify_served_events_def canonical_event_set_hash_def collision_def)

lemma collect_results_all:
  "collect_results f xs = Inr ys \<Longrightarrow> (\<And>x y. f x = Inr y \<Longrightarrow> P y) \<Longrightarrow> list_all P ys"
  by (induction xs arbitrary: ys) (auto simp: rbind_Inr_iff)

lemma hex_fixed_length: "hex_fixed L n s name = Inr b \<Longrightarrow> length b = n"
  by (auto simp: hex_fixed_def rbind_Inr_iff split: if_splits)

lemma into_log_lengths:
  "into_log L l = Inr g \<Longrightarrow> length (lg_address g) = 20 \<and> list_all (\<lambda>t. length t = 32) (lg_topics g)"
  by (auto simp: into_log_def rbind_Inr_iff intro: hex_fixed_length elim!: collect_results_all)


section \<open>A complete block at a concrete input\<close>

text \<open>Block 5 with no matched logs: the anchor holds the hash of the empty set, and the indexer serves
  no logs.\<close>

definition empty_commitment :: bytes where
  "empty_commitment = take 32 (event_set_preimage 5 [])"

definition anchor_answer :: jvalue where
  "anchor_answer = JObject [(''result'', JObject [(''response'', JObject [(''value'', JString ''00'')])])]"

definition complete_lib :: completeness_lib where
  "complete_lib = client_lib.extend (sample_client_lib
       \<lparr>json_from_slice := (\<lambda>_. Inr anchor_answer),
        cl_anchor := (\<lambda>_. Inr \<lparr>ea_subgrove_id = ''sg'', ea_block_number = 5,
          ea_events_commitment = hex_text empty_commitment\<rparr>)\<rparr>)
     \<lparr>co_matched_logs = (\<lambda>_. Inr [])\<rparr>"

definition complete_client :: willow_client where
  "complete_client = sample_willow\<lparr>wc_indexer_url := Some ''http://i/'', wc_consensus_client := Some sample_client\<rparr>"

lemma complete_lib_simps [simp]:
  "hex_decode complete_lib = hex_bytes" "base64_decode complete_lib = hex_bytes"
  "json_from_slice complete_lib = (\<lambda>_. Inr anchor_answer)"
  "cl_anchor complete_lib b = Inr \<lparr>ea_subgrove_id = ''sg'', ea_block_number = 5,
          ea_events_commitment = hex_text empty_commitment\<rparr>"
  "ul_join complete_lib u p = Inr (u @ p)" "co_matched_logs complete_lib b = Inr []"
  "keccak256 complete_lib = (\<lambda>b. take 32 (b @ replicate 32 0))"
  by (simp_all add: complete_lib_def client_lib.defs sample_client_lib_chain)
    (simp_all add: sample_client_lib_def chain_lib.defs sample_chain_def node.defs sample_node_def lib.defs sample_lib_def)


end
