(* ===== verification/Eth_State.thy ===== *)
theory Eth_State
  imports Verifiable_Rpc
begin

text \<open>
  Reads of Ethereum state through an indexer (\<open>src/src/eth_state.rs\<close>): the request, the checks
  that an answer is of what was asked, the walks of its Merkle-Patricia proofs, and the helpers
  that compute a storage slot and unpack its value. The proof walk, the unpacking of a key to
  nibbles and the RLP encodings (\<open>alloy_trie\<close>, \<open>alloy_rlp\<close>), and the answer's decoding are
  parameters; byte arrays of fixed length are lists.

  The lemmas show that a strict read answers exactly the account, slots and block asked with
  values the walks passed, and that a pair's reserves are the parts of the proven slot.
\<close>

datatype state_verify_mode = Strict_state | AnchorOnly | Disabled_state

record account_state =
  as_nonce :: u64
  as_balance :: bytes
  as_storage_hash :: bytes
  as_code_hash :: bytes

record storage_slot_proof =
  sl_slot :: bytes
  sl_value :: bytes
  sl_proof_nodes :: "bytes list"

record state_proof =
  sp_address :: bytes
  sp_block_number :: u64
  sp_block_hash :: bytes
  sp_state_root :: bytes
  sp_account_proof_nodes :: "bytes list"
  sp_account_state :: account_state
  sp_storage_proofs :: "storage_slot_proof list"

record eth_response = verifiable_rpc_response +
  er_state_proofs :: "state_proof list"

type_synonym u256 = "256 word"
type_synonym u128 = "128 word"

record verified_state_read =
  vs_address :: bytes
  vs_block_number :: u64
  vs_block_hash :: bytes
  vs_state_root :: bytes
  vs_nonce :: u64
  vs_balance :: u256
  vs_storage_hash :: bytes
  vs_code_hash :: bytes
  vs_storage :: "(bytes \<times> u256) list"
  vs_mode :: state_verify_mode

record verified_call =
  vc_block_number :: u64
  vc_block_hash :: bytes
  vc_state_root :: bytes
  vc_result :: bytes
  vc_access_state_reads :: "verified_state_read list"
  vc_mode :: state_verify_mode

record eth_lib = client_lib +
  et_response :: "bytes \<Rightarrow> (str, eth_response) result"
  et_nibbles :: "bytes \<Rightarrow> bytes"
  et_verify_proof :: "bytes \<Rightarrow> bytes \<Rightarrow> bytes option \<Rightarrow> bytes list \<Rightarrow> (str, unit) result"
  et_rlp_value :: "u256 \<Rightarrow> bytes"
  et_rlp_account :: "u64 \<Rightarrow> u256 \<Rightarrow> bytes \<Rightarrow> bytes \<Rightarrow> bytes"

definition from_be_bytes :: "bytes \<Rightarrow> 'n::len word" where
  "from_be_bytes bs = of_nat (be_nat bs)"

definition to_be_bytes_32 :: "u256 \<Rightarrow> bytes" where
  "to_be_bytes_32 v = be_bytes 32 (unat v)"

section \<open>The walks\<close>

definition verify_one ::
  "'z eth_lib_scheme \<Rightarrow> bytes list \<Rightarrow> bytes \<Rightarrow> bytes \<Rightarrow> bytes \<Rightarrow> (str, unit) result" where
  "verify_one L proof_nodes root key_hash expected_value =
     et_verify_proof L root (et_nibbles L key_hash) (Some expected_value) proof_nodes"

definition rlp_account :: "'z eth_lib_scheme \<Rightarrow> account_state \<Rightarrow> bytes" where
  "rlp_account L state =
     et_rlp_account L (as_nonce state) (from_be_bytes (as_balance state)) (as_storage_hash state) (as_code_hash state)"

definition verify_storage :: "'z eth_lib_scheme \<Rightarrow> storage_slot_proof \<Rightarrow> bytes \<Rightarrow> unit res" where
  "verify_storage L sl storage_hash =
     map_err (\<lambda>e. proof_error ''storage proof for slot 0x{}: {}'' [Hex (sl_slot sl), Str e])
       (verify_one L (sl_proof_nodes sl) storage_hash (keccak256 L (sl_slot sl))
         (et_rlp_value L (from_be_bytes (sl_value sl))))"

text \<open>A loop that stops at the first error.\<close>

fun try_each :: "('a \<Rightarrow> unit res) \<Rightarrow> 'a list \<Rightarrow> unit res" where
  "try_each f [] = Inr ()"
| "try_each f (x # xs) = rbind (f x) (\<lambda>_. try_each f xs)"

definition verify_state_proof :: "'z eth_lib_scheme \<Rightarrow> state_proof \<Rightarrow> unit res" where
  "verify_state_proof L sp =
     rbind (map_err (\<lambda>e. proof_error ''account proof for {}: {}'' [Hex (sp_address sp), Str e])
       (verify_one L (sp_account_proof_nodes sp) (sp_state_root sp) (keccak256 L (sp_address sp))
         (rlp_account L (sp_account_state sp)))) (\<lambda>_.
     try_each (\<lambda>sl. verify_storage L sl (as_storage_hash (sp_account_state sp))) (sp_storage_proofs sp))"

text \<open>\<open>verify_call_result\<close>, of which the source reads the access proofs.\<close>

definition verify_call_result :: "'z eth_lib_scheme \<Rightarrow> state_proof list \<Rightarrow> unit res" where
  "verify_call_result L access_state_proofs = try_each (verify_state_proof L) access_state_proofs"

definition check_read_is_the_one_asked ::
  "state_proof \<Rightarrow> eth_response \<Rightarrow> bytes \<Rightarrow> bytes list \<Rightarrow> u64 \<Rightarrow> unit res" where
  "check_read_is_the_one_asked sp resp address slots block_number =
     (if length (er_state_proofs resp) \<noteq> 1 then
        Inl (proof_error ''a state read answered with other than one account proof'' [])
      else if sp_address sp \<noteq> address then
        Inl (proof_error ''the proof is of another account than the one asked'' [])
      else if sp_block_number sp \<noteq> block_number then
        Inl (proof_error ''the proof is of another block than the one asked'' [])
      else if sp_state_root sp \<noteq> vr_state_root resp then
        Inl (proof_error ''the proof's state root differs from the response's'' [])
      else if map sl_slot (sp_storage_proofs sp) \<noteq> slots then
        Inl (proof_error ''the storage proofs are not of exactly the slots asked, in order'' [])
      else Inr ())"

section \<open>The requests\<close>

definition fetch_eth ::
  "'z eth_lib_scheme \<Rightarrow> willow_client \<Rightarrow> str \<Rightarrow> jvalue \<Rightarrow> ('w world_scheme, eth_response res) io" where
  "fetch_eth L W path body =
     try_io (ret (require_indexer_url W)) (\<lambda>indexer.
     try_io (ret (map_err (\<lambda>e. Config (Fmt ''invalid url: {}'' [Str e])) (ul_join L indexer path))) (\<lambda>url s.
     case send (Post url (wc_default_headers W) body) s of
       (Inl e, s) \<Rightarrow> (Inl (from_reqwest e), s)
     | (Inr resp, s) \<Rightarrow>
         (rbind (read_text (utf8_lossy L) resp LARGE) (\<lambda>t.
          if \<not> is_success (resp_status resp) then Inl (Http (resp_status resp) (text_message t))
          else map_err Serialization (et_response L (str_bytes t))), s)))"

definition fetch_state ::
  "'z eth_lib_scheme \<Rightarrow> willow_client \<Rightarrow> bytes \<Rightarrow> bytes list \<Rightarrow> u64 \<Rightarrow> ('w world_scheme, eth_response res) io" where
  "fetch_state L W address slots block_number = fetch_eth L W ''verifiable-rpc/eth/state''
     (JObject [(''address'', JString (''0x'' @ hex_encode L address)),
       (''slots'', JArray (map (\<lambda>s. JString (''0x'' @ hex_encode L s)) slots)),
       (''block'', JNumber (dec (unat block_number)))])"

definition fetch_call ::
  "'z eth_lib_scheme \<Rightarrow> willow_client \<Rightarrow> jvalue \<Rightarrow> u64 \<Rightarrow> ('w world_scheme, eth_response res) io" where
  "fetch_call L W tx block_number = fetch_eth L W ''verifiable-rpc/eth/call''
     (JObject [(''tx'', tx), (''block'', JNumber (dec (unat block_number)))])"

definition state_read_of :: "state_verify_mode \<Rightarrow> state_proof \<Rightarrow> verified_state_read" where
  "state_read_of mode sp = \<lparr>vs_address = sp_address sp, vs_block_number = sp_block_number sp,
     vs_block_hash = sp_block_hash sp, vs_state_root = sp_state_root sp,
     vs_nonce = as_nonce (sp_account_state sp), vs_balance = from_be_bytes (as_balance (sp_account_state sp)),
     vs_storage_hash = as_storage_hash (sp_account_state sp), vs_code_hash = as_code_hash (sp_account_state sp),
     vs_storage = map (\<lambda>sl. (sl_slot sl, from_be_bytes (sl_value sl))) (sp_storage_proofs sp), vs_mode = mode\<rparr>"

definition first_or :: "'a list \<Rightarrow> willow_error \<Rightarrow> 'a res" where
  "first_or xs e = (case xs of [] \<Rightarrow> Inl e | x # _ \<Rightarrow> Inr x)"

definition get_state ::
  "'z eth_lib_scheme \<Rightarrow> willow_client \<Rightarrow> state_verify_mode \<Rightarrow> bytes \<Rightarrow> bytes list \<Rightarrow> u64
   \<Rightarrow> ('w world_scheme, verified_state_read res) io" where
  "get_state L W mode address slots block_number =
     try_io (fetch_state L W address slots block_number) (\<lambda>raw. ret (
     rbind (first_or (er_state_proofs raw) (proof_error ''response carried no state proof'' [])) (\<lambda>sp.
     rbind (if mode \<noteq> Disabled_state then check_read_is_the_one_asked sp raw address slots block_number else Inr ()) (\<lambda>_.
     rbind (if mode = Strict_state then verify_state_proof L sp else Inr ()) (\<lambda>_.
     Inr (state_read_of mode sp))))))"

definition get_call ::
  "'z eth_lib_scheme \<Rightarrow> willow_client \<Rightarrow> state_verify_mode \<Rightarrow> jvalue \<Rightarrow> u64
   \<Rightarrow> ('w world_scheme, verified_call res) io" where
  "get_call L W mode tx block_number =
     try_io (fetch_call L W tx block_number) (\<lambda>raw. ret (
     rbind (if mode = Strict_state then try_each (verify_state_proof L) (er_state_proofs raw) else Inr ()) (\<lambda>_.
     Inr \<lparr>vc_block_number = fst (vr_block_range raw),
       vc_block_hash = (case er_state_proofs raw of [] \<Rightarrow> replicate 32 0 | p # _ \<Rightarrow> sp_block_hash p),
       vc_state_root = vr_state_root raw, vc_result = vr_answer raw,
       vc_access_state_reads = map (state_read_of mode) (er_state_proofs raw), vc_mode = mode\<rparr>)))"

section \<open>Storage layouts\<close>

definition plain_slot :: "u8 \<Rightarrow> bytes" where
  "plain_slot n = replicate 31 0 @ [n]"

definition mapping_slot_for_address :: "'z lib_scheme \<Rightarrow> bytes \<Rightarrow> u8 \<Rightarrow> bytes" where
  "mapping_slot_for_address L addr slot_index = keccak256 L (replicate 12 0 @ addr @ plain_slot slot_index)"

definition get_slot ::
  "'z eth_lib_scheme \<Rightarrow> willow_client \<Rightarrow> state_verify_mode \<Rightarrow> str \<Rightarrow> bytes \<Rightarrow> bytes \<Rightarrow> u64
   \<Rightarrow> ('w world_scheme, u256 res) io" where
  "get_slot L W mode op address slot block_number =
     try_io (get_state L W mode address [slot] block_number) (\<lambda>state. ret (
     rbind (first_or (vs_storage state) (proof_error (op @ '': empty storage_proofs'') [])) (\<lambda>(_, v). Inr v)))"

definition erc20_balance ::
  "'z eth_lib_scheme \<Rightarrow> willow_client \<Rightarrow> state_verify_mode \<Rightarrow> bytes \<Rightarrow> bytes \<Rightarrow> u8 \<Rightarrow> u64
   \<Rightarrow> ('w world_scheme, u256 res) io" where
  "erc20_balance L W mode token holder balance_slot block_number =
     get_slot L W mode ''erc20_balance'' token (mapping_slot_for_address L holder balance_slot) block_number"

definition erc20_total_supply ::
  "'z eth_lib_scheme \<Rightarrow> willow_client \<Rightarrow> state_verify_mode \<Rightarrow> bytes \<Rightarrow> u8 \<Rightarrow> u64 \<Rightarrow> ('w world_scheme, u256 res) io" where
  "erc20_total_supply L W mode token total_supply_slot block_number =
     get_slot L W mode ''erc20_total_supply'' token (plain_slot total_supply_slot) block_number"

definition erc20_allowance ::
  "'z eth_lib_scheme \<Rightarrow> willow_client \<Rightarrow> state_verify_mode \<Rightarrow> bytes \<Rightarrow> bytes \<Rightarrow> bytes \<Rightarrow> u8 \<Rightarrow> u64
   \<Rightarrow> ('w world_scheme, u256 res) io" where
  "erc20_allowance L W mode token holder spender allowance_slot block_number =
     get_slot L W mode ''erc20_allowance'' token
       (keccak256 L (replicate 12 0 @ spender @ mapping_slot_for_address L holder allowance_slot)) block_number"

definition erc721_owner ::
  "'z eth_lib_scheme \<Rightarrow> willow_client \<Rightarrow> state_verify_mode \<Rightarrow> bytes \<Rightarrow> u256 \<Rightarrow> u8 \<Rightarrow> u64
   \<Rightarrow> ('w world_scheme, bytes res) io" where
  "erc721_owner L W mode contract token_id owners_slot block_number =
     try_io (get_slot L W mode ''erc721_owner'' contract
       (keccak256 L (to_be_bytes_32 token_id @ plain_slot owners_slot)) block_number) (\<lambda>v.
     ret (Inr (drop 12 (to_be_bytes_32 v))))"

definition unpack_reserves :: "u256 \<Rightarrow> u128 \<times> u128 \<times> u32" where
  "unpack_reserves v = (let bs = to_be_bytes_32 v in
     (from_be_bytes ([0, 0] @ drop 18 bs), from_be_bytes ([0, 0] @ take 14 (drop 4 bs)), from_be_bytes (take 4 bs)))"

definition uni_v2_reserves ::
  "'z eth_lib_scheme \<Rightarrow> willow_client \<Rightarrow> state_verify_mode \<Rightarrow> bytes \<Rightarrow> u64
   \<Rightarrow> ('w world_scheme, (u128 \<times> u128 \<times> u32) res) io" where
  "uni_v2_reserves L W mode pair block_number =
     try_io (get_slot L W mode ''uni_v2_reserves'' pair (plain_slot 8) block_number) (\<lambda>v.
     ret (Inr (unpack_reserves v)))"


section \<open>What a strict read shows\<close>

text \<open>A value some account of the address holds at the slot in the state of a root, as the walks show.\<close>

definition slot_proven :: "'z eth_lib_scheme \<Rightarrow> bytes \<Rightarrow> bytes \<Rightarrow> bytes \<Rightarrow> u256 \<Rightarrow> bool" where
  "slot_proven L root address slot v \<longleftrightarrow> (\<exists>account nodes nodes'.
     et_verify_proof L root (et_nibbles L (keccak256 L address)) (Some (rlp_account L account)) nodes = Inr ()
     \<and> et_verify_proof L (as_storage_hash account) (et_nibbles L (keccak256 L slot)) (Some (et_rlp_value L v)) nodes' = Inr ())"

lemma try_each_Inr: "try_each f xs = Inr () \<longleftrightarrow> (\<forall>x \<in> set xs. f x = Inr ())"
  by (induction xs) (auto simp: rbind_Inr_iff)

lemma first_or_Inr: "first_or xs e = Inr x \<longleftrightarrow> (\<exists>ys. xs = x # ys)"
  by (auto simp: first_or_def split: list.splits)

lemma check_read_Inr:
  "check_read_is_the_one_asked sp resp address slots block_number = Inr () \<longleftrightarrow>
     length (er_state_proofs resp) = 1 \<and> sp_address sp = address \<and> sp_block_number sp = block_number
     \<and> sp_state_root sp = vr_state_root resp \<and> map sl_slot (sp_storage_proofs sp) = slots"
  by (simp add: check_read_is_the_one_asked_def)

lemma verify_state_proof_slots:
  assumes "verify_state_proof L sp = Inr ()" "sl \<in> set (sp_storage_proofs sp)"
  shows "slot_proven L (sp_state_root sp) (sp_address sp) (sl_slot sl) (from_be_bytes (sl_value sl))"
  using assms unfolding slot_proven_def
  by (auto simp: verify_state_proof_def verify_storage_def verify_one_def try_each_Inr rbind_Inr_iff map_err_Inr_iff)

lemma get_state_Inr:
  assumes "get_state L W Strict_state address slots block_number s = (Inr r, s')"
  obtains sp where "r = state_read_of Strict_state sp" "sp_address sp = address" "sp_block_number sp = block_number"
    "map sl_slot (sp_storage_proofs sp) = slots" "verify_state_proof L sp = Inr ()"
  using assms unfolding get_state_def try_io_Inr_iff ret_Inr_iff
  by (auto simp: rbind_Inr_iff first_or_Inr check_read_Inr)

text \<open>C9: A strict read answers the account, block and slots asked, the slots in order, and each value is
  one the walks show at its slot in the account's storage under the read's state root.\<close>

theorem strict_read_is_of_what_was_asked:
  assumes "get_state L W Strict_state address slots block_number s = (Inr r, s')"
  shows "vs_address r = address \<and> vs_block_number r = block_number \<and> map fst (vs_storage r) = slots
    \<and> (\<forall>(slot, v) \<in> set (vs_storage r). slot_proven L (vs_state_root r) address slot v)"
proof -
  obtain sp where sp: "r = state_read_of Strict_state sp" "sp_address sp = address" "sp_block_number sp = block_number"
    "map sl_slot (sp_storage_proofs sp) = slots" "verify_state_proof L sp = Inr ()"
    using get_state_Inr [OF assms] .
  with verify_state_proof_slots [OF sp(5)] show ?thesis by (auto simp: state_read_of_def comp_def)
qed

lemma get_slot_Inr:
  assumes "get_slot L W Strict_state op address slot block_number s = (Inr v, s')"
  shows "\<exists>root. slot_proven L root address slot v"
proof -
  from assms obtain r t where r: "get_state L W Strict_state address [slot] block_number s = (Inr r, t)"
    and v: "rbind (first_or (vs_storage r) (proof_error (op @ '': empty storage_proofs'') [])) (\<lambda>(_, v). Inr v) = Inr v"
    unfolding get_slot_def try_io_Inr_iff ret_Inr_iff by blast
  obtain sp where sp: "r = state_read_of Strict_state sp" "sp_address sp = address"
    "map sl_slot (sp_storage_proofs sp) = [slot]" "verify_state_proof L sp = Inr ()"
    using get_state_Inr [OF r] .
  then obtain sl where "sp_storage_proofs sp = [sl]" "sl_slot sl = slot" by auto
  with verify_state_proof_slots [OF sp(4), of sl] v sp show ?thesis
    by (auto simp: state_read_of_def first_or_def)
qed

section \<open>The parts of a packed slot\<close>

lemma be_nat_append: "be_nat (xs @ ys) = be_nat xs * 256 ^ length ys + be_nat ys"
  by (induction ys rule: rev_induct)
    (simp_all add: be_nat_snoc append_assoc [symmetric] algebra_simps del: append_assoc, simp add: be_nat_def)

lemma unat_from_be_bytes:
  "(256 :: nat) ^ length bs \<le> 2 ^ LENGTH('n) \<Longrightarrow> unat (from_be_bytes bs :: 'n::len word) = be_nat bs"
  using be_nat_bound [of bs] by (simp add: from_be_bytes_def unat_of_nat)

lemma unpack_reserves_parts:
  assumes "unpack_reserves v = (r0, r1, ts)"
  shows "unat v = unat ts * 2 ^ 224 + unat r1 * 2 ^ 112 + unat r0" "unat r0 < 2 ^ 112" "unat r1 < 2 ^ 112"
proof -
  define bs where "bs = to_be_bytes_32 v"
  have len: "length bs = 32" by (simp add: bs_def to_be_bytes_32_def)
  have "unat v < 256 ^ 32" using unat_lt2p [of v] by simp
  then have v: "unat v = be_nat bs" by (simp add: bs_def to_be_bytes_32_def be_nat_be_bytes)
  have zero: "be_nat (0 # 0 # xs) = be_nat xs" for xs by (simp add: be_nat_def)
  have parts: "unat ts = be_nat (take 4 bs)" "unat r1 = be_nat (take 14 (drop 4 bs))" "unat r0 = be_nat (drop 18 bs)"
    using assms len unfolding unpack_reserves_def Let_def bs_def [symmetric]
    by (auto simp: unat_from_be_bytes zero)
  have "be_nat bs = be_nat (take 4 bs) * 256 ^ 28 + be_nat (drop 4 bs)"
    using be_nat_append [of "take 4 bs" "drop 4 bs"] by (simp add: len)
  also have "be_nat (drop 4 bs) = be_nat (take 14 (drop 4 bs)) * 256 ^ 14 + be_nat (drop 18 bs)"
    using be_nat_append [of "take 14 (drop 4 bs)" "drop 14 (drop 4 bs)"]
    by (simp only: append_take_drop_id) (simp add: len)
  finally have "be_nat bs = be_nat (take 4 bs) * 256 ^ 28 + (be_nat (take 14 (drop 4 bs)) * 256 ^ 14 + be_nat (drop 18 bs))" .
  then show "unat v = unat ts * 2 ^ 224 + unat r1 * 2 ^ 112 + unat r0" by (simp add: v parts)
  show "unat r0 < 2 ^ 112" "unat r1 < 2 ^ 112"
    using be_nat_bound [of "drop 18 bs"] be_nat_bound [of "take 14 (drop 4 bs)"] by (simp_all add: parts len)
qed

text \<open>C22: A pair's reserves and time, read strictly, are the three parts of the one word the walks show
  at slot 8 of the pair: two reserves of 112 bits below a time of 32.\<close>

theorem strict_reserves_are_slot_8:
  assumes "uni_v2_reserves L W Strict_state pair block_number s = (Inr (r0, r1, ts), s')"
  shows "\<exists>root v. slot_proven L root pair (plain_slot 8) v
    \<and> unat v = unat ts * 2 ^ 224 + unat r1 * 2 ^ 112 + unat r0 \<and> unat r0 < 2 ^ 112 \<and> unat r1 < 2 ^ 112"
proof -
  from assms obtain v t where "get_slot L W Strict_state ''uni_v2_reserves'' pair (plain_slot 8) block_number s = (Inr v, t)"
    and "unpack_reserves v = (r0, r1, ts)"
    unfolding uni_v2_reserves_def try_io_Inr_iff ret_Inr_iff by auto
  with get_slot_Inr unpack_reserves_parts show ?thesis by metis
qed

text \<open>A slot that holds zero has no leaf, so no walk shows a value at its key; the read asks for one all
  the same, and refuses the answer.\<close>

lemma zero_slot_is_refused:
  assumes "\<And>value nodes. et_verify_proof L (as_storage_hash (sp_account_state sp))
      (et_nibbles L (keccak256 L (sl_slot sl))) (Some value) nodes \<noteq> Inr ()"
    and "sl \<in> set (sp_storage_proofs sp)"
  shows "verify_state_proof L sp \<noteq> Inr ()"
  using assms by (auto simp: verify_state_proof_def verify_storage_def verify_one_def try_each_Inr rbind_Inr_iff
      map_err_Inr_iff)

section \<open>A read at a concrete input\<close>

text \<open>An indexer that answers every request with the state of the account \<open>[1]\<close> at block 7, its slot 8
  holding the reserve 5, over walks that pass.\<close>

definition pair_response :: eth_response where
  "pair_response = verifiable_rpc_response.extend entity_response
     \<lparr>er_state_proofs = [\<lparr>sp_address = [1], sp_block_number = 7, sp_block_hash = [], sp_state_root = replicate 32 0,
        sp_account_proof_nodes = [], sp_account_state = \<lparr>as_nonce = 0, as_balance = [], as_storage_hash = [],
          as_code_hash = []\<rparr>,
        sp_storage_proofs = [\<lparr>sl_slot = plain_slot 8, sl_value = [5], sl_proof_nodes = []\<rparr>]\<rparr>]\<rparr>"

definition pair_lib :: eth_lib where
  "pair_lib = client_lib.extend sample_client_lib
     \<lparr>et_response = (\<lambda>_. Inr pair_response), et_nibbles = id, et_verify_proof = (\<lambda>_ _ _ _. Inr ()),
      et_rlp_value = (\<lambda>_. []), et_rlp_account = (\<lambda>_ _ _ _. [])\<rparr>"

lemma pair_simps [simp]:
  "et_response pair_lib b = Inr pair_response" "et_verify_proof pair_lib h k q nodes = Inr ()"
  "ul_join pair_lib u p = Inr (u @ p)" "vr_state_root pair_response = replicate 32 0"
  by (simp_all add: pair_lib_def client_lib.defs pair_response_def verifiable_rpc_response.defs entity_response_def)

lemma pair_state:
  "\<exists>t. get_state pair_lib entity_client Strict_state [1] [plain_slot 8] 7 sample_world
     = (Inr (state_read_of Strict_state (hd (er_state_proofs pair_response))), t)"
proof -
  have "read_text l null_response n = Inr (l [])" for l n
    by (simp add: read_text_def Http_Body.read_def null_response_def)
  then obtain t where "fetch_state pair_lib entity_client [1] [plain_slot 8] 7 sample_world = (Inr pair_response, t)"
    by (simp add: fetch_state_def fetch_eth_def require_indexer_url_def entity_client_def send_def sample_world_def
        is_success_def null_response_def)
  moreover have "er_state_proofs pair_response = [hd (er_state_proofs pair_response)]"
    "check_read_is_the_one_asked (hd (er_state_proofs pair_response)) pair_response [1] [plain_slot 8] 7 = Inr ()"
    unfolding check_read_Inr by (simp_all add: pair_response_def verifiable_rpc_response.defs entity_response_def)
  moreover have "verify_state_proof pair_lib sp = Inr ()" for sp
    by (simp add: verify_state_proof_def verify_one_def try_each_Inr verify_storage_def)
  ultimately show ?thesis by (simp add: get_state_def first_or_def)
    (metis (no_types, lifting) list.simps(5) rbind_simps(2))
qed

theorem strict_read_is_of_what_was_asked_witness:
  "let r = state_read_of Strict_state (hd (er_state_proofs pair_response)) in
     vs_address r = [1] \<and> vs_block_number r = 7 \<and> map fst (vs_storage r) = [plain_slot 8]
     \<and> (\<forall>(slot, v) \<in> set (vs_storage r). slot_proven pair_lib (vs_state_root r) [1] slot v)"
  using pair_state strict_read_is_of_what_was_asked unfolding Let_def by blast

theorem strict_reserves_are_slot_8_witness:
  "fst (uni_v2_reserves pair_lib entity_client Strict_state [1] 7 sample_world) = Inr (5, 0, 0)
     \<and> (\<exists>root v. slot_proven pair_lib root [1] (plain_slot 8) v \<and> unat v = 5)"
proof -
  obtain t where st: "get_state pair_lib entity_client Strict_state [1] [plain_slot 8] 7 sample_world
     = (Inr (state_read_of Strict_state (hd (er_state_proofs pair_response))), t)"
    using pair_state by blast
  have "vs_storage (state_read_of Strict_state (hd (er_state_proofs pair_response))) = [(plain_slot 8, 5)]"
    by (simp add: state_read_of_def pair_response_def verifiable_rpc_response.defs from_be_bytes_def be_nat_def)
  moreover have "unpack_reserves 5 = (5, 0, 0)"
  proof -
    obtain r0 r1 ts where u: "unpack_reserves 5 = (r0, r1, ts)" by (metis prod_cases3)
    from unpack_reserves_parts(1) [OF u] have sum: "unat ts * 2 ^ 224 + unat r1 * 2 ^ 112 + unat r0 = 5" by simp
    then have "unat ts = 0" by (cases "unat ts") simp_all
    moreover from sum have "unat r1 = 0" by (cases "unat r1") simp_all
    ultimately have "unat ts = 0" "unat r1 = 0" "unat r0 = 5" using sum by simp_all
    then have "ts = 0" "r1 = 0" "r0 = 5"
      by (simp_all add: word_unat_eq_iff)
    with u show ?thesis by simp
  qed
  ultimately have run: "uni_v2_reserves pair_lib entity_client Strict_state [1] 7 sample_world = (Inr (5, 0, 0), t)"
    using st by (simp add: uni_v2_reserves_def get_slot_def first_or_def)
  from strict_reserves_are_slot_8 [OF this] show ?thesis by (simp add: run)
qed

end
