(* ===== verification/Files_Ops.thy ===== *)
theory Files_Ops
  imports Client
begin

text \<open>
  File storage (\<open>src/src/files.rs\<close>): a file is cut into chunks, its manifest goes through
  consensus, and its chunks go to a storage node; a download is checked against the manifest the
  API serves. The decodings of the API's answers, the cipher, and the chain's limits on a file
  (\<open>willow_types::storage\<close>) are parameters.

  The lemmas show that chunks join back to the data, that the iterative Merkle root is the root of
  a recursive tree, whose root and leaf count bind its leaves, and with these that a download
  under the manifest of an uploaded file gives that file.
\<close>

definition DEFAULT_CHUNK_SIZE :: u32 where
  "DEFAULT_CHUNK_SIZE = 262144"

record file_manifest =
  fm_file_key :: str
  fm_filename :: str
  fm_content_type :: str
  fm_total_size :: u64
  fm_content_hash :: str
  fm_chunk_count :: u32
  fm_chunk_size :: u32
  fm_chunk_merkle_root :: str
  fm_owner_did :: str
  fm_created_at :: u64
  fm_updated_at :: u64
  fm_encrypted :: bool
  fm_storage_nodes :: "str list"

record file_list_response =
  fr_files :: "file_manifest list"
  fr_has_more :: bool
  fr_limit :: "16 word"

record file_lib = client_lib +
  fl_manifest :: "bytes \<Rightarrow> (str, file_manifest) result"
  fl_list :: "bytes \<Rightarrow> (str, file_list_response) result"
  fl_max_file_size :: u64
  fl_max_chunk_count :: u32
  fl_encrypt :: "bytes \<Rightarrow> bytes \<Rightarrow> bytes \<Rightarrow> (str, bytes) result"
  fl_decrypt :: "bytes \<Rightarrow> bytes \<Rightarrow> bytes \<Rightarrow> (str, bytes) result"

section \<open>Chunks and their Merkle root\<close>

text \<open>\<open>chunks(n)\<close> of a slice, which panics at 0; no caller passes 0.\<close>

function chunks :: "nat \<Rightarrow> 'a list \<Rightarrow> 'a list list" where
  "chunks n xs = (if xs = [] \<or> n = 0 then [] else take n xs # chunks n (drop n xs))"
  by pat_completeness auto
termination by (relation "measure (\<lambda>(_, xs). length xs)") auto

declare chunks.simps [simp del]

definition chunk_data :: "bytes \<Rightarrow> u32 \<Rightarrow> bytes list" where
  "chunk_data data chunk_size = chunks (unat chunk_size) data"

definition pad_even :: "'a list \<Rightarrow> 'a list" where
  "pad_even current = (if length current mod 2 \<noteq> 0 then current @ [last current] else current)"

definition hash_pair :: "'z lib_scheme \<Rightarrow> bytes \<Rightarrow> bytes \<Rightarrow> bytes" where
  "hash_pair L a b = sha256 L (a @ b)"

definition merkle_level :: "'z lib_scheme \<Rightarrow> bytes list \<Rightarrow> bytes list" where
  "merkle_level L current = map (\<lambda>pair. hash_pair L (pair ! 0) (pair ! 1)) (chunks 2 (pad_even current))"

lemma length_chunks_2: "length (chunks 2 xs) = (length xs + 1) div 2"
  by (induction "2 :: nat" xs rule: chunks.induct) (subst chunks.simps, auto simp: min_def neq_Nil_conv)

lemma length_merkle_level: "length (merkle_level L current) = (length current + 1) div 2"
  by (auto simp: merkle_level_def length_chunks_2 pad_even_def) presburger+

function merkle_loop :: "'z lib_scheme \<Rightarrow> bytes list \<Rightarrow> bytes" where
  "merkle_loop L current = (if length current > 1 then merkle_loop L (merkle_level L current) else current ! 0)"
  by pat_completeness auto
termination
  by (relation "measure (\<lambda>(_, current). length current)") (auto simp: length_merkle_level)

declare merkle_loop.simps [simp del]

definition compute_merkle_root :: "'z lib_scheme \<Rightarrow> bytes list \<Rightarrow> bytes" where
  "compute_merkle_root L hashes =
     (if hashes = [] then replicate 32 0
      else merkle_loop L (if length hashes = 1 then hashes @ [hashes ! 0] else hashes))"

section \<open>The manifest\<close>

text \<open>The counts are widened from \<open>u32\<close> to \<open>u64\<close> before they are multiplied.\<close>

definition check_manifest :: "'z file_lib_scheme \<Rightarrow> file_manifest \<Rightarrow> unit res" where
  "check_manifest L m =
     (let total = fm_total_size m; count = ucast (fm_chunk_count m) :: u64; size = ucast (fm_chunk_size m) :: u64;
          refused = (\<lambda>why args. Inl (ProofVerificationFailed
            (Fmt (''the manifest of {} is one the chain refuses: '' @ why) (Str (fm_file_key m) # args)))) in
      if total = 0 \<or> count = 0 \<or> size = 0 then refused ''it holds no data'' []
      else if total > fl_max_file_size L then
        refused ''{total} bytes, over the chain's maximum of {MAX_FILE_SIZE}'' [Num (unat total), Num (unat (fl_max_file_size L))]
      else if count > ucast (fl_max_chunk_count L) then
        refused ''{count} chunks, over the chain's maximum of {MAX_CHUNK_COUNT}'' [Num (unat count), Num (unat (fl_max_chunk_count L))]
      else if total > count * size \<or> total \<le> (count - 1) * size then
        refused ''{count} chunks of {size} bytes don't hold {total} bytes'' [Num (unat count), Num (unat size), Num (unat total)]
      else Inr ())"

definition require_signing :: "str \<Rightarrow> bytes option \<Rightarrow> str option \<Rightarrow> (bytes \<times> str) res" where
  "require_signing operation signing_key public_key_id =
     (let unsigned = Inl (Validation
        (Fmt ''{operation} needs a signing key and its public key ID: the node refuses an unsigned file transaction''
          [Str operation])) in
      case (signing_key, public_key_id) of
        (Some key, Some i) \<Rightarrow> if i \<noteq> [] then Inr (key, i) else unsigned
      | _ \<Rightarrow> unsigned)"

text \<open>\<open>filename.rsplit('.').next()\<close> is what follows the last dot, or the whole name.\<close>

definition guess_content_type :: "str \<Rightarrow> str" where
  "guess_content_type filename = (let ext = last (split_on (CHR ''.'') filename) in
     if ext = ''png'' then ''image/png''
     else if ext = ''jpg'' \<or> ext = ''jpeg'' then ''image/jpeg''
     else if ext = ''gif'' then ''image/gif''
     else if ext = ''pdf'' then ''application/pdf''
     else if ext = ''json'' then ''application/json''
     else if ext = ''txt'' then ''text/plain''
     else if ext = ''html'' then ''text/html''
     else if ext = ''css'' then ''text/css''
     else if ext = ''js'' then ''application/javascript''
     else if ext = ''wasm'' then ''application/wasm''
     else if ext = ''zip'' then ''application/zip''
     else if ext = ''mp4'' then ''video/mp4''
     else if ext = ''mp3'' then ''audio/mpeg''
     else ''application/octet-stream'')"

definition no_identity :: willow_error where
  "no_identity = Authentication (Fmt ''Set identity before file operations'' [])"

definition ensure_authenticated :: "('w client_world_scheme, unit res) io" where
  "ensure_authenticated = (\<lambda>s. (if get_did s = None then Inl no_identity else Inr (), s))"

definition owner_did_io :: "('w client_world_scheme, str res) io" where
  "owner_did_io = (\<lambda>s. (ok_or (get_did s) no_identity, s))"

section \<open>Uploading\<close>

definition manifest_tx ::
  "'z lib_scheme \<Rightarrow> str \<Rightarrow> str \<Rightarrow> str \<Rightarrow> bytes \<Rightarrow> str \<Rightarrow> str \<Rightarrow> u64 \<Rightarrow> store_file_manifest_tx" where
  "manifest_tx L subgrove_id file_key filename data owner_did public_key_id nonce =
     (let pieces = chunk_data data DEFAULT_CHUNK_SIZE in
      \<lparr>sf_subgrove_id = subgrove_id, sf_file_key = file_key, sf_filename = filename,
       sf_content_type = guess_content_type filename, sf_total_size = of_nat (length data),
       sf_content_hash = sha256 L data, sf_chunk_count = of_nat (length pieces), sf_chunk_size = DEFAULT_CHUNK_SIZE,
       sf_chunk_merkle_root = compute_merkle_root L (map (sha256 L) pieces), sf_owner_did = owner_did,
       sf_encryption = None, sf_signature = [], sf_public_key_id = public_key_id, sf_nonce = nonce\<rparr>)"

definition sign_manifest ::
  "'z node_scheme \<Rightarrow> str \<Rightarrow> str \<Rightarrow> str \<Rightarrow> bytes \<Rightarrow> str \<Rightarrow> str \<Rightarrow> bytes \<Rightarrow> u64 \<Rightarrow> chain_transaction res" where
  "sign_manifest L subgrove_id file_key filename data owner_did public_key_id key nonce =
     (let tx = manifest_tx L subgrove_id file_key filename data owner_did public_key_id nonce in
      rbind (store_file_manifest_message L tx) (\<lambda>message.
      Inr (StoreFileManifest (tx\<lparr>sf_signature := key_sign L key message\<rparr>))))"

definition upload_url :: "str \<Rightarrow> str \<Rightarrow> str \<Rightarrow> nat \<Rightarrow> u32 \<Rightarrow> str \<Rightarrow> str" where
  "upload_url endpoint subgrove_id file_key i chunk_count content_hash =
     endpoint @ ''/upload/'' @ subgrove_id @ ''/'' @ file_key @ ''?chunk_index='' @ dec i
       @ ''&chunk_count='' @ dec (unat chunk_count) @ ''&content_hash='' @ content_hash"

text \<open>The loop over the chunks, from the \<open>i\<close>th on.\<close>

fun upload_chunks ::
  "'z lib_scheme \<Rightarrow> (nat \<Rightarrow> str) \<Rightarrow> nat \<Rightarrow> bytes list \<Rightarrow> ('w world_scheme, unit res) io" where
  "upload_chunks L url i [] = ret (Inr ())"
| "upload_chunks L url i (chunk # rest) = (\<lambda>s.
     case send (Send ''POST'' (url i) [] chunk) s of
       (Inl e, s) \<Rightarrow> (Inl (Network (Fmt ''Chunk upload failed: {}'' [Str (rq_text e)])), s)
     | (Inr resp, s) \<Rightarrow>
         if \<not> is_success (resp_status resp) then
           (Inl (Network (Fmt ''Chunk {} upload failed: {}'' [Num i, Str
              (case read_text (utf8_lossy L) resp SMALL of Inl e \<Rightarrow> [] | Inr body \<Rightarrow> body)])), s)
         else upload_chunks L url (i + 1) rest s)"

definition uploaded_manifest :: "'z lib_scheme \<Rightarrow> str \<Rightarrow> str \<Rightarrow> bytes \<Rightarrow> str \<Rightarrow> str \<Rightarrow> file_manifest" where
  "uploaded_manifest L file_key filename data owner_did endpoint =
     (let pieces = chunk_data data DEFAULT_CHUNK_SIZE in
      \<lparr>fm_file_key = file_key, fm_filename = filename, fm_content_type = guess_content_type filename,
       fm_total_size = of_nat (length data), fm_content_hash = hex_encode L (sha256 L data),
       fm_chunk_count = of_nat (length pieces), fm_chunk_size = DEFAULT_CHUNK_SIZE,
       fm_chunk_merkle_root = hex_encode L (compute_merkle_root L (map (sha256 L) pieces)),
       fm_owner_did = owner_did, fm_created_at = 0, fm_updated_at = 0, fm_encrypted = False,
       fm_storage_nodes = [endpoint]\<rparr>)"

definition manifest_landed :: "str \<Rightarrow> tx_outcome option \<Rightarrow> unit res" where
  "manifest_landed tx_hash outcome = (case outcome of
       None \<Rightarrow> Inl (Custom (Fmt ''the manifest transaction {tx_hash} is not in a block yet; no chunk was uploaded (wait for it to land, then upload the chunks)''
         [Str tx_hash]))
     | Some outcome \<Rightarrow>
         if to_code outcome \<noteq> 0 then
           Inl (Custom (Fmt ''the manifest transaction {tx_hash} was refused in block {}: {} (code: {})''
             [Str tx_hash, Str (dec_int (to_height outcome)), Str (to_log outcome), Num (unat (to_code outcome))]))
         else Inr ())"

definition upload ::
  "'z chain_lib_scheme \<Rightarrow> willow_client \<Rightarrow> str \<Rightarrow> str \<Rightarrow> str \<Rightarrow> bytes \<Rightarrow> str \<Rightarrow> bytes option \<Rightarrow> str option
   \<Rightarrow> ('w client_world_scheme, file_manifest res) io" where
  "upload L W subgrove_id file_key filename data endpoint signing_key public_key_id =
     try_io ensure_authenticated (\<lambda>_.
     try_io (ret (require_signing ''upload'' signing_key public_key_id)) (\<lambda>(key, key_id).
     try_io owner_did_io (\<lambda>owner_did.
     try_io (ret (require_consensus W ''upload'')) (\<lambda>C.
     try_io (submit_with_nonce L C owner_did
       (sign_manifest L subgrove_id file_key filename data owner_did key_id key)) (\<lambda>tx_hash.
     try_io (wait_for_tx_outcome L C tx_hash 15) (\<lambda>outcome.
     try_io (ret (manifest_landed tx_hash outcome)) (\<lambda>_.
     let m = uploaded_manifest L file_key filename data owner_did endpoint in
     try_io (upload_chunks L
       (\<lambda>i. upload_url endpoint subgrove_id file_key i (fm_chunk_count m) (fm_content_hash m)) 0
       (chunk_data data DEFAULT_CHUNK_SIZE)) (\<lambda>_.
     ret (Inr m)))))))))"

section \<open>Downloading\<close>

definition metadata ::
  "'z file_lib_scheme \<Rightarrow> willow_client \<Rightarrow> str \<Rightarrow> str \<Rightarrow> ('w client_world_scheme, file_manifest res) io" where
  "metadata L W subgrove_id file_key =
     client_request L W (fl_manifest L) ''GET'' (''/files/'' @ subgrove_id @ ''/'' @ file_key) None False"

definition chunk_url :: "str \<Rightarrow> str \<Rightarrow> str \<Rightarrow> str \<Rightarrow> nat \<Rightarrow> str" where
  "chunk_url endpoint subgrove_id file_key content_hash i =
     endpoint @ ''/chunk/'' @ subgrove_id @ ''/'' @ file_key @ ''/'' @ dec i @ ''?content_hash='' @ content_hash"

definition read_chunk :: "file_manifest \<Rightarrow> nat \<Rightarrow> nat \<Rightarrow> response \<Rightarrow> bytes res" where
  "read_chunk m limit i resp =
     (if \<not> is_success (resp_status resp) then
        Inl (Network (Fmt ''Chunk {} download failed: HTTP {}'' [Num i, Num (resp_status resp)]))
      else (case Http_Body.read resp limit of
          Inr chunk \<Rightarrow> Inr chunk
        | Inl (ResponseTooLarge n) \<Rightarrow>
            if limit = unat (fm_chunk_size m) then
              Inl (ProofVerificationFailed (Fmt ''chunk {i} is longer than the manifest's chunk size of {} bytes''
                [Num i, Num (unat (fm_chunk_size m))]))
            else Inl (ResponseTooLarge n)
        | Inl e \<Rightarrow> Inl (Network (Fmt ''Failed to read chunk {}: {}'' [Num i, Shown e]))))"

text \<open>The loop over the chunk numbers: \<open>n\<close> are left, from the \<open>i\<close>th on.\<close>

fun download_chunks ::
  "'z lib_scheme \<Rightarrow> (nat \<Rightarrow> str) \<Rightarrow> file_manifest \<Rightarrow> nat \<Rightarrow> nat \<Rightarrow> nat \<Rightarrow> bytes \<Rightarrow> bytes list
   \<Rightarrow> ('w world_scheme, (bytes \<times> bytes list) res) io" where
  "download_chunks L url m limit i 0 file_data chunk_hashes = ret (Inr (file_data, chunk_hashes))"
| "download_chunks L url m limit i (Suc n) file_data chunk_hashes = (\<lambda>s.
     case send (Get (url i) []) s of
       (Inl e, s) \<Rightarrow> (Inl (Network (Fmt ''Chunk download failed: {}'' [Str (rq_text e)])), s)
     | (Inr resp, s) \<Rightarrow> (case read_chunk m limit i resp of
           Inl e \<Rightarrow> (Inl e, s)
         | Inr chunk \<Rightarrow>
             if (of_nat (length file_data + length chunk) :: u64) > fm_total_size m then
               (Inl (ProofVerificationFailed (Fmt ''the chunks run past the manifest's total size of {} bytes at chunk {i}''
                 [Num (unat (fm_total_size m)), Num i])), s)
             else download_chunks L url m limit (i + 1) n (file_data @ chunk) (chunk_hashes @ [sha256 L chunk]) s))"

definition check_file :: "'z lib_scheme \<Rightarrow> file_manifest \<Rightarrow> bytes \<Rightarrow> bytes list \<Rightarrow> bytes res" where
  "check_file L m file_data chunk_hashes =
     rbind (map_err (\<lambda>e. ProofVerificationFailed (Fmt ''Invalid merkle root hex: {}'' [Str e]))
       (hex_decode L (fm_chunk_merkle_root m))) (\<lambda>expected_root.
     if compute_merkle_root L chunk_hashes \<noteq> expected_root then
       Inl (ProofVerificationFailed (Fmt ''Chunk Merkle root mismatch'' []))
     else if (of_nat (length file_data) :: u64) \<noteq> fm_total_size m then
       Inl (ProofVerificationFailed (Fmt ''the chunks hold {} bytes, not the manifest's total size of {}''
         [Num (length file_data), Num (unat (fm_total_size m))]))
     else
       rbind (map_err (\<lambda>e. ProofVerificationFailed (Fmt ''Invalid content hash hex: {}'' [Str e]))
         (hex_decode L (fm_content_hash m))) (\<lambda>expected_hash.
       if sha256 L file_data \<noteq> expected_hash then Inl (ProofVerificationFailed (Fmt ''Content hash mismatch'' []))
       else Inr file_data))"

definition download ::
  "'z file_lib_scheme \<Rightarrow> willow_client \<Rightarrow> str \<Rightarrow> str \<Rightarrow> str \<Rightarrow> ('w client_world_scheme, bytes res) io" where
  "download L W subgrove_id file_key endpoint =
     try_io (metadata L W subgrove_id file_key) (\<lambda>m.
     try_io (ret (check_manifest L m)) (\<lambda>_.
     try_io (download_chunks L (chunk_url endpoint subgrove_id file_key (fm_content_hash m)) m
       (min (unat (fm_chunk_size m)) CHUNK) 0 (unat (fm_chunk_count m)) [] []) (\<lambda>(file_data, chunk_hashes).
     ret (check_file L m file_data chunk_hashes))))"

section \<open>The other operations\<close>

definition list_files ::
  "'z file_lib_scheme \<Rightarrow> willow_client \<Rightarrow> str \<Rightarrow> ('w client_world_scheme, file_manifest list res) io" where
  "list_files L W subgrove_id =
     try_io (client_request L W (fl_list L) ''GET'' (''/files/'' @ subgrove_id) None False) (\<lambda>response.
     ret (Inr (fr_files response)))"

definition sign_file_delete ::
  "'z lib_scheme \<Rightarrow> str \<Rightarrow> str \<Rightarrow> str \<Rightarrow> str \<Rightarrow> bytes \<Rightarrow> u64 \<Rightarrow> chain_transaction res" where
  "sign_file_delete L subgrove_id file_key owner_did public_key_id key nonce =
     (let tx = \<lparr>df_subgrove_id = subgrove_id, df_file_key = file_key, df_owner_did = owner_did,
          df_signature = [], df_public_key_id = public_key_id, df_nonce = nonce\<rparr> in
      rbind (delete_file_manifest_message tx) (\<lambda>message.
      Inr (DeleteFileManifest (tx\<lparr>df_signature := key_sign L key message\<rparr>))))"

definition delete_file ::
  "'z chain_lib_scheme \<Rightarrow> willow_client \<Rightarrow> str \<Rightarrow> str \<Rightarrow> bytes option \<Rightarrow> str option
   \<Rightarrow> ('w client_world_scheme, unit res) io" where
  "delete_file L W subgrove_id file_key signing_key public_key_id =
     try_io ensure_authenticated (\<lambda>_.
     try_io (ret (require_signing ''delete'' signing_key public_key_id)) (\<lambda>(key, key_id).
     try_io owner_did_io (\<lambda>owner_did.
     try_io (ret (require_consensus W ''delete'')) (\<lambda>C.
     try_io (submit_with_nonce L C owner_did
       (sign_file_delete L subgrove_id file_key owner_did key_id key)) (\<lambda>_.
     ret (Inr ()))))))"

definition sign_unregister ::
  "'z node_scheme \<Rightarrow> str \<Rightarrow> str \<Rightarrow> bytes \<Rightarrow> u64 \<Rightarrow> chain_transaction res" where
  "sign_unregister L node_did public_key_id key nonce =
     (let tx = \<lparr>un_node_did = node_did, un_signature = [], un_public_key_id = public_key_id, un_nonce = nonce\<rparr> in
      rbind (unregister_storage_node_message L tx) (\<lambda>message.
      Inr (UnregisterStorageNode (tx\<lparr>un_signature := key_sign L key message\<rparr>))))"

definition unregister_storage_node ::
  "'z chain_lib_scheme \<Rightarrow> willow_client \<Rightarrow> str \<Rightarrow> bytes \<Rightarrow> str \<Rightarrow> ('w client_world_scheme, unit res) io" where
  "unregister_storage_node L W node_did signing_key public_key_id =
     try_io (ret (require_consensus W ''unregister_storage_node'')) (\<lambda>C.
     try_io (submit_with_nonce L C node_did (sign_unregister L node_did public_key_id signing_key)) (\<lambda>_.
     ret (Inr ())))"

text \<open>Encryption under a nonce of 24 random bytes, given here; the key is 32 bytes.\<close>

definition encrypt_file :: "'z file_lib_scheme \<Rightarrow> bytes \<Rightarrow> bytes \<Rightarrow> bytes \<Rightarrow> (bytes \<times> bytes) res" where
  "encrypt_file L nonce data key =
     rbind (map_err (\<lambda>e. Crypto (Fmt ''Encryption failed: {}'' [Str e])) (fl_encrypt L key nonce data)) (\<lambda>c.
     Inr (c, nonce))"

definition decrypt_file :: "'z file_lib_scheme \<Rightarrow> bytes \<Rightarrow> bytes \<Rightarrow> bytes \<Rightarrow> bytes res" where
  "decrypt_file L ciphertext key nonce =
     map_err (\<lambda>e. Crypto (Fmt ''Decryption failed: {}'' [Str e])) (fl_decrypt L key nonce ciphertext)"


section \<open>Chunks\<close>

lemma concat_chunks: "n \<noteq> 0 \<Longrightarrow> concat (chunks n xs) = xs"
  by (induction n xs rule: chunks.induct) (subst chunks.simps, simp)

lemma chunk_sizes: "c \<in> set (chunks n xs) \<Longrightarrow> 0 < length c \<and> length c \<le> n"
  by (induction n xs rule: chunks.induct) (subst (asm) chunks.simps, auto split: if_splits)

lemma length_chunks: "n \<noteq> 0 \<Longrightarrow> length (chunks n xs) = (length xs + n - 1) div n"
proof (induction n xs rule: chunks.induct)
  case (1 n xs)
  show ?case
  proof (cases "xs = []")
    case True
    with 1(2) show ?thesis by (simp add: chunks.simps)
  next
    case False
    with 1 have l: "length (chunks n xs) = Suc (length (chunks n (drop n xs)))"
      by (subst chunks.simps) simp
    have "length (chunks n (drop n xs)) = (length xs - 1) div n"
    proof (cases "length xs \<le> n")
      case True
      with False 1(2) show ?thesis by (simp add: chunks.simps)
    next
      case more: False
      with 1 False have "length (chunks n (drop n xs)) = (length xs - n + n - 1) div n" by simp
      with more show ?thesis by simp
    qed
    moreover have "length xs + n - 1 = (length xs - 1) + n" using False by (cases xs) simp_all
    ultimately show ?thesis
      by (simp only: l div_add_self2 [OF 1(2)] Suc_eq_plus1)
  qed
qed

section \<open>The Merkle root\<close>

text \<open>The root of a tree of depth \<open>k\<close>: where no leaf is left for its right half, the left half
  stands for both.\<close>

fun tree_root :: "'z lib_scheme \<Rightarrow> nat \<Rightarrow> bytes list \<Rightarrow> bytes" where
  "tree_root L 0 hs = hd hs"
| "tree_root L (Suc k) hs =
     (let l = tree_root L k (take (2 ^ k) hs) in
      hash_pair L l (if length hs \<le> 2 ^ k then l else tree_root L k (drop (2 ^ k) hs)))"

fun pair_up :: "'z lib_scheme \<Rightarrow> bytes list \<Rightarrow> bytes list" where
  "pair_up L [] = []"
| "pair_up L [a] = [hash_pair L a a]"
| "pair_up L (a # b # hs) = hash_pair L a b # pair_up L hs"

lemma merkle_level_pairs: "merkle_level L hs = pair_up L hs"
proof (induction L hs rule: pair_up.induct)
  case (3 L a b hs)
  have "pad_even (a # b # hs) = a # b # pad_even hs" by (cases hs) (auto simp: pad_even_def)
  with 3 show ?case by (simp add: merkle_level_def chunks.simps [of _ "_ # _"])
qed (simp_all add: merkle_level_def pad_even_def chunks.simps)

lemma pair_up_append: "even (length xs) \<Longrightarrow> pair_up L (xs @ ys) = pair_up L xs @ pair_up L ys"
  by (induction L xs rule: pair_up.induct) simp_all

lemma tree_root_level:
  "hs \<noteq> [] \<Longrightarrow> length hs \<le> 2 ^ Suc k \<Longrightarrow> tree_root L (Suc k) hs = tree_root L k (pair_up L hs)"
proof (induction k arbitrary: hs)
  case 0
  then consider a where "hs = [a]" | a b where "hs = [a, b]"
    by (cases hs; cases "tl hs") auto
  then show ?case by cases (simp_all add: Let_def)
next
  case (Suc k)
  have len: "length (pair_up L hs) = (length hs + 1) div 2"
    using length_merkle_level [of L hs] by (simp add: merkle_level_pairs)
  show ?case
  proof (cases "length hs \<le> 2 ^ Suc k")
    case True
    then have "length (pair_up L hs) \<le> 2 ^ k" by (simp add: len)
    with True Suc(1) [of hs] Suc(2) show ?thesis
      by (simp add: Let_def del: tree_root.simps) (simp add: Let_def)
  next
    case False
    let ?l = "take (2 ^ Suc k) hs" and ?r = "drop (2 ^ Suc k) hs"
    have ne: "?l \<noteq> []" "?r \<noteq> []" and le: "length ?l = 2 ^ Suc k" "length ?r \<le> 2 ^ Suc k"
      using False Suc(2,3) by auto
    have "pair_up L hs = pair_up L ?l @ pair_up L ?r"
      using pair_up_append [of ?l L ?r] le(1) by simp
    moreover have "length (pair_up L ?l) = 2 ^ k"
      using length_merkle_level [of L ?l] le(1) by (simp add: merkle_level_pairs)
    ultimately have "take (2 ^ k) (pair_up L hs) = pair_up L ?l" "drop (2 ^ k) (pair_up L hs) = pair_up L ?r"
      and "\<not> length (pair_up L hs) \<le> 2 ^ k"
      using False len by simp_all
    moreover have "tree_root L (Suc k) ?l = tree_root L k (pair_up L ?l)"
      "tree_root L (Suc k) ?r = tree_root L k (pair_up L ?r)"
      by (rule Suc(1) [OF ne(1)], simp only: le) (rule Suc(1) [OF ne(2) le(2)])
    ultimately show ?thesis
      using False by (simp only: tree_root.simps(2) [of L "Suc k" hs] tree_root.simps(2) [of L k "pair_up L hs"] if_False)
  qed
qed

lemma merkle_loop_tree:
  "hs \<noteq> [] \<Longrightarrow> length hs \<le> 2 ^ k \<Longrightarrow> k = 0 \<or> 2 ^ (k - 1) < length hs \<Longrightarrow> merkle_loop L hs = tree_root L k hs"
proof (induction k arbitrary: hs)
  case 0
  then show ?case by (simp add: merkle_loop.simps hd_conv_nth)
next
  case (Suc k)
  then have more: "2 ^ k < length hs" by simp
  then have "1 < length hs" using le_less_trans [of 1 "2 ^ k" "length hs"] by simp
  then have loop: "merkle_loop L hs = merkle_loop L (pair_up L hs)"
    by (subst merkle_loop.simps) (simp add: merkle_level_pairs)
  have len: "length (pair_up L hs) = (length hs + 1) div 2"
    using length_merkle_level [of L hs] by (simp add: merkle_level_pairs)
  have "k = 0 \<or> 2 ^ (k - 1) < length (pair_up L hs)"
    using more by (cases k) (auto simp: len)
  moreover have "pair_up L hs \<noteq> []" "length (pair_up L hs) \<le> 2 ^ k"
    using Suc(2,3) len by (auto simp flip: length_greater_0_conv)
  ultimately have "merkle_loop L (pair_up L hs) = tree_root L k (pair_up L hs)" by (intro Suc(1))
  with loop tree_root_level [OF Suc(2,3), of L] show ?case by simp
qed

lemma least_depth: "\<exists>k \<ge> 1. n \<le> 2 ^ k \<and> (k = 1 \<or> 2 ^ (k - 1) < (n :: nat))"
proof -
  define k where "k = (LEAST k. k \<ge> 1 \<and> n \<le> 2 ^ k)"
  have "n \<le> 2 ^ Suc n" using less_exp [of "Suc n"] by simp
  then have k: "k \<ge> 1" "n \<le> 2 ^ k"
    using LeastI [of "\<lambda>k. k \<ge> 1 \<and> n \<le> 2 ^ k" "Suc n"] unfolding k_def by auto
  moreover have "k = 1 \<or> 2 ^ (k - 1) < n"
    using not_less_Least [of "k - 1" "\<lambda>k. k \<ge> 1 \<and> n \<le> 2 ^ k"] k(1) unfolding k_def [symmetric] by force
  ultimately show ?thesis by blast
qed

lemma compute_merkle_root_depth:
  assumes "hs \<noteq> []" "k \<ge> 1" "length hs \<le> 2 ^ k" "k = 1 \<or> 2 ^ (k - 1) < length hs"
  shows "compute_merkle_root L hs = tree_root L k hs"
proof (cases "length hs = 1")
  case True
  then obtain h where h: "hs = [h]" by (cases hs) auto
  with assms(2,4) have "k = 1" by auto
  moreover have "merkle_loop L [h, h] = tree_root L 1 [h, h]" by (rule merkle_loop_tree) simp_all
  ultimately show ?thesis by (simp add: h compute_merkle_root_def Let_def)
next
  case False
  then have "1 < length hs" using assms(1) by (cases hs) auto
  then have "merkle_loop L hs = tree_root L k hs"
    using assms by (intro merkle_loop_tree) auto
  with assms(1) False show ?thesis by (simp add: compute_merkle_root_def)
qed

text \<open>C26: The Merkle root the loop computes level by level, padding every odd level, is the root of
  the one binary tree over the chunk hashes, of the least depth that holds them, at least 1.\<close>

theorem compute_merkle_root_tree:
  "\<exists>k \<ge> 1. length hs \<le> 2 ^ k \<and> (k = 1 \<or> 2 ^ (k - 1) < length hs)
     \<and> compute_merkle_root L hs = (if hs = [] then replicate 32 0 else tree_root L k hs)"
proof (cases "hs = []")
  case True
  then show ?thesis by (intro exI [of _ 1]) (simp add: compute_merkle_root_def)
next
  case False
  from least_depth [of "length hs"] obtain k where
    k: "k \<ge> 1" "length hs \<le> 2 ^ k" "k = 1 \<or> 2 ^ (k - 1) < length hs" by blast
  with compute_merkle_root_depth [OF False k] False show ?thesis by (intro exI [of _ k]) simp
qed


section \<open>What a download gives\<close>

text \<open>The chain's rule for a manifest, over the numbers its words stand for.\<close>

definition manifest_allowed :: "'z file_lib_scheme \<Rightarrow> file_manifest \<Rightarrow> bool" where
  "manifest_allowed L m \<longleftrightarrow> (let total = unat (fm_total_size m); count = unat (fm_chunk_count m); size = unat (fm_chunk_size m) in
     0 < total \<and> total \<le> unat (fl_max_file_size L) \<and> 0 < count \<and> count \<le> unat (fl_max_chunk_count L) \<and> 0 < size
     \<and> (count - 1) * size < total \<and> total \<le> count * size)"

text \<open>The files of a manifest: data that splits into as many pieces as it counts, none longer than
  its chunk size, whose hashes are the leaves of a tree with its root, of its length and hash.\<close>

definition merkle_tree_of :: "'z lib_scheme \<Rightarrow> bytes list \<Rightarrow> bytes \<Rightarrow> bool" where
  "merkle_tree_of L hs root \<longleftrightarrow>
     (\<exists>k \<ge> 1. length hs \<le> 2 ^ k \<and> (k = 1 \<or> 2 ^ (k - 1) < length hs) \<and> root = tree_root L k hs)"

definition file_of :: "'z lib_scheme \<Rightarrow> file_manifest \<Rightarrow> bytes \<Rightarrow> bool" where
  "file_of L m data \<longleftrightarrow>
     (\<exists>pieces root. data = concat pieces \<and> length pieces = unat (fm_chunk_count m)
        \<and> (\<forall>c \<in> set pieces. length c \<le> unat (fm_chunk_size m))
        \<and> hex_decode L (fm_chunk_merkle_root m) = Inr root \<and> merkle_tree_of L (map (sha256 L) pieces) root)
     \<and> length data = unat (fm_total_size m) \<and> hex_decode L (fm_content_hash m) = Inr (sha256 L data)"

lemma check_manifest_Inr: "check_manifest L m = Inr () \<longleftrightarrow> manifest_allowed L m"
proof -
  let ?c = "ucast (fm_chunk_count m) :: u64" and ?s = "ucast (fm_chunk_size m) :: u64"
  have c: "unat ?c = unat (fm_chunk_count m)" "unat (ucast (fl_max_chunk_count L) :: u64) = unat (fl_max_chunk_count L)"
    and s: "unat ?s = unat (fm_chunk_size m)"
    by simp_all
  have lt: "unat (fm_chunk_count m) < 2 ^ 32" "unat (fm_chunk_size m) < 2 ^ 32"
    using unat_lt2p [of "fm_chunk_count m"] unat_lt2p [of "fm_chunk_size m"] by simp_all
  then have "unat (fm_chunk_count m) * unat (fm_chunk_size m) \<le> (2 ^ 32 - 1) * (2 ^ 32 - 1)"
    by (intro mult_le_mono) simp_all
  then have prod: "unat (?c * ?s) = unat (fm_chunk_count m) * unat (fm_chunk_size m)"
    using c s by (simp add: unat_mult_lem [THEN iffD1])
  have prev: "unat ((?c - 1) * ?s) = (unat (fm_chunk_count m) - 1) * unat (fm_chunk_size m)" if "?c \<noteq> 0"
  proof -
    have "unat (?c - 1) = unat (fm_chunk_count m) - 1" using that c by (simp add: unat_minus_one)
    moreover have "(unat (fm_chunk_count m) - 1) * unat (fm_chunk_size m) \<le> (2 ^ 32 - 1) * (2 ^ 32 - 1)"
      using lt by (intro mult_le_mono) simp_all
    ultimately show ?thesis using s by (simp add: unat_mult_lem [THEN iffD1])
  qed
  have z: "?c = 0 \<longleftrightarrow> unat (fm_chunk_count m) = 0" "?s = 0 \<longleftrightarrow> unat (fm_chunk_size m) = 0"
    using c s by (simp_all add: unat_eq_0 [symmetric])
  show ?thesis
    unfolding check_manifest_def manifest_allowed_def Let_def
    using prev z by (auto simp: word_le_nat_alt word_less_nat_alt c prod unat_eq_0 [symmetric] split: if_splits)
qed

lemma compute_merkle_root_spec: "hs \<noteq> [] \<Longrightarrow> merkle_tree_of L hs (compute_merkle_root L hs)"
  using least_depth [of "length hs"] compute_merkle_root_depth unfolding merkle_tree_of_def by metis

lemma read_chunk_Inr:
  "read_chunk m limit i resp = Inr chunk \<longleftrightarrow> is_success (resp_status resp) \<and> Http_Body.read resp limit = Inr chunk"
  by (auto simp: read_chunk_def split: sum.splits willow_error.splits)

lemma download_chunks_Inr:
  "download_chunks L url m limit i n fd hs s = (Inr (fd', hs'), s') \<Longrightarrow>
     \<exists>pieces. length pieces = n \<and> fd' = fd @ concat pieces \<and> hs' = hs @ map (sha256 L) pieces
       \<and> (\<forall>c \<in> set pieces. length c \<le> limit) \<and> w_calls s' = w_calls s + n"
proof (induction n arbitrary: i fd hs s)
  case (Suc n)
  from Suc(2) obtain resp t chunk where s: "send (Get (url i) []) s = (Inr resp, t)"
    and c: "read_chunk m limit i resp = Inr chunk"
    and rest: "download_chunks L url m limit (i + 1) n (fd @ chunk) (hs @ [sha256 L chunk]) t = (Inr (fd', hs'), s')"
    by (auto split: prod.splits sum.splits if_splits)
  have "length chunk \<le> limit" using c by (simp add: read_chunk_Inr read_Inr_iff)
  moreover have "w_calls t = w_calls s + 1" using s by (auto simp: send_def split: prod.splits)
  moreover obtain pieces where "length pieces = n" "fd' = (fd @ chunk) @ concat pieces"
    "hs' = (hs @ [sha256 L chunk]) @ map (sha256 L) pieces" "\<forall>c \<in> set pieces. length c \<le> limit"
    "w_calls s' = w_calls t + n"
    using Suc(1) [OF rest] by blast
  ultimately show ?case by (intro exI [of _ "chunk # pieces"]) simp
qed simp

lemma check_file_Inr:
  "check_file L m fd hs = Inr data \<longleftrightarrow> data = fd \<and> hex_decode L (fm_chunk_merkle_root m) = Inr (compute_merkle_root L hs)
     \<and> (of_nat (length fd) :: u64) = fm_total_size m \<and> hex_decode L (fm_content_hash m) = Inr (sha256 L fd)"
  by (auto simp: check_file_def rbind_Inr_iff map_err_Inr_iff split: if_splits)


lemma chunks_total:
  assumes "length pieces < 2 ^ 32" "\<forall>c \<in> set pieces. length c \<le> CHUNK"
  shows "length (concat pieces) < 2 ^ 64"
proof -
  have "length (concat pieces) \<le> length pieces * CHUNK"
    using assms(2) by (induction pieces) auto
  also have "\<dots> \<le> 2 ^ 32 * 2 ^ 21" using assms(1) by (intro mult_le_mono) (simp_all add: CHUNK_def)
  finally show ?thesis by simp
qed


definition node_serves :: "'w world_scheme \<Rightarrow> (nat \<Rightarrow> str) \<Rightarrow> bytes list \<Rightarrow> bool" where
  "node_serves s url pieces \<longleftrightarrow> (\<forall>n i. i < length pieces \<longrightarrow>
     (\<exists>d bs. w_answer s n (Get (url i) [])
        = (d, Inr \<lparr>resp_status = 200, resp_content_length = None, resp_pieces = map Inr bs\<rparr>) \<and> concat bs = pieces ! i))"

lemma node_serves_later: "node_serves s url pieces \<Longrightarrow> send req s = (r, t) \<Longrightarrow> node_serves t url pieces"
  by (auto simp: node_serves_def send_def split: prod.splits)

lemma download_chunks_served:
  assumes "node_serves s url pieces" "drop i pieces = cs" "length (fd @ concat cs) \<le> unat (fm_total_size m)"
    and "\<forall>c \<in> set cs. length c \<le> limit"
  shows "\<exists>t. download_chunks L url m limit i (length cs) fd hs s = (Inr (fd @ concat cs, hs @ map (sha256 L) cs), t)"
  using assms
proof (induction cs arbitrary: i fd hs s)
  case (Cons c cs)
  then have i: "i < length pieces" "pieces ! i = c"
    by (auto simp: nth_via_drop) (metis drop_all list.distinct(1) not_le)
  have next_cs: "drop (i + 1) pieces = cs"
    using Cons(3) by (metis Suc_eq_plus1 drop_Suc list.sel(3) tl_drop)
  from Cons(2) i(1) obtain d bs where "w_answer s (w_calls s) (Get (url i) [])
      = (d, Inr \<lparr>resp_status = 200, resp_content_length = None, resp_pieces = map Inr bs\<rparr>)" "concat bs = pieces ! i"
    unfolding node_serves_def by blast
  then obtain resp t where send: "send (Get (url i) []) s = (Inr resp, t)"
    and resp: "resp = \<lparr>resp_status = 200, resp_content_length = None, resp_pieces = map Inr bs\<rparr>" "concat bs = c"
    using i(2) by (auto simp: send_def)
  have read: "read_chunk m limit i resp = Inr c"
    using Cons(5) resp by (auto simp: read_chunk_Inr read_Inr_iff is_success_def)
  have "length fd + length c < 2 ^ 64"
    using Cons(4) unat_lt2p [of "fm_total_size m"] by simp
  then have fits: "\<not> (of_nat (length fd + length c) :: u64) > fm_total_size m"
    using Cons(4) unfolding word_less_nat_alt by (simp add: unat_of_nat del: of_nat_add)
  obtain t' where "download_chunks L url m limit (i + 1) (length cs) (fd @ c) (hs @ [sha256 L c]) t
      = (Inr ((fd @ c) @ concat cs, (hs @ [sha256 L c]) @ map (sha256 L) cs), t')"
    using Cons(1) [OF node_serves_later [OF Cons(2) send] next_cs, of "fd @ c" "hs @ [sha256 L c]"] Cons(4,5) by auto
  with send read fits show ?case by (simp del: of_nat_add)
qed simp

lemma chunk_count_of:
  assumes "data \<noteq> []" "n \<noteq> 0"
  shows "(length (chunks n data) - 1) * n < length data" "length data \<le> length (chunks n data) * n"
proof -
  have "length data + n - 1 = (length data - 1) + n" using assms(1) by (cases data) simp_all
  then have len: "length (chunks n data) = Suc ((length data - 1) div n)"
    by (simp only: length_chunks [OF assms(2)] div_add_self2 [OF assms(2)] Suc_eq_plus1)
  have "(length data - 1) div n * n \<le> length data - 1" by (rule div_times_less_eq_dividend)
  then have "(length (chunks n data) - 1) * n \<le> length data - 1" by (simp add: len)
  moreover have "0 < length data" using assms(1) by simp
  ultimately show "(length (chunks n data) - 1) * n < length data" by linarith
  have "length data - 1 < n + (length data - 1) div n * n" using assms(2) by (intro dividend_less_div_times) simp
  then show "length data \<le> length (chunks n data) * n" by (simp add: len)
qed

lemma upload_download:
  assumes "hex_ok L" "data \<noteq> []" "length data \<le> unat (fl_max_file_size L)"
    and "length (chunk_data data DEFAULT_CHUNK_SIZE) \<le> unat (fl_max_chunk_count L)"
    and "metadata L W subgrove_id file_key s = (Inr m, t)" "m = uploaded_manifest L name filename data owner_did endpoint"
    and "node_serves t (chunk_url endpoint' subgrove_id file_key (fm_content_hash m)) (chunk_data data DEFAULT_CHUNK_SIZE)"
  shows "\<exists>t'. download L W subgrove_id file_key endpoint' s = (Inr data, t')"
proof -
  let ?cs = "chunk_data data DEFAULT_CHUNK_SIZE"
  have size: "unat DEFAULT_CHUNK_SIZE = 262144" by (simp add: DEFAULT_CHUNK_SIZE_def)
  have cs: "concat ?cs = data" "\<forall>c \<in> set ?cs. length c \<le> 262144"
    using concat_chunks [of 262144 data] chunk_sizes [of _ 262144 data] by (auto simp: chunk_data_def size)
  have "length data < 2 ^ 64" "length ?cs < 2 ^ 32"
    using assms(3,4) unat_lt2p [of "fl_max_file_size L"] unat_lt2p [of "fl_max_chunk_count L"] by simp_all
  then have fields: "unat (fm_total_size m) = length data" "unat (fm_chunk_count m) = length ?cs"
    "unat (fm_chunk_size m) = 262144" "fm_total_size m = of_nat (length data)"
    "hex_decode L (fm_content_hash m) = Inr (sha256 L data)"
    "hex_decode L (fm_chunk_merkle_root m) = Inr (compute_merkle_root L (map (sha256 L) ?cs))"
    using assms(1) by (simp_all add: assms(6) uploaded_manifest_def Let_def unat_of_nat size hex_ok_def)
  have "?cs \<noteq> []" using cs(1) assms(2) by auto
  then have ok: "check_manifest L m = Inr ()"
    using chunk_count_of [OF assms(2), of 262144] assms(2-4)
    unfolding check_manifest_Inr manifest_allowed_def Let_def fields(1-3) by (simp add: chunk_data_def size)
  obtain t' where "download_chunks L (chunk_url endpoint' subgrove_id file_key (fm_content_hash m)) m
      (min (unat (fm_chunk_size m)) CHUNK) 0 (length ?cs) [] [] t = (Inr (data, map (sha256 L) ?cs), t')"
    using download_chunks_served [OF assms(7), of 0 ?cs "[]" m "min (unat (fm_chunk_size m)) CHUNK" L "[]"] cs fields
    by (auto simp: CHUNK_def)
  moreover have "check_file L m data (map (sha256 L) ?cs) = Inr data"
    by (simp add: check_file_Inr fields)
  ultimately show ?thesis using assms(5) ok by (simp add: download_def fields(2))
qed

text \<open>C8: A file uploaded downloads: under the manifest \<open>upload\<close> returned for data the chain's limits allow,
  from a storage node that holds the chunks \<open>upload\<close> sent, a download gives the data back.\<close>

theorem uploaded_file_downloads:
  assumes "hex_ok L" "data \<noteq> []" "length data \<le> unat (fl_max_file_size L)"
    and "length (chunk_data data DEFAULT_CHUNK_SIZE) \<le> unat (fl_max_chunk_count L)"
    and "metadata L W subgrove_id file_key s = (Inr m, t)" "m = uploaded_manifest L name filename data owner_did endpoint"
    and "node_serves t (chunk_url endpoint' subgrove_id file_key (fm_content_hash m)) (chunk_data data DEFAULT_CHUNK_SIZE)"
  shows "\<exists>t'. download L W subgrove_id file_key endpoint' s = (Inr data, t')"
  using assms by (rule upload_download)


section \<open>A file at a concrete input\<close>

text \<open>The file \<open>a.txt\<close> with the one byte 5, the manifest of its upload, and a storage node that holds
  its chunk.\<close>

definition file_manifest_of :: "'z lib_scheme \<Rightarrow> file_manifest" where
  "file_manifest_of L = uploaded_manifest L ''f'' ''a.txt'' [5] ''did:willow:a'' ''http://n''"

definition file_lib_sample :: file_lib where
  "file_lib_sample = client_lib.extend sample_client_lib
     \<lparr>fl_manifest = (\<lambda>_. Inr (file_manifest_of sample_client_lib)), fl_list = (\<lambda>_. Inl ''e''),
      fl_max_file_size = 100, fl_max_chunk_count = 9, fl_encrypt = (\<lambda>_ _ _. Inl ''e''), fl_decrypt = (\<lambda>_ _ _. Inl ''e'')\<rparr>"

definition file_world :: client_world where
  "file_world = sample_world\<lparr>cw_identity := None, w_answer := (\<lambda>n req. (0, Inr (case req of
       Get _ _ \<Rightarrow> \<lparr>resp_status = 200, resp_content_length = None, resp_pieces = map Inr [[5]]\<rparr>
     | _ \<Rightarrow> null_response)))\<rparr>"

lemma file_lib_simps [simp]:
  "hex_encode file_lib_sample = hex_encode sample_client_lib" "hex_decode file_lib_sample = hex_decode sample_client_lib"
  "sha256 file_lib_sample = sha256 sample_client_lib"
  "fl_manifest file_lib_sample b = Inr (file_manifest_of sample_client_lib)"
  "fl_max_file_size file_lib_sample = 100" "fl_max_chunk_count file_lib_sample = 9"
  "ul_join file_lib_sample u p = Inr (u @ p)" "ul_method file_lib_sample q \<longleftrightarrow> q \<in> {''GET'', ''POST''}"
  "ul_path file_lib_sample u = drop 8 u" "ul_query file_lib_sample u = None"
  "utf8_lossy file_lib_sample = map (\<lambda>b. char_of (unat b))"
  by (simp_all add: file_lib_sample_def client_lib.defs)
    (simp_all add: sample_client_lib_def chain_lib.defs sample_chain_def node.defs sample_node_def lib.defs sample_lib_def)

lemma merkle_loop_fields: "sha256 L = sha256 K \<Longrightarrow> merkle_loop L hs = merkle_loop K hs"
proof (induction L hs rule: merkle_loop.induct)
  case (1 L hs)
  moreover have "merkle_level L hs = merkle_level K hs" using 1(2) by (simp add: merkle_level_def hash_pair_def)
  ultimately show ?case by (simp add: merkle_loop.simps [of L] merkle_loop.simps [of K])
qed

lemma file_manifest_sample: "file_manifest_of sample_client_lib = file_manifest_of file_lib_sample"
  using merkle_loop_fields [OF file_lib_simps(3)]
  by (simp add: file_manifest_of_def uploaded_manifest_def compute_merkle_root_def Let_def)

lemma file_metadata: "metadata file_lib_sample sample_willow ''sg'' ''f'' file_world
    = (Inr (file_manifest_of file_lib_sample), file_world\<lparr>w_calls := 1\<rparr>)"
proof -
  have target: "api_target file_lib_sample sample_willow ''http://h/files/sg/f'' = ''/files/sg/f''"
    by (simp add: api_target_def sample_willow_def trim_end_matches_def Let_def)
  have reads: "\<not> carries_read_rights ''GET'' ''/files/sg/f''"
    by (simp add: carries_read_rights_def path_segments_def trim_start_matches_def)
  have client: "wc_base_url sample_willow = ''http://h/''" "wc_default_headers sample_willow = []"
    "wc_retry_config sample_willow = default_retry_config sample_client_lib"
    by (simp_all add: sample_willow_def)
  have "build_request file_lib_sample sample_willow ''GET'' ''/files/sg/f'' None False file_world
      = (Inr (Send ''GET'' ''http://h/files/sg/f'' [] []), file_world)"
    using target reads by (simp add: build_request_def trim_start_matches_def client unwrap_or_def sign_request_def
      file_world_def)
  moreover have "read_text l null_response n = Inr (l [])" for l n
    by (simp add: read_text_def Http_Body.read_def null_response_def)
  ultimately have "make_request file_lib_sample sample_willow (fl_manifest file_lib_sample) ''GET'' ''/files/sg/f'' None False
      file_world = (Inr (file_manifest_of file_lib_sample), file_world\<lparr>w_calls := 1\<rparr>)"
    by (simp add: make_request_def send_def file_world_def sample_world_def read_answer_def is_success_def)
      (simp add: null_response_def decode_checked_def file_manifest_sample str_bytes_def check_json_def
        check_json_within_def scan_units_def)
  then show ?thesis unfolding metadata_def
    by (intro first_attempt_answers) (simp_all add: client default_retry_config_def)
qed

lemma file_chunks: "chunk_data [5] DEFAULT_CHUNK_SIZE = [[5]]"
  by (simp add: chunk_data_def chunks.simps DEFAULT_CHUNK_SIZE_def)

lemma file_served: "node_serves (file_world\<lparr>w_calls := 1\<rparr>) url [[5]]"
  by (auto simp: node_serves_def file_world_def intro!: exI [of _ "[[5]]"])

lemma file_hex: "hex_ok file_lib_sample"
  using sample_client_lib_ok(2) by (simp add: hex_ok_def)

theorem uploaded_file_downloads_witness:
  "\<exists>t. download file_lib_sample sample_willow ''sg'' ''f'' ''http://n'' file_world = (Inr [5], t)"
  using uploaded_file_downloads [OF file_hex _ _ _ file_metadata file_manifest_of_def] file_served
  by (simp add: file_chunks)


end
