(* ===== verification/Subgrove_Config.thy ===== *)
theory Subgrove_Config
  imports Consensus
begin

text \<open>
  The definition files of blockchain subgroves (\<open>src/src/subgrove_config.rs\<close>), and their
  registration through \<open>src/src/consensus.rs\<close>. The chain's manifest and template types are JSON
  values; decoding TOML and encoding a manifest, a mode or a transaction are parameters. The
  content of a file is given as what reading it gives.

  The lemmas show what a registration carries of its definition, and that a name of a mode or of
  trusted hardware that is not known is refused.
\<close>

datatype toml_value = Toml_int int | Toml_u64 u64 | Toml_string str

text \<open>The visitor of \<open>deserialize_u128\<close>; a \<open>u128\<close> is a number below \<open>2 ^ 128\<close>. Its errors are not
  told apart.\<close>

definition deserialize_u128 :: "toml_value \<Rightarrow> nat option" where
  "deserialize_u128 v = (case v of
       Toml_int i \<Rightarrow> if i < 0 then None else Some (nat i)
     | Toml_u64 u \<Rightarrow> Some (unat u)
     | Toml_string s \<Rightarrow> parse_unsigned 128 s)"

record indexer_config_def =
  id_min_indexers :: u8
  id_max_indexers :: u8
  id_reward_per_epoch :: nat
  id_min_indexer_stake :: nat

record subgrove_definition =
  sg_subgrove_id :: str
  sg_description :: str
  sg_execution_mode :: str
  sg_sampling_rate_percent :: "u8 option"
  sg_required_tee :: "str option"
  sg_indexer_config :: indexer_config_def
  sg_schema :: str
  sg_manifest :: jvalue
  sg_template_config :: "jvalue option"

record definition_lib = chain_lib +
  dl_from_toml :: "str \<Rightarrow> (str, subgrove_definition) result"
  dl_manifest_to_vec :: "jvalue \<Rightarrow> (str, bytes) result"
  dl_mode_to_value :: "execution_mode \<Rightarrow> (str, jvalue) result"
  dl_checkpoint_to_value :: "tee_type option \<Rightarrow> (str, jvalue) result"
  dl_register_to_string :: "register_subgrove_tx \<Rightarrow> (str, str) result"

definition default_execution_mode :: str where
  "default_execution_mode = ''ConsensusExecution''"

definition default_min_indexers :: u8 where
  "default_min_indexers = 1"

definition default_max_indexers :: u8 where
  "default_max_indexers = 3"

definition default_reward_per_epoch :: nat where
  "default_reward_per_epoch = 100000000000000000"

definition default_min_indexer_stake :: nat where
  "default_min_indexer_stake = 100000000000000000000000"

definition default_indexer_config_def :: indexer_config_def where
  "default_indexer_config_def = \<lparr>id_min_indexers = default_min_indexers, id_max_indexers = default_max_indexers,
     id_reward_per_epoch = default_reward_per_epoch, id_min_indexer_stake = default_min_indexer_stake\<rparr>"

definition from_toml :: "'z definition_lib_scheme \<Rightarrow> str \<Rightarrow> subgrove_definition res" where
  "from_toml L content = map_err (\<lambda>e. Custom (Fmt ''Failed to parse TOML: {}'' [Str e])) (dl_from_toml L content)"

text \<open>\<open>load\<close>, where \<open>content\<close> is what reading the file at the path gives.\<close>

definition load_definition ::
  "'z definition_lib_scheme \<Rightarrow> str \<Rightarrow> (str, str) result \<Rightarrow> subgrove_definition res" where
  "load_definition L path content =
     rbind (map_err (\<lambda>e. Custom (Fmt ''Failed to read subgrove definition file {}: {}'' [Str path, Str e])) content)
       (from_toml L)"

definition execution_mode_of :: "subgrove_definition \<Rightarrow> execution_mode res" where
  "execution_mode_of d =
     (if sg_execution_mode d = ''ConsensusExecution'' then Inr ConsensusExecution
      else if sg_execution_mode d = ''IndexerExecution'' then
        Inr (IndexerExecution (case sg_sampling_rate_percent d of Some r \<Rightarrow> r | None \<Rightarrow> 5))
      else if sg_execution_mode d = ''TeeExecution'' then Inr (TeeExecution AwsNitro)
      else Inl (Validation
        (Fmt ''Unknown execution_mode {other:?}: use ConsensusExecution, IndexerExecution, or TeeExecution''
          [Str (sg_execution_mode d)])))"

definition execution_mode_json :: "'z definition_lib_scheme \<Rightarrow> subgrove_definition \<Rightarrow> jvalue res" where
  "execution_mode_json L d =
     rbind (execution_mode_of d) (\<lambda>mode. map_err Serialization (dl_mode_to_value L mode))"

definition checkpoint_verification :: "subgrove_definition \<Rightarrow> tee_type option res" where
  "checkpoint_verification d = (case sg_required_tee d of
       None \<Rightarrow> Inr None
     | Some tee \<Rightarrow>
         if tee = ''AwsNitro'' then Inr (Some AwsNitro)
         else if tee = ''IntelSgx'' then Inr (Some IntelSgx)
         else if tee = ''AmdSev'' then Inr (Some AmdSev)
         else Inl (Validation (Fmt ''Unknown required_tee {other:?}: use AwsNitro, IntelSgx, or AmdSev'' [Str tee])))"

definition checkpoint_verification_json :: "'z definition_lib_scheme \<Rightarrow> subgrove_definition \<Rightarrow> jvalue res" where
  "checkpoint_verification_json L d =
     rbind (checkpoint_verification d) (\<lambda>c. map_err Serialization (dl_checkpoint_to_value L c))"

definition register_transaction ::
  "'z definition_lib_scheme \<Rightarrow> subgrove_definition \<Rightarrow> str \<Rightarrow> str \<Rightarrow> u64 \<Rightarrow> nat option \<Rightarrow> register_subgrove_tx res" where
  "register_transaction L d owner_did public_key_id nonce initial_funding =
     rbind (checkpoint_verification d) (\<lambda>checkpoint.
     rbind (map_err Serialization (dl_manifest_to_vec L (sg_manifest d))) (\<lambda>manifest.
     rbind (execution_mode_of d) (\<lambda>mode.
     let c = sg_indexer_config d in
     Inr \<lparr>rs_subgrove_id = sg_subgrove_id d, rs_name = sg_subgrove_id d, rs_description = sg_description d,
       rs_schema = sg_schema d, rs_owner_did = owner_did, rs_admins = [], rs_initial_funding = initial_funding,
       rs_checkpoint_verification = checkpoint,
       rs_mode = BlockchainIndexing manifest mode
         \<lparr>ic_min_indexers = id_min_indexers c, ic_max_indexers = id_max_indexers c,
          ic_reward_per_epoch = id_reward_per_epoch c, ic_epoch_length = 100,
          ic_min_indexer_stake = id_min_indexer_stake c\<rparr>,
       rs_privacy = None, rs_initial_owner_key_grant = None, rs_template_config = sg_template_config d,
       rs_confirmation_depth = 0, rs_signature = [], rs_public_key_id = public_key_id, rs_nonce = nonce,
       rs_cryptographic_completeness = False\<rparr>)))"

definition to_register_transaction ::
  "'z definition_lib_scheme \<Rightarrow> subgrove_definition \<Rightarrow> str \<Rightarrow> str \<Rightarrow> bytes \<Rightarrow> u64 \<Rightarrow> nat option \<Rightarrow> str res" where
  "to_register_transaction L d owner_did public_key_id signature nonce initial_funding =
     rbind (register_transaction L d owner_did public_key_id nonce initial_funding) (\<lambda>tx.
     serialize_tx ''RegisterSubgrove'' (dl_register_to_string L (tx\<lparr>rs_signature := signature\<rparr>)))"

definition signing_payload ::
  "'z definition_lib_scheme \<Rightarrow> subgrove_definition \<Rightarrow> str \<Rightarrow> str \<Rightarrow> u64 \<Rightarrow> nat option \<Rightarrow> str res" where
  "signing_payload L d owner_did public_key_id nonce initial_funding =
     rbind (register_transaction L d owner_did public_key_id nonce initial_funding) (register_subgrove_message L)"

definition register_blockchain_subgrove ::
  "'z definition_lib_scheme \<Rightarrow> consensus_client \<Rightarrow> subgrove_definition \<Rightarrow> str \<Rightarrow> str \<Rightarrow> bytes \<Rightarrow> nat option
   \<Rightarrow> ('w con_world_scheme, str res) io" where
  "register_blockchain_subgrove L C d owner_did public_key_id signing_key initial_funding =
     try_io (ret (register_transaction L d owner_did public_key_id 0 initial_funding)) (\<lambda>tx.
     sign_and_register L C tx signing_key)"

section \<open>What a registration carries\<close>

lemma deserialize_u128_fits:
  "deserialize_u128 v = Some n \<Longrightarrow> (case v of Toml_int i \<Rightarrow> i < 2 ^ 63 | _ \<Rightarrow> True) \<Longrightarrow> n < 2 ^ 128"
proof -
  assume v: "deserialize_u128 v = Some n" "case v of Toml_int i \<Rightarrow> i < 2 ^ 63 | _ \<Rightarrow> True"
  have "unat u < 2 ^ 128" for u :: u64 using unat_lt2p [of u] by simp
  with v show ?thesis
    by (auto simp: deserialize_u128_def parse_unsigned_def Let_def split: toml_value.splits if_splits)
qed

text \<open>What a signed payload is over is what \<open>to_register_transaction\<close> carries, but for the signature.\<close>

lemma payload_is_of_the_transaction:
  "signing_payload L d owner kid nonce funding = Inr message \<Longrightarrow>
     \<exists>tx. register_transaction L d owner kid nonce funding = Inr tx \<and> rs_signature tx = []
       \<and> register_subgrove_message L tx = Inr message
       \<and> to_register_transaction L d owner kid sig nonce funding
           = serialize_tx ''RegisterSubgrove'' (dl_register_to_string L (tx\<lparr>rs_signature := sig\<rparr>))"
  by (auto simp: signing_payload_def to_register_transaction_def rbind_Inr_iff register_transaction_def Let_def)

lemma unknown_mode_refused:
  assumes "sg_execution_mode d \<notin> {''ConsensusExecution'', ''IndexerExecution'', ''TeeExecution''}"
  shows "\<exists>e. register_blockchain_subgrove L C d owner kid key funding s = (Inl e, s)"
  using assms by (auto simp: register_blockchain_subgrove_def register_transaction_def execution_mode_of_def
      split: sum.split) (auto simp: rbind_def split: sum.splits)

end
