(* ===== verification/Subscriptions.thy ===== *)
theory Subscriptions
  imports Indexing
begin

text \<open>
  GraphQL subscriptions over a WebSocket (\<open>src/src/subscriptions.rs\<close>): the handshake, the pump that
  delivers a socket's events, and the task that reconnects with a growing delay and another
  indexer. A socket is the list of what is read from it; what is sent on it is a list of frames.
  Where the task waits on the socket, the caller and a timer at once, what happens first is given:
  as the events of the pump, and as the steps of the task's relation. Dialling, and decoding a
  payload, are parameters; the caps of the WebSocket library on a message are not modelled.

  The lemmas show which payloads a pump delivers, that the task ends for good at a \<open>complete\<close> or
  the caller's stop, and that it connects only so often between two payloads.
\<close>

datatype subscribe_source = Validator_source | Indexer_source

definition DEFAULT_RECONNECT_BACKOFF :: duration where
  "DEFAULT_RECONNECT_BACKOFF = 500 * 10 ^ 6"

definition DEFAULT_MAX_RECONNECT_BACKOFF :: duration where
  "DEFAULT_MAX_RECONNECT_BACKOFF = secs 30"

definition MAX_SUBSCRIPTION_VALUES :: nat where
  "MAX_SUBSCRIPTION_VALUES = 2 ^ 16"

record subscribe_options =
  so_variables :: "jvalue option"
  so_operation_name :: "str option"
  so_connection_payload :: "jvalue option"
  so_source :: subscribe_source
  so_reconnect :: bool
  so_max_reconnect_attempts :: "nat option"
  so_reconnect_backoff :: duration
  so_max_reconnect_backoff :: duration

definition default_subscribe_options :: subscribe_options where
  "default_subscribe_options = \<lparr>so_variables = None, so_operation_name = None, so_connection_payload = None,
     so_source = Validator_source, so_reconnect = True, so_max_reconnect_attempts = None,
     so_reconnect_backoff = DEFAULT_RECONNECT_BACKOFF, so_max_reconnect_backoff = DEFAULT_MAX_RECONNECT_BACKOFF\<rparr>"

record subscription_payload =
  su_data :: "jvalue option"
  su_errors :: "jvalue option"

record subscription_lib = indexing_lib +
  sx_json_from_str :: "str \<Rightarrow> (str, jvalue) result"
  sx_payload :: "jvalue \<Rightarrow> (str, subscription_payload) result"

section \<open>The endpoint\<close>

definition http_to_ws :: "str \<Rightarrow> str" where
  "http_to_ws url =
     (let s = (case strip_prefix ''https://'' url of
            Some rest \<Rightarrow> ''wss://'' @ rest
          | None \<Rightarrow> (case strip_prefix ''http://'' url of
              Some rest \<Rightarrow> ''ws://'' @ rest
            | None \<Rightarrow> url)) in
      if suffix ''/'' s then s else s @ ''/'')"

definition resolve_ws_url ::
  "'z indexing_lib_scheme \<Rightarrow> willow_client \<Rightarrow> str \<Rightarrow> subscribe_source \<Rightarrow> str option
   \<Rightarrow> ('w indexing_world_scheme, (str \<times> str option) res) io" where
  "resolve_ws_url L W subgrove_id source skip_indexer_did = (case source of
       Validator_source \<Rightarrow> ret (Inr (http_to_ws (wc_base_url W) @ ''graphql/ws'', None))
     | Indexer_source \<Rightarrow>
         bind_io (case skip_indexer_did of None \<Rightarrow> ret () | Some did \<Rightarrow> evict did) (\<lambda>_.
         try_io (for_subgrove L W subgrove_id) (\<lambda>candidates. ret (case candidates of
             [] \<Rightarrow> Inl (Custom (Fmt ''No indexer serves subgrove {} - cannot open indexer subscription'' [Str subgrove_id]))
           | chosen # _ \<Rightarrow>
               Inr (http_to_ws (trim_end_matches (CHR ''/'') (effective_query_endpoint chosen)) @ ''graphql/ws'',
                 Some (in_indexer_did chosen))))))"

section \<open>Frames\<close>

datatype ws_frame = Text_frame str | Ping_frame bytes | Pong_frame bytes | Close_frame | Other_frame

text \<open>What a read gives: nothing more, a transport error, or a frame.\<close>

type_synonym ws_read = "(str, ws_frame) result option"

definition json_frame :: "'z lib_scheme \<Rightarrow> (str \<times> jvalue) list \<Rightarrow> ws_frame" where
  "json_frame L kvs = Text_frame (json_to_string L (JObject kvs))"

text \<open>A text decoded under the cap on its values; a text past it, or that does not decode, is skipped.\<close>

definition message_of :: "'z subscription_lib_scheme \<Rightarrow> str \<Rightarrow> jvalue option" where
  "message_of L t = (case check_json_within (str_bytes t) MAX_SUBSCRIPTION_VALUES Full of
       Inl _ \<Rightarrow> None
     | Inr _ \<Rightarrow> (case sx_json_from_str L t of Inl _ \<Rightarrow> None | Inr msg \<Rightarrow> Some msg))"

definition member_str :: "jvalue \<Rightarrow> str \<Rightarrow> str option" where
  "member_str msg k = Option.bind (jget msg k) as_str"

section \<open>The handshake\<close>

text \<open>The loop until \<open>connection_ack\<close>: the frames sent, and no result while the server has not finished;
  the reads left are the pump's.\<close>

fun await_ack :: "'z subscription_lib_scheme \<Rightarrow> ws_read list \<Rightarrow> ws_frame list \<times> ws_read list res option" where
  "await_ack L [] = ([], None)"
| "await_ack L (None # reads) = ([], Some (Inl (Custom (Fmt ''socket closed during handshake'' []))))"
| "await_ack L (Some (Inl e) # reads) = ([], Some (Inl (Custom (Fmt ''read during handshake: {}'' [Str e]))))"
| "await_ack L (Some (Inr f) # reads) = (case f of
       Ping_frame p \<Rightarrow> (let (sent, r) = await_ack L reads in (Pong_frame p # sent, r))
     | Close_frame \<Rightarrow> ([], Some (Inl (Custom (Fmt ''server closed during handshake'' []))))
     | Text_frame t \<Rightarrow> (case message_of L t of
           None \<Rightarrow> await_ack L reads
         | Some msg \<Rightarrow>
             if member_str msg ''type'' = Some ''connection_ack'' then ([], Some (Inr reads))
             else if member_str msg ''type'' = Some ''ping'' then
               (let (sent, r) = await_ack L reads in (json_frame L [(''type'', JString ''pong'')] # sent, r))
             else if member_str msg ''type'' = Some ''connection_error'' then
               ([], Some (Inl (Custom (Fmt ''server refused connection: {:?}''
                 (case jget msg ''payload'' of None \<Rightarrow> [] | Some p \<Rightarrow> [Str (json_to_string L p)])))))
             else await_ack L reads)
     | _ \<Rightarrow> await_ack L reads)"

text \<open>A socket as it answers one connection: whether the URL makes a request, the dialling, the two sends, and
  what is read before the timeout.\<close>

record ws_socket =
  wk_request :: "(str, unit) result"
  wk_connect :: "(str, unit) result"
  wk_send_init :: "(str, unit) result"
  wk_reads :: "ws_read list"
  wk_send_subscribe :: "(str, unit) result"

definition init_frame :: "'z lib_scheme \<Rightarrow> subscribe_options \<Rightarrow> ws_frame" where
  "init_frame L options = json_frame L [(''type'', JString ''connection_init''),
     (''payload'', unwrap_or (so_connection_payload options) (JObject []))]"

definition subscribe_frame :: "'z lib_scheme \<Rightarrow> str \<Rightarrow> str \<Rightarrow> subscribe_options \<Rightarrow> ws_frame" where
  "subscribe_frame L sub_id query options = json_frame L [(''type'', JString ''subscribe''), (''id'', JString sub_id),
     (''payload'', JObject ((''query'', JString query)
        # (case so_variables options of None \<Rightarrow> [] | Some v \<Rightarrow> [(''variables'', v)])
        @ (case so_operation_name options of None \<Rightarrow> [] | Some n \<Rightarrow> [(''operationName'', JString n)])))]"

definition handshake ::
  "'z subscription_lib_scheme \<Rightarrow> str \<Rightarrow> str \<Rightarrow> str \<Rightarrow> subscribe_options \<Rightarrow> ws_socket
   \<Rightarrow> ws_frame list \<times> ws_read list res option" where
  "handshake L ws_url sub_id query options D = (case wk_request D of
       Inl e \<Rightarrow> ([], Some (Inl (Config (Fmt ''Invalid WebSocket URL {}: {}'' [Str ws_url, Str e]))))
     | Inr _ \<Rightarrow> (case wk_connect D of
         Inl e \<Rightarrow> ([], Some (Inl (Custom (Fmt ''WebSocket connect failed: {}'' [Str e]))))
       | Inr _ \<Rightarrow> (case wk_send_init D of
           Inl e \<Rightarrow> ([], Some (Inl (Custom (Fmt ''send connection_init: {}'' [Str e]))))
         | Inr _ \<Rightarrow> (case await_ack L (wk_reads D) of
             (sent, Some (Inr reads)) \<Rightarrow> (case wk_send_subscribe D of
                 Inl e \<Rightarrow> (init_frame L options # sent, Some (Inl (Custom (Fmt ''send subscribe: {}'' [Str e]))))
               | Inr _ \<Rightarrow> (init_frame L options # sent @ [subscribe_frame L sub_id query options], Some (Inr reads)))
           | (sent, r) \<Rightarrow> (init_frame L options # sent, r)))))"

definition connect_and_handshake ::
  "'z subscription_lib_scheme \<Rightarrow> str \<Rightarrow> str \<Rightarrow> str \<Rightarrow> subscribe_options \<Rightarrow> duration \<Rightarrow> ws_socket
   \<Rightarrow> ws_frame list \<times> ws_read list res" where
  "connect_and_handshake L ws_url sub_id query options timeout D =
     (case handshake L ws_url sub_id query options D of
        (sent, Some r) \<Rightarrow> (sent, r)
      | (sent, None) \<Rightarrow> (sent, Inl (Network (Fmt ''WebSocket connection to {ws_url} not open after {timeout:?}''
          [Str ws_url, Num timeout]))))"

section \<open>The pump\<close>

datatype pump_exit = Cancelled | ServerComplete | Disconnected bool

text \<open>What wakes the pump: the caller's stop, or a read, with whether the caller still holds the receiver of
  the payloads.\<close>

datatype pump_event = Stop | Read ws_read bool

definition payload_of :: "'z subscription_lib_scheme \<Rightarrow> jvalue \<Rightarrow> subscription_payload" where
  "payload_of L msg = (case sx_payload L (jindex msg ''payload'') of
       Inr p \<Rightarrow> p | Inl _ \<Rightarrow> \<lparr>su_data = None, su_errors = None\<rparr>)"

text \<open>The frames sent, the payloads delivered, and no exit while the pump still waits.\<close>

fun pump_socket ::
  "'z subscription_lib_scheme \<Rightarrow> str \<Rightarrow> bool \<Rightarrow> pump_event list
   \<Rightarrow> ws_frame list \<times> subscription_payload list \<times> pump_exit option" where
  "pump_socket L sub_id delivered [] = ([], [], None)"
| "pump_socket L sub_id delivered (Stop # es) =
     ([json_frame L [(''type'', JString ''complete''), (''id'', JString sub_id)]], [], Some Cancelled)"
| "pump_socket L sub_id delivered (Read None open # es) = ([], [], Some (Disconnected delivered))"
| "pump_socket L sub_id delivered (Read (Some (Inl e)) open # es) = ([], [], Some (Disconnected delivered))"
| "pump_socket L sub_id delivered (Read (Some (Inr f)) open # es) = (case f of
       Close_frame \<Rightarrow> ([], [], Some (Disconnected delivered))
     | Ping_frame p \<Rightarrow>
         (let (sent, payloads, r) = pump_socket L sub_id delivered es in (Pong_frame p # sent, payloads, r))
     | Text_frame t \<Rightarrow> (case message_of L t of
           None \<Rightarrow> pump_socket L sub_id delivered es
         | Some msg \<Rightarrow> (let msg_type = unwrap_or (member_str msg ''type'') [] in
             if msg_type = ''next'' then
               if member_str msg ''id'' \<noteq> Some sub_id then pump_socket L sub_id delivered es
               else if \<not> open then ([], [], Some Cancelled)
               else (let (sent, payloads, r) = pump_socket L sub_id True es in
                 (sent, payload_of L msg # payloads, r))
             else if msg_type = ''complete'' then
               if member_str msg ''id'' = Some sub_id then ([], [], Some ServerComplete)
               else pump_socket L sub_id delivered es
             else if msg_type = ''ping'' then
               (let (sent, payloads, r) = pump_socket L sub_id delivered es in
                 (json_frame L [(''type'', JString ''pong'')] # sent, payloads, r))
             else pump_socket L sub_id delivered es))
     | _ \<Rightarrow> pump_socket L sub_id delivered es)"


section \<open>The task\<close>

definition DURATION_MAX :: duration where
  "DURATION_MAX = (2 ^ 64 - 1) * 10 ^ 9 + 999999999"

definition reconnect_delay :: "subscribe_options \<Rightarrow> nat \<Rightarrow> duration" where
  "reconnect_delay options attempts =
     min (min (so_reconnect_backoff options * 2 ^ min (attempts - 1) 30) DURATION_MAX) (so_max_reconnect_backoff options)"

datatype task_phase = Pumping | Retrying | Ended

record task_state =
  tk_phase :: task_phase
  tk_attempts :: nat
  tk_indexer_did :: "str option"

text \<open>What follows the pump: the end, or a retry, with the attempts counted anew after a payload.\<close>

definition after_pump :: "pump_exit \<Rightarrow> task_state \<Rightarrow> task_state" where
  "after_pump exit t = (case exit of
       Disconnected delivered \<Rightarrow>
         t\<lparr>tk_phase := Retrying, tk_attempts := (if delivered then 0 else tk_attempts t)\<rparr>
     | _ \<Rightarrow> t\<lparr>tk_phase := Ended\<rparr>)"

text \<open>The next attempt, counted, with its delay; none when the options allow no more.\<close>

definition begin_retry :: "subscribe_options \<Rightarrow> task_state \<Rightarrow> (task_state \<times> duration) option" where
  "begin_retry options t =
     (if \<not> so_reconnect options then None
      else if tk_attempts t \<ge> unwrap_or (so_max_reconnect_attempts options) (2 ^ 64 - 1) then None
      else Some (t\<lparr>tk_attempts := tk_attempts t + 1\<rparr>, reconnect_delay options (tk_attempts t + 1)))"

text \<open>An attempt: another endpoint, evicting the indexer connected to last, and its handshake.\<close>

definition try_reconnect ::
  "'z subscription_lib_scheme \<Rightarrow> willow_client \<Rightarrow> str \<Rightarrow> str \<Rightarrow> str \<Rightarrow> subscribe_options \<Rightarrow> duration \<Rightarrow> ws_socket
   \<Rightarrow> task_state \<Rightarrow> ('w indexing_world_scheme, task_state) io" where
  "try_reconnect L W subgrove_id query sub_id options timeout D t =
     bind_io (resolve_ws_url L W subgrove_id (so_source options) (tk_indexer_did t)) (\<lambda>resolved. ret (case resolved of
         Inl _ \<Rightarrow> t\<lparr>tk_phase := Retrying\<rparr>
       | Inr (ws_url, new_did) \<Rightarrow>
           (case snd (connect_and_handshake L ws_url sub_id query options timeout D) of
              Inl _ \<Rightarrow> t\<lparr>tk_phase := Retrying\<rparr>
            | Inr _ \<Rightarrow> t\<lparr>tk_phase := Pumping, tk_indexer_did := new_did\<rparr>)))"

datatype task_event =
    Pumped "subscription_payload list" pump_exit
  | Gave_up
  | Stopped_waiting
  | Waited duration

text \<open>The loop of \<open>subscription_loop\<close>, one pass at a time: the pump of a socket, the end of the retries,
  the caller's stop during a delay, or a delay and an attempt; between passes the rest of the
  program may change the state they share.\<close>

inductive task_step ::
  "'z subscription_lib_scheme \<Rightarrow> willow_client \<Rightarrow> str \<Rightarrow> str \<Rightarrow> str \<Rightarrow> subscribe_options \<Rightarrow> duration
   \<Rightarrow> task_state \<times> 'w indexing_world_scheme \<Rightarrow> task_event \<Rightarrow> task_state \<times> 'w indexing_world_scheme \<Rightarrow> bool"
  for L W subgrove_id query sub_id options timeout where
  pump: "tk_phase t = Pumping \<Longrightarrow> pump_socket L sub_id False es = (sent, payloads, Some exit) \<Longrightarrow>
    task_step L W subgrove_id query sub_id options timeout (t, w) (Pumped payloads exit) (after_pump exit t, w')"
| give_up: "tk_phase t = Retrying \<Longrightarrow> begin_retry options t = None \<Longrightarrow>
    task_step L W subgrove_id query sub_id options timeout (t, w) Gave_up (t\<lparr>tk_phase := Ended\<rparr>, w')"
| stop: "tk_phase t = Retrying \<Longrightarrow> begin_retry options t = Some (t', d) \<Longrightarrow>
    task_step L W subgrove_id query sub_id options timeout (t, w) Stopped_waiting (t'\<lparr>tk_phase := Ended\<rparr>, w')"
| attempt: "tk_phase t = Retrying \<Longrightarrow> begin_retry options t = Some (t', d) \<Longrightarrow>
    try_reconnect L W subgrove_id query sub_id options timeout D t' (w\<lparr>w_now := w_now w + d\<rparr>) = (t'', w'') \<Longrightarrow>
    task_step L W subgrove_id query sub_id options timeout (t, w) (Waited d) (t'', w')"

inductive task_run ::
  "'z subscription_lib_scheme \<Rightarrow> willow_client \<Rightarrow> str \<Rightarrow> str \<Rightarrow> str \<Rightarrow> subscribe_options \<Rightarrow> duration
   \<Rightarrow> task_state \<times> 'w indexing_world_scheme \<Rightarrow> task_event list \<Rightarrow> task_state \<times> 'w indexing_world_scheme \<Rightarrow> bool"
  for L W subgrove_id query sub_id options timeout where
  none: "task_run L W subgrove_id query sub_id options timeout x [] x"
| more: "task_run L W subgrove_id query sub_id options timeout x es y \<Longrightarrow>
    task_step L W subgrove_id query sub_id options timeout y e z \<Longrightarrow>
    task_run L W subgrove_id query sub_id options timeout x (es @ [e]) z"

text \<open>\<open>subscribe\<close>: the first endpoint and handshake, whose errors are the caller's, and the task that then
  pumps.\<close>

definition subscribe ::
  "'z subscription_lib_scheme \<Rightarrow> willow_client \<Rightarrow> str \<Rightarrow> str \<Rightarrow> subscribe_options \<Rightarrow> duration \<Rightarrow> ws_socket
   \<Rightarrow> ('w indexing_world_scheme, (str \<times> task_state) res) io" where
  "subscribe L W subgrove_id query options timeout D =
     try_io (resolve_ws_url L W subgrove_id (so_source options) None) (\<lambda>(ws_url, did).
     bind_io utc_now_io (\<lambda>now.
     let sub_id = ''sub-'' @ dec (if now < 0 then 0 else nat now) in
     ret (rbind (snd (connect_and_handshake L ws_url sub_id query options timeout D)) (\<lambda>_.
       Inr (sub_id, \<lparr>tk_phase = Pumping, tk_attempts = 0, tk_indexer_did = did\<rparr>)))))"

inductive_cases task_stepE: "task_step L W subgrove_id query sub_id options timeout x e y"

section \<open>What the pump delivers\<close>

text \<open>A frame's meaning for one subscription, apart from its answer.\<close>

definition next_payload :: "'z subscription_lib_scheme \<Rightarrow> str \<Rightarrow> pump_event \<Rightarrow> subscription_payload option" where
  "next_payload L sub_id e = (case e of
       Read (Some (Inr (Text_frame t))) _ \<Rightarrow> Option.bind (message_of L t) (\<lambda>msg.
         if member_str msg ''type'' = Some ''next'' \<and> member_str msg ''id'' = Some sub_id
         then Some (payload_of L msg) else None)
     | _ \<Rightarrow> None)"

definition ends_pump :: "'z subscription_lib_scheme \<Rightarrow> str \<Rightarrow> pump_event \<Rightarrow> bool" where
  "ends_pump L sub_id e \<longleftrightarrow> (case e of
       Stop \<Rightarrow> True
     | Read None _ \<Rightarrow> True
     | Read (Some (Inl _)) _ \<Rightarrow> True
     | Read (Some (Inr Close_frame)) _ \<Rightarrow> True
     | Read (Some (Inr (Text_frame t))) open \<Rightarrow>
         (\<exists>msg. message_of L t = Some msg \<and> member_str msg ''id'' = Some sub_id
            \<and> (member_str msg ''type'' = Some ''complete'' \<or> member_str msg ''type'' = Some ''next'' \<and> \<not> open))
     | _ \<Rightarrow> False)"

lemma pump_event_cases:
  obtains "e = Stop" | b where "e = Read None b" | b x where "e = Read (Some (Inl x)) b"
    | b t where "e = Read (Some (Inr (Text_frame t))) b" | b p where "e = Read (Some (Inr (Ping_frame p))) b"
    | b p where "e = Read (Some (Inr (Pong_frame p))) b" | b where "e = Read (Some (Inr Close_frame)) b"
    | b where "e = Read (Some (Inr Other_frame)) b"
  by (metis pump_event.exhaust ws_frame.exhaust sum.exhaust option.exhaust)

lemma pump_ends:
  assumes "ends_pump L sub_id e"
  shows "\<exists>sent x. pump_socket L sub_id d (e # es) = (sent, [], Some x) \<and> (\<forall>b. x = Disconnected b \<longrightarrow> b = d)"
proof (cases e rule: pump_event_cases)
  case (4 b t)
  with assms obtain msg where "message_of L t = Some msg" "member_str msg ''id'' = Some sub_id"
    "member_str msg ''type'' = Some ''complete'' \<or> member_str msg ''type'' = Some ''next'' \<and> \<not> b"
    by (auto simp: ends_pump_def)
  then show ?thesis unfolding 4 by (auto simp: unwrap_or_def)
qed (use assms in \<open>simp_all add: ends_pump_def\<close>)

lemma pump_goes_on:
  assumes "\<not> ends_pump L sub_id e"
  shows "\<exists>pre. pump_socket L sub_id d (e # es) = (case next_payload L sub_id e of
      None \<Rightarrow> (case pump_socket L sub_id d es of (sent, ps, r) \<Rightarrow> (pre @ sent, ps, r))
    | Some p \<Rightarrow> (case pump_socket L sub_id True es of (sent, ps, r) \<Rightarrow> (pre @ sent, p # ps, r)))"
proof (cases e rule: pump_event_cases)
  case (4 b t)
  show ?thesis
  proof (cases "message_of L t")
    case None
    then show ?thesis unfolding 4 by (intro exI [of _ "[]"]) (simp add: next_payload_def)
  next
    case (Some msg)
    then have "\<not> (member_str msg ''id'' = Some sub_id \<and> member_str msg ''type'' = Some ''complete'')"
      "member_str msg ''id'' = Some sub_id \<Longrightarrow> member_str msg ''type'' = Some ''next'' \<Longrightarrow> b"
      using assms unfolding 4 by (auto simp: ends_pump_def)
    then consider "member_str msg ''type'' = Some ''next''" "member_str msg ''id'' = Some sub_id" b
      | "member_str msg ''type'' = Some ''next''" "member_str msg ''id'' \<noteq> Some sub_id"
      | "member_str msg ''type'' = Some ''complete''" "member_str msg ''id'' \<noteq> Some sub_id"
      | "member_str msg ''type'' = Some ''ping''"
      | "member_str msg ''type'' \<notin> {Some ''next'', Some ''complete'', Some ''ping''}"
      by auto
    then show ?thesis
    proof cases
      case 4
      with Some \<open>e = _\<close> show ?thesis
        by (intro exI [of _ "[json_frame L [(''type'', JString ''pong'')]]"])
          (simp add: next_payload_def unwrap_or_def split: prod.split)
    next
      case 5
      with Some \<open>e = _\<close> show ?thesis
        by (intro exI [of _ "[]"]) (cases "member_str msg ''type''"; simp add: next_payload_def unwrap_or_def split: prod.split)
    qed (use Some \<open>e = _\<close> in \<open>simp_all add: next_payload_def unwrap_or_def exI [of _ "[]"] split: prod.split\<close>)
  qed
next
  case (5 b p)
  then show ?thesis by (intro exI [of _ "[Pong_frame p]"]) (simp add: next_payload_def)
qed (use assms in \<open>simp_all add: ends_pump_def next_payload_def exI [of _ "[]"]\<close>)

lemma pump_delivers:
  "pump_socket L sub_id delivered es = (sent, payloads, r) \<Longrightarrow>
     payloads = List.map_filter (next_payload L sub_id) (takeWhile (\<lambda>e. \<not> ends_pump L sub_id e) es)
     \<and> (r = None \<longleftrightarrow> (\<forall>e \<in> set es. \<not> ends_pump L sub_id e))
     \<and> (\<forall>d. r = Some (Disconnected d) \<longrightarrow> d = (delivered \<or> payloads \<noteq> []))"
proof (induction es arbitrary: delivered sent payloads r)
  case Nil
  then show ?case by (simp add: map_filter_simps)
next
  case (Cons e es)
  show ?case
  proof (cases "ends_pump L sub_id e")
    case True
    with pump_ends [OF this, of delivered es] Cons(2) show ?thesis by (auto simp: map_filter_simps)
  next
    case False
    obtain pre where step: "pump_socket L sub_id delivered (e # es) = (case next_payload L sub_id e of
      None \<Rightarrow> (case pump_socket L sub_id delivered es of (sent, ps, r) \<Rightarrow> (pre @ sent, ps, r))
    | Some p \<Rightarrow> (case pump_socket L sub_id True es of (sent, ps, r) \<Rightarrow> (pre @ sent, p # ps, r)))"
      using pump_goes_on [OF False] by blast
    show ?thesis
    proof (cases "next_payload L sub_id e")
      case None
      obtain s1 p1 r1 where rec: "pump_socket L sub_id delivered es = (s1, p1, r1)" by (metis prod_cases3)
      with step None Cons(2) have "payloads = p1" "r = r1" by simp_all
      with Cons(1) [OF rec] None False show ?thesis by (auto simp: map_filter_simps)
    next
      case (Some p)
      obtain s1 p1 r1 where rec: "pump_socket L sub_id True es = (s1, p1, r1)" by (metis prod_cases3)
      with step Some Cons(2) have "payloads = p # p1" "r = r1" by simp_all
      with Cons(1) [OF rec] Some False show ?thesis by (auto simp: map_filter_simps)
    qed
  qed
qed


text \<open>C20: A pump delivers exactly the payloads of the \<open>next\<close> messages of its subscription, in their order, up to
  the first event that ends it; it waits while no event does; and it reports a lost connection as one
  that delivered exactly when it delivered a payload.\<close>

theorem pump_delivers_own_payloads:
  "case pump_socket L sub_id False es of (sent, payloads, r) \<Rightarrow>
     payloads = List.map_filter (next_payload L sub_id) (takeWhile (\<lambda>e. \<not> ends_pump L sub_id e) es)
     \<and> (r = None \<longleftrightarrow> list_all (\<lambda>e. \<not> ends_pump L sub_id e) es)
     \<and> (case r of Some (Disconnected d) \<Rightarrow> d = (payloads \<noteq> []) | _ \<Rightarrow> True)"
proof -
  obtain sent payloads r where p: "pump_socket L sub_id False es = (sent, payloads, r)" by (metis prod_cases3)
  from pump_delivers [OF p] show ?thesis
    by (auto simp: p list_all_iff split: option.splits pump_exit.splits)
qed

section \<open>How often the task connects\<close>

fun quiet :: "task_event \<Rightarrow> bool" where
  "quiet (Pumped payloads _) = (payloads = [])"
| "quiet _ = True"

fun waits :: "task_event \<Rightarrow> bool" where
  "waits (Waited _) = True"
| "waits _ = False"

definition max_attempts_of :: "subscribe_options \<Rightarrow> nat" where
  "max_attempts_of options = unwrap_or (so_max_reconnect_attempts options) (2 ^ 64 - 1)"

lemma begin_retry_Some:
  "begin_retry options t = Some (t', d) \<Longrightarrow> so_reconnect options \<and> tk_attempts t' = tk_attempts t + 1
     \<and> tk_attempts t' \<le> max_attempts_of options \<and> d \<le> so_max_reconnect_backoff options"
  by (auto simp: begin_retry_def max_attempts_of_def reconnect_delay_def split: if_splits)

lemma try_reconnect_attempts:
  "try_reconnect L W subgrove_id query sub_id options timeout D t w = (t', w') \<Longrightarrow> tk_attempts t' = tk_attempts t"
  by (auto simp: try_reconnect_def split: prod.splits sum.splits)

lemma task_step_attempts:
  assumes "task_step L W subgrove_id query sub_id options timeout (t, w) e (t', w')"
    and "tk_attempts t \<le> max_attempts_of options"
  shows "tk_attempts t' \<le> max_attempts_of options"
    and "quiet e \<Longrightarrow> tk_attempts t + (if waits e then 1 else 0) \<le> tk_attempts t'"
    and "e = Waited d \<Longrightarrow> so_reconnect options \<and> d \<le> so_max_reconnect_backoff options"
proof -
  have "tk_attempts t' \<le> max_attempts_of options \<and> (quiet e \<longrightarrow> tk_attempts t + (if waits e then 1 else 0) \<le> tk_attempts t')
    \<and> (e = Waited d \<longrightarrow> so_reconnect options \<and> d \<le> so_max_reconnect_backoff options)"
    using assms(1)
  proof (cases rule: task_step.cases)
    case (pump es sent payloads exit)
    with pump_delivers [OF pump(4)] assms(2) show ?thesis
      by (auto simp: after_pump_def split: pump_exit.splits)
  next
    case give_up
    with assms(2) show ?thesis by auto
  next
    case (stop t1 d1)
    with begin_retry_Some [OF stop(4)] show ?thesis by auto
  next
    case (attempt t1 d1 D w2)
    with begin_retry_Some [OF attempt(3)] try_reconnect_attempts [OF attempt(4)] show ?thesis by auto
  qed
  then show "tk_attempts t' \<le> max_attempts_of options"
    and "quiet e \<Longrightarrow> tk_attempts t + (if waits e then 1 else 0) \<le> tk_attempts t'"
    and "e = Waited d \<Longrightarrow> so_reconnect options \<and> d \<le> so_max_reconnect_backoff options"
    by blast+
qed

lemma task_run_attempts:
  assumes "task_run L W subgrove_id query sub_id options timeout x es y" "tk_attempts (fst x) \<le> max_attempts_of options"
  shows "tk_attempts (fst y) \<le> max_attempts_of options
    \<and> (\<forall>xs ys. es = xs @ ys \<longrightarrow> list_all quiet ys \<longrightarrow> length (filter waits ys) \<le> tk_attempts (fst y))
    \<and> (\<forall>xs ys zs. es = xs @ ys @ zs \<longrightarrow> list_all quiet ys \<longrightarrow> length (filter waits ys) \<le> max_attempts_of options)
    \<and> (\<forall>d. Waited d \<in> set es \<longrightarrow> so_reconnect options \<and> d \<le> so_max_reconnect_backoff options)"
  using assms
proof (induction rule: task_run.induct)
  case (more x es y e z)
  obtain t w t' w' where yz: "y = (t, w)" "z = (t', w')" by (cases y, cases z)
  note all = more(3) [OF more(4), unfolded yz fst_conv]
  then have IH: "tk_attempts t \<le> max_attempts_of options"
    "\<And>xs ys. es = xs @ ys \<Longrightarrow> list_all quiet ys \<Longrightarrow> length (filter waits ys) \<le> tk_attempts t"
    "\<And>xs ys zs. es = xs @ ys @ zs \<Longrightarrow> list_all quiet ys \<Longrightarrow> length (filter waits ys) \<le> max_attempts_of options"
    "\<And>d. Waited d \<in> set es \<Longrightarrow> so_reconnect options \<and> d \<le> so_max_reconnect_backoff options"
    by blast+
  note step = task_step_attempts [OF more(2) [unfolded yz] IH(1)]
  have suf: "length (filter waits ys) \<le> tk_attempts t'" if "es @ [e] = xs @ ys" "list_all quiet ys" for xs ys
  proof (cases ys rule: rev_cases)
    case (snoc us u)
    with that IH(2) [of xs us] step(2) show ?thesis by (auto split: if_splits)
  qed simp
  moreover have "length (filter waits ys) \<le> max_attempts_of options" if "es @ [e] = xs @ ys @ zs" "list_all quiet ys" for xs ys zs
  proof (cases zs rule: rev_cases)
    case Nil
    with that suf [of xs ys] step(1) show ?thesis by simp
  next
    case (snoc us u)
    with that IH(3) [of xs ys us] show ?thesis by simp
  qed
  ultimately show ?case using step(1,3) IH(4) by (auto simp: yz)
qed simp

lemma subscribe_starts:
  "subscribe L W subgrove_id query options timeout D s = (Inr (sub_id, t), s') \<Longrightarrow> tk_phase t = Pumping \<and> tk_attempts t = 0"
  unfolding subscribe_def try_io_Inr_iff by (auto simp: rbind_Inr_iff utc_now_io_def Let_def)

text \<open>C19: In every run of the task \<open>subscribe\<close> starts, whatever the servers, the caller and the rest of the
  program do: without a payload delivered in between, it connects anew at most as often as the
  options allow, never when they forbid it, each time after at most the longest delay.\<close>

theorem reconnects_are_bounded:
  assumes "subscribe L W subgrove_id query options timeout D s = (Inr (sub_id, t), s')"
    and "task_run L W subgrove_id query sub_id options timeout (t, w) es y" "es = xs @ ys @ zs" "list_all quiet ys"
  shows "length (filter waits ys) \<le> max_attempts_of options
    \<and> list_all (\<lambda>e. case e of Waited d \<Rightarrow> so_reconnect options \<and> d \<le> so_max_reconnect_backoff options | _ \<Rightarrow> True) ys"
proof -
  have "tk_attempts (fst (t, w)) \<le> max_attempts_of options" using subscribe_starts [OF assms(1)] by simp
  note run = task_run_attempts [OF assms(2) this]
  from run assms(3,4) have "length (filter waits ys) \<le> max_attempts_of options" by blast
  moreover have "list_all (\<lambda>e. case e of Waited d \<Rightarrow> so_reconnect options \<and> d \<le> so_max_reconnect_backoff options | _ \<Rightarrow> True) ys"
    using run assms(3) by (auto simp: list_all_iff split: task_event.split)
  ultimately show ?thesis by blast
qed

text \<open>A run ends for good: no step leaves \<open>Ended\<close>.\<close>

lemma ended_is_final: "tk_phase t = Ended \<Longrightarrow> \<not> task_step L W subgrove_id query sub_id options timeout (t, w) e y"
  by (auto elim: task_stepE)

text \<open>The indexer an attempt fails to reach is not the one the next attempt evicts: that is still the one connected
  to last. While the cached list is fresh, the next attempt resolves to the same dead endpoint.\<close>

lemma dead_indexer_is_tried_again:
  assumes "wc_indexer_url W = None" "ix_cache s = Some (entries, fetched_at)" "w_now s - fetched_at < DEFAULT_CACHE_TTL"
    and "resolve_ws_url L W subgrove_id Indexer_source (Some did) s = (Inr (url, Some dead), s1)"
    and "snd (connect_and_handshake L url sub_id query options timeout D) = Inl e"
    and "so_source options = Indexer_source" "tk_indexer_did t = Some did"
  shows "try_reconnect L W subgrove_id query sub_id options timeout D t s = (t\<lparr>tk_phase := Retrying\<rparr>, s1)
    \<and> fst (resolve_ws_url L W subgrove_id Indexer_source (Some did) s1) = Inr (url, Some dead)"
proof -
  let ?s = "s\<lparr>ix_cache := Some (filter (\<lambda>i. in_indexer_did i \<noteq> did) entries, fetched_at)\<rparr>"
  have run: "resolve_ws_url L W subgrove_id Indexer_source (Some did) s1
      = (case for_subgrove L W subgrove_id ?s of (r, u) \<Rightarrow> (fst (resolve_ws_url L W subgrove_id Indexer_source (Some did) s), u))"
    if "s1 = ?s"
    using that assms(1-3) by (simp add: resolve_ws_url_def evict_def for_subgrove_def list_indexers_def)
  have "s1 = ?s"
    using assms(1-4) by (auto simp: resolve_ws_url_def evict_def for_subgrove_def list_indexers_def split: list.splits)
  with run assms(4) have "fst (resolve_ws_url L W subgrove_id Indexer_source (Some did) s1) = Inr (url, Some dead)"
    by (simp split: prod.split)
  with assms(4-7) show ?thesis by (simp add: try_reconnect_def)
qed

section \<open>A subscription at a concrete input\<close>

text \<open>A server that acknowledges the first connection and drops it, and takes no other; one more attempt
  is allowed.\<close>

definition stream_lib :: subscription_lib where
  "stream_lib = indexing_lib.extend (client_lib.extend sample_client_lib \<lparr>ix_indexers = (\<lambda>_. Inl ''e''), f64_less = (<)\<rparr>)
     \<lparr>sx_json_from_str = (\<lambda>_. Inr (JObject [(''type'', JString ''connection_ack'')])), sx_payload = (\<lambda>_. Inl ''e'')\<rparr>"

definition one_retry :: subscribe_options where
  "one_retry = default_subscribe_options\<lparr>so_max_reconnect_attempts := Some 1\<rparr>"

definition live_socket :: ws_socket where
  "live_socket = \<lparr>wk_request = Inr (), wk_connect = Inr (), wk_send_init = Inr (),
     wk_reads = [Some (Inr (Text_frame []))], wk_send_subscribe = Inr ()\<rparr>"

definition stream_world :: indexing_world where
  "stream_world = client_world.extend sample_world \<lparr>ix_cache = None\<rparr>"

theorem reconnects_are_bounded_witness:
  "\<exists>sub_id t s' y. subscribe stream_lib sample_willow ''sg'' ''q'' one_retry 5 live_socket stream_world = (Inr (sub_id, t), s')
     \<and> task_run stream_lib sample_willow ''sg'' ''q'' sub_id one_retry 5 (t, stream_world)
         [Pumped [] (Disconnected False), Waited (500 * 10 ^ 6), Gave_up] y
     \<and> length (filter waits [Pumped [] (Disconnected False), Waited (500 * 10 ^ 6), Gave_up]) \<le> max_attempts_of one_retry"
proof -
  have json: "sx_json_from_str stream_lib m = Inr (JObject [(''type'', JString ''connection_ack'')])" for m
    by (simp add: stream_lib_def indexing_lib.defs)
  have ack: "message_of stream_lib [] = Some (JObject [(''type'', JString ''connection_ack'')])"
    by (simp add: message_of_def json check_json_within_def scan_units_def str_bytes_def)
  have live: "\<exists>sent. connect_and_handshake stream_lib url sub_id ''q'' one_retry 5 live_socket = (sent, Inr [])" for url sub_id
    by (simp add: connect_and_handshake_def handshake_def live_socket_def ack member_str_def)
  then obtain sub_id s' where sub: "subscribe stream_lib sample_willow ''sg'' ''q'' one_retry 5 live_socket stream_world
      = (Inr (sub_id, \<lparr>tk_phase = Pumping, tk_attempts = 0, tk_indexer_did = None\<rparr>), s')"
    by (simp add: subscribe_def resolve_ws_url_def one_retry_def default_subscribe_options_def utc_now_io_def Let_def)
      (metis (no_types, lifting) rbind_simps(2) snd_conv)
  let ?step = "task_step stream_lib sample_willow ''sg'' ''q'' sub_id one_retry 5"
  let ?t = "\<lambda>phase n. \<lparr>tk_phase = phase, tk_attempts = n, tk_indexer_did = None\<rparr>" and ?w = stream_world
  have options: "so_source one_retry = Validator_source" "so_reconnect one_retry"
    "so_max_reconnect_attempts one_retry = Some 1" "so_reconnect_backoff one_retry = 500000000"
    "so_max_reconnect_backoff one_retry = 30000000000"
    by (simp_all add: one_retry_def default_subscribe_options_def DEFAULT_RECONNECT_BACKOFF_def
        DEFAULT_MAX_RECONNECT_BACKOFF_def secs_def)
  have "?step (?t Pumping 0, ?w) (Pumped [] (Disconnected False)) (after_pump (Disconnected False) (?t Pumping 0), ?w)"
    by (rule task_step.pump [where es = "[Read None True]" and sent = "[]"]) simp_all
  then have s1: "?step (?t Pumping 0, ?w) (Pumped [] (Disconnected False)) (?t Retrying 0, ?w)"
    by (simp add: after_pump_def)
  have again: "begin_retry one_retry (?t Retrying 0) = Some (?t Retrying 1, 500 * 10 ^ 6)"
    by (simp add: begin_retry_def options unwrap_or_def reconnect_delay_def DURATION_MAX_def)
  define dead where "dead = live_socket\<lparr>wk_connect := Inl ''refused''\<rparr>"
  have "try_reconnect stream_lib sample_willow ''sg'' ''q'' sub_id one_retry 5 dead (?t Retrying 1) v
      = (?t Retrying 1, v)" for v :: indexing_world
    by (simp add: try_reconnect_def resolve_ws_url_def options connect_and_handshake_def handshake_def dead_def
        live_socket_def)
  then have s2: "?step (?t Retrying 0, ?w) (Waited (500 * 10 ^ 6)) (?t Retrying 1, ?w)"
    by (intro task_step.attempt [OF _ again]) simp_all
  have "?step (?t Retrying 1, ?w) Gave_up ((?t Retrying 1)\<lparr>tk_phase := Ended\<rparr>, ?w)"
    by (rule task_step.give_up) (simp_all add: begin_retry_def options unwrap_or_def)
  note run = task_run.more [OF task_run.more [OF task_run.more [OF task_run.none s1] s2] this, simplified]
  have "[Pumped [] (Disconnected False), Waited (500 * 10 ^ 6), Gave_up]
      = [] @ [Pumped [] (Disconnected False), Waited (500 * 10 ^ 6), Gave_up] @ []" by simp
  from reconnects_are_bounded [OF sub _ this] run sub show ?thesis by fastforce
qed

end
