(* ===== verification/Queries.thy ===== *)
theory Queries
  imports Client
begin

text \<open>
  The queries that only pass on what the API answers: tokens and balances (\<open>src/src/token.rs\<close>),
  subgrove registrations (\<open>src/src/registration.rs\<close>), validators (\<open>src/src/validators.rs\<close>) and agents
  (\<open>src/src/erc8004.rs\<close>). What an answer is decoded to is the decoder each query is given; the
  records hold the fields the sources read or all of the answer's. Nothing in them is proven by
  the chain.

  The lemmas show that the registration found is listed under the id asked, and where an absent
  answer is told apart from an error.
\<close>

section \<open>Tokens\<close>

record token_info =
  ti_name :: str
  ti_symbol :: str
  ti_decimals :: u8
  ti_genesis_supply :: nat
  ti_minted_supply :: nat
  ti_max_supply :: nat
  ti_circulating_supply :: nat

record balance_info =
  bi_did :: str
  bi_available :: nat
  bi_staked :: nat
  bi_locked :: nat

record subgrove_balance_info =
  sb_subgrove_id :: str
  sb_balance :: nat
  sb_total_spent :: nat
  sb_last_funded :: u64

type_synonym 't api_decoder = "bytes \<Rightarrow> (str, 't api_response) result"

definition get_token_info ::
  "'z client_lib_scheme \<Rightarrow> willow_client \<Rightarrow> token_info api_decoder \<Rightarrow> ('w client_world_scheme, token_info res) io" where
  "get_token_info L W decode =
     try_io (client_request L W decode ''GET'' ''/token/info'' None False) (\<lambda>response.
     ret (ok_or (ar_data response) (Custom (Fmt ''No token info available'' []))))"

definition get_balance ::
  "'z client_lib_scheme \<Rightarrow> willow_client \<Rightarrow> balance_info api_decoder \<Rightarrow> str
   \<Rightarrow> ('w client_world_scheme, balance_info res) io" where
  "get_balance L W decode did =
     try_io (client_request L W decode ''GET'' (''/token/balance/'' @ did) None False) (\<lambda>response.
     ret (ok_or (ar_data response) (NotFound (Fmt ''Balance not found for: {}'' [Str did]))))"

definition get_subgrove_balance ::
  "'z client_lib_scheme \<Rightarrow> willow_client \<Rightarrow> subgrove_balance_info api_decoder \<Rightarrow> str
   \<Rightarrow> ('w client_world_scheme, subgrove_balance_info res) io" where
  "get_subgrove_balance L W decode subgrove_id =
     try_io (client_request L W decode ''GET'' (''/token/subgrove/balance/'' @ subgrove_id) None False) (\<lambda>response.
     ret (ok_or (ar_data response) (NotFound (Fmt ''Subgrove balance not found for: {}'' [Str subgrove_id]))))"

text \<open>The fee schedule is the chain's type.\<close>

definition get_fee_schedule ::
  "'z client_lib_scheme \<Rightarrow> willow_client \<Rightarrow> 'f api_decoder \<Rightarrow> ('w client_world_scheme, 'f res) io" where
  "get_fee_schedule L W decode =
     try_io (client_request L W decode ''GET'' ''/fees/schedule'' None False) (\<lambda>response.
     ret (ok_or (ar_data response) (Custom (Fmt ''No fee schedule available'' []))))"

section \<open>Registrations\<close>

record subgrove_registration =
  sn_subgrove_id :: str

record did_permissions =
  dp_did :: str
  dp_owned_subgroves :: "str list"
  dp_admin_subgroves :: "str list"
  dp_write_access :: "str list"
  dp_read_access :: "str list"

definition list_subgroves ::
  "'z client_lib_scheme \<Rightarrow> willow_client \<Rightarrow> 'r subgrove_registration_scheme list api_decoder
   \<Rightarrow> ('w client_world_scheme, 'r subgrove_registration_scheme list res) io" where
  "list_subgroves L W decode = (\<lambda>s.
     try_io (client_request L W decode ''GET'' ''/subgroves'' None (has_identity s)) (\<lambda>response.
     ret (Inr (unwrap_or (ar_data response) []))) s)"

definition get_subgrove ::
  "'z client_lib_scheme \<Rightarrow> willow_client \<Rightarrow> 'r subgrove_registration_scheme list api_decoder \<Rightarrow> str
   \<Rightarrow> ('w client_world_scheme, 'r subgrove_registration_scheme res) io" where
  "get_subgrove L W decode subgrove_id =
     try_io (list_subgroves L W decode) (\<lambda>subgroves.
     ret (ok_or (find (\<lambda>r. sn_subgrove_id r = subgrove_id) subgroves)
       (NotFound (Fmt ''Subgrove not found: {}'' [Str subgrove_id]))))"

definition get_did_permissions ::
  "'z client_lib_scheme \<Rightarrow> willow_client \<Rightarrow> did_permissions api_decoder \<Rightarrow> str
   \<Rightarrow> ('w client_world_scheme, did_permissions res) io" where
  "get_did_permissions L W decode did =
     try_io (client_request L W decode ''GET'' (''/did/'' @ did @ ''/permissions'') None False) (\<lambda>response.
     ret (ok_or (ar_data response) (NotFound (Fmt ''DID not found: {}'' [Str did]))))"

section \<open>Validators\<close>

record validator_info =
  vn_did :: str
  vn_total_stake :: "128 word"
  vn_self_stake :: "128 word"
  vn_active :: bool
  vn_jailed :: bool
  vn_jail_end_time :: "u64 option"
  vn_consensus_pubkey :: "str option"

definition list_validators ::
  "'z client_lib_scheme \<Rightarrow> willow_client \<Rightarrow> validator_info list api_decoder
   \<Rightarrow> ('w client_world_scheme, validator_info list res) io" where
  "list_validators L W decode =
     try_io (client_request L W decode ''GET'' ''/validators'' None False) (\<lambda>response.
     ret (Inr (unwrap_or (ar_data response) [])))"

definition get_validator ::
  "'z client_lib_scheme \<Rightarrow> willow_client \<Rightarrow> validator_info api_decoder \<Rightarrow> str
   \<Rightarrow> ('w client_world_scheme, validator_info res) io" where
  "get_validator L W decode validator_did =
     try_io (client_request L W decode ''GET'' (''/validators/'' @ validator_did) None False) (\<lambda>response.
     ret (ok_or (ar_data response) (NotFound (Fmt ''Validator not found: {}'' [Str validator_did]))))"

text \<open>The sum wraps around, as it does with overflow checks off; with them on it panics.\<close>

definition get_total_staked ::
  "'z client_lib_scheme \<Rightarrow> willow_client \<Rightarrow> validator_info list api_decoder
   \<Rightarrow> ('w client_world_scheme, 128 word res) io" where
  "get_total_staked L W decode =
     try_io (list_validators L W decode) (\<lambda>validators. ret (Inr (sum_list (map vn_total_stake validators))))"

definition get_active_count ::
  "'z client_lib_scheme \<Rightarrow> willow_client \<Rightarrow> validator_info list api_decoder
   \<Rightarrow> ('w client_world_scheme, nat res) io" where
  "get_active_count L W decode =
     try_io (list_validators L W decode) (\<lambda>validators. ret (Inr (length (filter vn_active validators))))"

section \<open>Agents\<close>

text \<open>\<open>Erc8004Client\<close> is the URL of its API; \<open>from_value\<close> decodes the answer's \<open>data\<close>.\<close>

definition erc8004_client :: "str \<Rightarrow> str" where
  "erc8004_client api_url = trim_end_matches (CHR ''/'') api_url"

definition read_json :: "'z lib_scheme \<Rightarrow> response \<Rightarrow> jvalue res" where
  "read_json L resp = (case json (json_from_slice L) resp SMALL of
       Inl (Serialization e) \<Rightarrow> Inl (Network (Fmt ''Failed to parse response: {}'' [Str e]))
     | r \<Rightarrow> r)"

definition request_failed :: "reqwest_error \<Rightarrow> willow_error" where
  "request_failed e = Network (Fmt ''Request failed: {}'' [Str (rq_text e)])"

definition answered_error :: "jvalue \<Rightarrow> willow_error" where
  "answered_error body = Network (Fmt ''{}'' [Str (case Option.bind (jget body ''error'') as_str of
       Some e \<Rightarrow> e | None \<Rightarrow> ''Unknown error'')])"

text \<open>A query whose answer's \<open>data\<close> is decoded, and its \<open>error\<close> reported without one.\<close>

definition agent_query ::
  "'z lib_scheme \<Rightarrow> str \<Rightarrow> str \<Rightarrow> (jvalue \<Rightarrow> (str, 't) result) \<Rightarrow> ('w world_scheme, 't res) io" where
  "agent_query L url what from_value = (\<lambda>s. case send (Get url []) s of
       (Inl e, s) \<Rightarrow> (Inl (request_failed e), s)
     | (Inr resp, s) \<Rightarrow> (rbind (read_json L resp) (\<lambda>body. case jget body ''data'' of
           Some d \<Rightarrow> map_err (\<lambda>e. Network (Fmt (''Failed to parse '' @ what @ '': {}'') [Str e])) (from_value d)
         | None \<Rightarrow> Inl (answered_error body)), s))"

text \<open>A query that answers nothing for a status of 404.\<close>

definition maybe_query ::
  "'z lib_scheme \<Rightarrow> str \<Rightarrow> (jvalue \<Rightarrow> 't option res) \<Rightarrow> ('w world_scheme, 't option res) io" where
  "maybe_query L url pick = (\<lambda>s. case send (Get url []) s of
       (Inl e, s) \<Rightarrow> (Inl (request_failed e), s)
     | (Inr resp, s) \<Rightarrow>
         (if resp_status resp = 404 then Inr None else rbind (read_json L resp) pick, s))"

definition param :: "str \<Rightarrow> str option \<Rightarrow> str list" where
  "param name v = (case v of None \<Rightarrow> [] | Some x \<Rightarrow> [name @ ''='' @ x])"

definition with_params :: "str \<Rightarrow> str list \<Rightarrow> str" where
  "with_params url params = (if params = [] then url else url @ ''?'' @ join_with ''&'' params)"

definition list_agents ::
  "'z lib_scheme \<Rightarrow> str \<Rightarrow> (jvalue \<Rightarrow> (str, 't) result) \<Rightarrow> nat option \<Rightarrow> nat option \<Rightarrow> ('w world_scheme, 't res) io" where
  "list_agents L api from_value limit offset = agent_query L
     (with_params (api @ ''/agents'') (param ''limit'' (map_option dec limit) @ param ''offset'' (map_option dec offset)))
     ''agent list'' from_value"

definition get_agent_registration ::
  "'z lib_scheme \<Rightarrow> str \<Rightarrow> (jvalue \<Rightarrow> (str, 't) result) \<Rightarrow> str \<Rightarrow> ('w world_scheme, 't res) io" where
  "get_agent_registration L api from_value did =
     agent_query L (api @ ''/agent/'' @ did @ ''/registration.json'') ''registration'' from_value"

definition data_str :: "str \<Rightarrow> jvalue \<Rightarrow> str option res" where
  "data_str k body = Inr (Option.bind (Option.bind (jget body ''data'') (\<lambda>d. jget d k)) as_str)"

definition get_eth_address :: "'z lib_scheme \<Rightarrow> str \<Rightarrow> str \<Rightarrow> ('w world_scheme, str option res) io" where
  "get_eth_address L api did = maybe_query L (api @ ''/did/'' @ did @ ''/eth-address'') (data_str ''eth_address'')"

definition get_did_for_eth :: "'z lib_scheme \<Rightarrow> str \<Rightarrow> str \<Rightarrow> ('w world_scheme, str option res) io" where
  "get_did_for_eth L api eth_address = maybe_query L (api @ ''/eth-address/'' @ eth_address @ ''/did'') (data_str ''did'')"

definition get_erc8004_details ::
  "'z lib_scheme \<Rightarrow> str \<Rightarrow> (jvalue \<Rightarrow> (str, 't) result) \<Rightarrow> str \<Rightarrow> ('w world_scheme, 't option res) io" where
  "get_erc8004_details L api from_value did = maybe_query L (api @ ''/did/'' @ did @ ''/erc8004'') (\<lambda>body.
     case jget body ''data'' of
       Some d \<Rightarrow> rbind (map_err (\<lambda>e. Network (Fmt ''Failed to parse registration: {}'' [Str e])) (from_value d)) (\<lambda>r. Inr (Some r))
     | None \<Rightarrow> Inr None)"

definition get_reputation_attestation ::
  "'z lib_scheme \<Rightarrow> str \<Rightarrow> (jvalue \<Rightarrow> (str, 't) result) \<Rightarrow> str \<Rightarrow> ('w world_scheme, 't res) io" where
  "get_reputation_attestation L api from_value did =
     agent_query L (api @ ''/agent/'' @ did @ ''/reputation-attestation'') ''attestation'' from_value"

definition get_reputation_history ::
  "'z lib_scheme \<Rightarrow> str \<Rightarrow> (jvalue \<Rightarrow> (str, 't) result) \<Rightarrow> str \<Rightarrow> nat option \<Rightarrow> ('w world_scheme, 't res) io" where
  "get_reputation_history L api from_value did limit = agent_query L
     (with_params (api @ ''/agent/'' @ did @ ''/reputation-history'') (param ''limit'' (map_option dec limit)))
     ''history'' from_value"

definition get_validation_status ::
  "'z lib_scheme \<Rightarrow> str \<Rightarrow> (jvalue \<Rightarrow> (str, 't) result) \<Rightarrow> str \<Rightarrow> nat option \<Rightarrow> str option
   \<Rightarrow> ('w world_scheme, 't res) io" where
  "get_validation_status L api from_value did limit subgrove_id = agent_query L
     (with_params (api @ ''/agent/'' @ did @ ''/validation-status'')
       (param ''limit'' (map_option dec limit) @ param ''subgrove_id'' subgrove_id))
     ''validation status'' from_value"

definition get_validation_summary ::
  "'z lib_scheme \<Rightarrow> str \<Rightarrow> (jvalue \<Rightarrow> (str, 't) result) \<Rightarrow> str \<Rightarrow> str option \<Rightarrow> ('w world_scheme, 't res) io" where
  "get_validation_summary L api from_value did subgrove_id = agent_query L
     (with_params (api @ ''/agent/'' @ did @ ''/validation-summary'') (param ''subgrove_id'' subgrove_id))
     ''validation summary'' from_value"

section \<open>What an answer stands for\<close>

lemma get_subgrove_listed:
  assumes "get_subgrove L W decode subgrove_id s = (Inr r, s')"
  shows "sn_subgrove_id r = subgrove_id \<and> (\<exists>rs. list_subgroves L W decode s = (Inr rs, s') \<and> r \<in> set rs)"
proof -
  from assms obtain rs where "list_subgroves L W decode s = (Inr rs, s')"
    and "find (\<lambda>r. sn_subgrove_id r = subgrove_id) rs = Some r"
    unfolding get_subgrove_def try_io_Inr_iff by (auto simp: ok_or_Inr_iff)
  then show ?thesis by (auto simp: find_Some_iff)
qed

text \<open>A 404 is an absent link; so is an answer with no link, of whatever other status.\<close>

lemma absent_link:
  "get_eth_address L api did s = (Inr None, s') \<longleftrightarrow>
     (\<exists>resp. send (Get (api @ ''/did/'' @ did @ ''/eth-address'') []) s = (Inr resp, s')
        \<and> (resp_status resp = 404 \<or> (\<exists>body. read_json L resp = Inr body \<and> data_str ''eth_address'' body = Inr None)))"
  by (auto simp: get_eth_address_def maybe_query_def rbind_Inr_iff split: prod.splits sum.splits)

lemma params_absent: "with_params url [] = url"
  by (simp add: with_params_def)

end
